theory Spec2Isabelle
  imports Main
begin

section \<open>Strings and the regular expressions of the scripts\<close>

text \<open>
  A JavaScript string is modelled as a \<^typ>\<open>string\<close>, a list of 8-bit code units read as
  Latin-1. Code points above U+00FF are outside the model. The regular expressions of
  the scripts are translated into matchers that try the alternatives in the order of the
  backtracking engine; \<open>search\<close> is \<open>String.prototype.match\<close> without the \<open>g\<close> flag: the
  leftmost position where the pattern matches, with the length of the match.
\<close>

definition NL :: char where
  "NL = CHR 0x0A"

definition CR :: char where
  "CR = CHR 0x0D"

text \<open>\<open>\<bslash>s\<close>, and what \<open>trim()\<close> strips: tab, LF, VT, FF, CR, space, NBSP.\<close>

definition is_space :: "char \<Rightarrow> bool" where
  "is_space c = (c \<in> set [CHR 0x09, CHR 0x0A, CHR 0x0B, CHR 0x0C, CHR 0x0D, CHR 0x20, CHR 0xA0])"

definition trim :: "string \<Rightarrow> string" where
  "trim s = rev (dropWhile is_space (rev (dropWhile is_space s)))"

text \<open>
  \<open>toLowerCase\<close> on Latin-1: the letters \<open>A\<close> to \<open>Z\<close> and the capital letters U+00C0 to U+00DE
  (without the multiplication sign U+00D7), each with its lower-case letter.
\<close>

definition case_pairs :: "(char \<times> char) list" where
  "case_pairs =
     [(CHR ''A'', CHR ''a''), (CHR ''B'', CHR ''b''), (CHR ''C'', CHR ''c''), (CHR ''D'', CHR ''d''),
      (CHR ''E'', CHR ''e''), (CHR ''F'', CHR ''f''), (CHR ''G'', CHR ''g''), (CHR ''H'', CHR ''h''),
      (CHR ''I'', CHR ''i''), (CHR ''J'', CHR ''j''), (CHR ''K'', CHR ''k''), (CHR ''L'', CHR ''l''),
      (CHR ''M'', CHR ''m''), (CHR ''N'', CHR ''n''), (CHR ''O'', CHR ''o''), (CHR ''P'', CHR ''p''),
      (CHR ''Q'', CHR ''q''), (CHR ''R'', CHR ''r''), (CHR ''S'', CHR ''s''), (CHR ''T'', CHR ''t''),
      (CHR ''U'', CHR ''u''), (CHR ''V'', CHR ''v''), (CHR ''W'', CHR ''w''), (CHR ''X'', CHR ''x''),
      (CHR ''Y'', CHR ''y''), (CHR ''Z'', CHR ''z''), (CHR 0xC0, CHR 0xE0), (CHR 0xC1, CHR 0xE1),
      (CHR 0xC2, CHR 0xE2), (CHR 0xC3, CHR 0xE3), (CHR 0xC4, CHR 0xE4), (CHR 0xC5, CHR 0xE5),
      (CHR 0xC6, CHR 0xE6), (CHR 0xC7, CHR 0xE7), (CHR 0xC8, CHR 0xE8), (CHR 0xC9, CHR 0xE9),
      (CHR 0xCA, CHR 0xEA), (CHR 0xCB, CHR 0xEB), (CHR 0xCC, CHR 0xEC), (CHR 0xCD, CHR 0xED),
      (CHR 0xCE, CHR 0xEE), (CHR 0xCF, CHR 0xEF), (CHR 0xD0, CHR 0xF0), (CHR 0xD1, CHR 0xF1),
      (CHR 0xD2, CHR 0xF2), (CHR 0xD3, CHR 0xF3), (CHR 0xD4, CHR 0xF4), (CHR 0xD5, CHR 0xF5),
      (CHR 0xD6, CHR 0xF6), (CHR 0xD8, CHR 0xF8), (CHR 0xD9, CHR 0xF9), (CHR 0xDA, CHR 0xFA),
      (CHR 0xDB, CHR 0xFB), (CHR 0xDC, CHR 0xFC), (CHR 0xDD, CHR 0xFD), (CHR 0xDE, CHR 0xFE)]"

definition lower_char :: "char \<Rightarrow> char" where
  "lower_char c = (case map_of case_pairs c of Some d \<Rightarrow> d | None \<Rightarrow> c)"

definition toLowerCase :: "string \<Rightarrow> string" where
  "toLowerCase s = map lower_char s"

text \<open>
  A literal of a pattern with the \<open>i\<close> flag, at the start of the subject. The literals
  are written in lower case; only ASCII letters fold onto ASCII letters.
\<close>

definition starts_with_ci :: "string \<Rightarrow> string \<Rightarrow> bool" where
  "starts_with_ci p s = (map lower_char (take (length p) s) = p)"

text \<open>\<open>s.endsWith(p)\<close>\<close>

definition endsWith :: "string \<Rightarrow> string \<Rightarrow> bool" where
  "endsWith s p = (length p \<le> length s \<and> drop (length s - length p) s = p)"

text \<open>\<open>s.split(c)\<close> for a one-character separator: never the empty list.\<close>

fun cons_first :: "char \<Rightarrow> string list \<Rightarrow> string list" where
  "cons_first x [] = [[x]]"
| "cons_first x (p # ps) = (x # p) # ps"

fun split_char :: "char \<Rightarrow> string \<Rightarrow> string list" where
  "split_char c [] = [[]]"
| "split_char c (x # xs) = (if x = c then [] # split_char c xs else cons_first x (split_char c xs))"

text \<open>\<open>s.split(/\<bslash>r?\<bslash>n/)\<close>\<close>

fun split_lines :: "string \<Rightarrow> string list" where
  "split_lines [] = [[]]"
| "split_lines [x] = (if x = NL then [[], []] else [[x]])"
| "split_lines (x # y # zs) =
     (if x = NL then [] # split_lines (y # zs)
      else if x = CR \<and> y = NL then [] # split_lines zs
      else cons_first x (split_lines (y # zs)))"

text \<open>\<open>parts.join(sep)\<close>\<close>

fun join :: "string \<Rightarrow> string list \<Rightarrow> string" where
  "join sep [] = []"
| "join sep [p] = p"
| "join sep (p # q # ps) = p @ sep @ join sep (q # ps)"

text \<open>\<open>s.replace(/[...]/g, r)\<close> for a character class: every such character becomes \<open>r\<close>.\<close>

definition replace_all :: "(char \<Rightarrow> bool) \<Rightarrow> string \<Rightarrow> string \<Rightarrow> string" where
  "replace_all cls r s = concat (map (\<lambda>c. if cls c then r else [c]) s)"

fun search :: "(string \<Rightarrow> nat option) \<Rightarrow> string \<Rightarrow> (nat \<times> nat) option" where
  "search m [] = (case m [] of Some n \<Rightarrow> Some (0, n) | None \<Rightarrow> None)"
| "search m (c # cs) =
     (case m (c # cs) of
        Some n \<Rightarrow> Some (0, n)
      | None \<Rightarrow> (case search m cs of Some (i, n) \<Rightarrow> Some (Suc i, n) | None \<Rightarrow> None))"

subsection \<open>The opening tag of a \<open>div\<close> with a given id\<close>

text \<open>
  \<open>/<div\<bslash>s+[^>]*id=["']NAME["'][^>]*>/i\<close>. No part of the pattern but its last character
  matches \<open>>\<close>, so a match at a position ends at the first \<open>>\<close> after it; the text between
  \<open><div\<close> and that \<open>>\<close> has to start with a space and to hold the attribute after it.
\<close>

definition is_quote :: "char \<Rightarrow> bool" where
  "is_quote c = (c = CHR 0x22 \<or> c = CHR 0x27)"

definition id_attr_at :: "string \<Rightarrow> string \<Rightarrow> bool" where
  "id_attr_at name s =
     (starts_with_ci ''id='' s \<and>
      (case drop 3 s of
         [] \<Rightarrow> False
       | q # r \<Rightarrow> is_quote q \<and> starts_with_ci name r \<and>
           (case drop (length name) r of [] \<Rightarrow> False | q' # _ \<Rightarrow> is_quote q')))"

fun has_id_attr :: "string \<Rightarrow> string \<Rightarrow> bool" where
  "has_id_attr name [] = False"
| "has_id_attr name (c # cs) = (id_attr_at name (c # cs) \<or> has_id_attr name cs)"

definition match_open_div :: "string \<Rightarrow> string \<Rightarrow> nat option" where
  "match_open_div name s =
     (if starts_with_ci ''<div'' s then
        (let rest = drop 4 s; seg = takeWhile (\<lambda>c. c \<noteq> CHR ''>'') rest in
         (case seg of
            [] \<Rightarrow> None
          | sp # attrs \<Rightarrow>
              if length seg < length rest \<and> is_space sp \<and> has_id_attr name attrs
              then Some (4 + length seg + 1) else None))
      else None)"

definition find_div :: "string \<Rightarrow> string \<Rightarrow> (nat \<times> nat) option" where
  "find_div name html = search (match_open_div name) html"

text \<open>\<open>/<\<bslash>/body>/i\<close>\<close>

definition match_body_close :: "string \<Rightarrow> nat option" where
  "match_body_close s = (if starts_with_ci ''</body>'' s then Some 7 else None)"

text \<open>\<open>html.slice(0, insertPos) + "\<bslash>n" + snippet + "\<bslash>n" + html.slice(insertPos)\<close>\<close>

definition splice_at :: "nat \<Rightarrow> string \<Rightarrow> string \<Rightarrow> string" where
  "splice_at insertPos snippet html =
     take insertPos html @ [NL] @ snippet @ [NL] @ drop insertPos html"


text \<open>\<open>parseInt(txt, 10)\<close>: leading white space, an optional sign, the leading decimal
  digits; \<open>None\<close> is \<open>NaN\<close>. \<open>String(n)\<close> of an integer: its decimal digits. (The model
  computes on \<^typ>\<open>int\<close>; the rounding of a JavaScript number above \<open>2^53\<close> is outside it.)\<close>

definition is_digit :: "char \<Rightarrow> bool" where
  "is_digit c = (c \<in> set ''0123456789'')"

definition digit_val :: "char \<Rightarrow> nat" where
  "digit_val c = of_char c - 48"

definition digits_val :: "string \<Rightarrow> nat" where
  "digits_val ds = foldl (\<lambda>acc c. 10 * acc + digit_val c) 0 ds"

definition parseInt :: "string \<Rightarrow> int option" where
  "parseInt txt =
     (let s = dropWhile is_space txt;
          neg = (case s of [] \<Rightarrow> False | c # _ \<Rightarrow> c = CHR ''-'');
          r = (case s of [] \<Rightarrow> [] | c # r \<Rightarrow> if c = CHR ''-'' \<or> c = CHR ''+'' then r else s);
          ds = takeWhile is_digit r
      in if ds = [] then None
         else Some (if neg then - int (digits_val ds) else int (digits_val ds)))"

fun digits :: "nat \<Rightarrow> string" where
  "digits n =
     (if n < 10 then [''0123456789'' ! n]
      else digits (n div 10) @ [''0123456789'' ! (n mod 10)])"

declare digits.simps [simp del]

definition String :: "int \<Rightarrow> string" where
  "String n = (if n < 0 then CHR ''-'' # digits (nat (- n)) else digits (nat n))"

section \<open>Data model\<close>

text \<open>
  An element of the queue is an object whose properties, where present, are strings, as
  \<open>queue_submission\<close> writes them; \<open>None\<close> is an absent property. \<open>url\<close> and \<open>type\<close> are
  read by \<open>process_queue\<close> only. \<open>a || d\<close> on such a property takes \<open>d\<close> when the property
  is absent or empty.
\<close>

record submission =
  username :: "string option"
  name :: "string option"
  file_url :: "string option"
  url :: "string option"
  type :: "string option"
  description :: "string option"
  date :: "string option"

definition or_else :: "string option \<Rightarrow> string \<Rightarrow> string" where
  "or_else a d = (case a of None \<Rightarrow> d | Some s \<Rightarrow> if s = [] then d else s)"

definition truthy :: "string option \<Rightarrow> bool" where
  "truthy a = (case a of None \<Rightarrow> False | Some s \<Rightarrow> s \<noteq> [])"

text \<open>
  What \<open>JSON.parse\<close> makes of the text of \<open>submissions.json\<close>: the empty text, a text
  that is not JSON, a JSON value that is not an array, or an array of submissions.
  \<open>JSON.stringify\<close> of an array writes a text that parses back to that array.
\<close>

datatype queue_file = EmptyText | NotJson | JsonOther | JsonArray "submission list"

text \<open>The payload logged for a rejected input: \<open>{ username: USERNAME, body: ISSUE_BODY }\<close>.\<close>

record rejection =
  rej_username :: string
  rej_body :: string

text \<open>
  A value read from \<open>TARGET_MAP\<close>: one of its six pages, or, for a key that the object
  literal inherits from \<open>Object.prototype\<close>, a function or object (truthy, and not a string).
\<close>

datatype target = Html string | Inherited

text \<open>The \<open>debug\<close> object of lines 150-160.\<close>

record debug =
  d_username :: string
  d_name :: "string option"
  d_fileUrl :: string
  decidedTarget :: "string option"
  targetPath :: "string option"
  targetExists :: bool
  inserted :: bool
  snippetPreview :: "string option"
  timestamp :: string

datatype path = COOLDOWN_FILE | SUBMISSIONS_FILE | HtmlFile string | LOG_DIR | FAILED_DIR
  | PROCESSED_DIR | LogFile string | FailedFile string | ProcessedFile string

text \<open>One constructor for each \<open>console\<close> call of the scripts, with its arguments.\<close>

datatype console =
    CooldownActive
  | CouldNotReadCooldown
  | ErrorParsing
  | NoSubmissionsInQueue
  | IdleComplete
  | WillProcess nat
  | CouldNotDetermineTarget string
  | TargetHtmlNotFound string
  | NoInsertionPoint string
  | InsertedInto bool string
  | SavedUpdated nat
  | CouldNotWriteDebug
  | CouldNotWriteProcessedDebug
  | CooldownWritten
  | UnhandledError
  | FailedToParse
  | FailedLogged string
  | Logged string
  | SubmissionFailed
  | Queued string string
  | FatalError

datatype event = ExistsSync path | ReadFile path | WriteFile path | MkdirSync path
  | Console console | Sleep int

text \<open>
  The files the scripts touch, the clock behind \<open>Date.now()\<close>, and the trace of what a run
  did. A disk or permission fault is outside the model: a file operation fails only where
  the path that the script builds leads through a directory that does not exist (see
  \<open>writeDebug\<close> and \<open>logSubmission\<close>).
\<close>

record world =
  clock :: int
  cooldown_file :: "string option"
  submissions_file :: "queue_file option"
  pages :: "string \<Rightarrow> string option"
  dirs :: "path set"
  log_files :: "string \<Rightarrow> submission option"
  failed_files :: "string \<Rightarrow> rejection option"
  processed_files :: "string \<Rightarrow> debug option"
  trace :: "event list"

text \<open>\<open>new Date().toISOString()\<close> and \<open>new Date().toLocaleString()\<close>, as functions of the clock.\<close>

record platform =
  toISOString :: "int \<Rightarrow> string"
  toLocaleString :: "int \<Rightarrow> string"

definition emit :: "event \<Rightarrow> world \<Rightarrow> world" where
  "emit e w = w\<lparr>trace := trace w @ [e]\<rparr>"


section \<open>Drain: \<open>process_queue\<close>\<close>

text \<open>
  \<open>process_queue.cjs\<close> lists the script twice: lines 1-225, which write a debug file for
  each record, and lines 467-652. Where the two listings differ, a definition carries the
  line number of the function it translates; \<open>readCooldown\<close>, \<open>writeCooldown\<close>, \<open>sleep\<close>,
  \<open>ensureFileExists\<close>, \<open>chooseTargetByUrl\<close> and \<open>TARGET_MAP\<close> are the same in both.
\<close>

definition COOLDOWN_MS :: int where
  "COOLDOWN_MS = 3 * 60 * 1000"

definition IDLE_WAIT_MS :: int where
  "IDLE_WAIT_MS = 2 * 60 * 1000"

definition MAX_PER_RUN :: nat where
  "MAX_PER_RUN = 5"

definition object_prototype_keys :: "string list" where
  "object_prototype_keys =
     [''constructor'', ''__defineGetter__'', ''__defineSetter__'', ''hasOwnProperty'',
      ''__lookupGetter__'', ''__lookupSetter__'', ''isPrototypeOf'', ''propertyIsEnumerable'',
      ''toString'', ''valueOf'', ''__proto__'', ''toLocaleString'']"

text \<open>The own properties of \<open>TARGET_MAP\<close>, lines 22-29 and 493-500.\<close>

definition TARGET_MAP_entries :: "(string \<times> string) list" where
  "TARGET_MAP_entries =
     [(''mp3'', ''audio.html''), (''gif'', ''gifs.html''), (''jpg'', ''images.html''),
      (''jpeg'', ''images.html''), (''png'', ''images.html''), (''webp'', ''images.html'')]"

text \<open>\<open>TARGET_MAP[key]\<close>; \<open>None\<close> is \<open>undefined\<close>.\<close>

definition TARGET_MAP :: "string \<Rightarrow> target option" where
  "TARGET_MAP key =
     (case map_of TARGET_MAP_entries key of
        Some page \<Rightarrow> Some (Html page)
      | None \<Rightarrow> if key \<in> set object_prototype_keys then Some Inherited else None)"

definition readCooldown :: "world \<Rightarrow> int \<times> world" where
  "readCooldown w =
     (let w1 = emit (ExistsSync COOLDOWN_FILE) w in
      case cooldown_file w of
        None \<Rightarrow> (0, w1)
      | Some contents \<Rightarrow>
          (let txt = trim contents in
           (case parseInt txt of None \<Rightarrow> 0 | Some n \<Rightarrow> n, emit (ReadFile COOLDOWN_FILE) w1)))"

definition writeCooldown :: "world \<Rightarrow> world" where
  "writeCooldown w =
     emit (WriteFile COOLDOWN_FILE) (w\<lparr>cooldown_file := Some (String (clock w))\<rparr>)"

definition sleep :: "int \<Rightarrow> world \<Rightarrow> world" where
  "sleep ms w = emit (Sleep ms) (w\<lparr>clock := clock w + ms\<rparr>)"

text \<open>\<open>ensureFileExists(SUBMISSIONS_FILE, "[]")\<close>\<close>

definition ensureFileExists :: "world \<Rightarrow> world" where
  "ensureFileExists w =
     (let w1 = emit (ExistsSync SUBMISSIONS_FILE) w in
      if submissions_file w = None
      then emit (WriteFile SUBMISSIONS_FILE) (w1\<lparr>submissions_file := Some (JsonArray [])\<rparr>)
      else w1)"

text \<open>Lines 127-134 and 600-607: \<open>JSON.parse(fs.readFileSync(...) || "[]")\<close>.\<close>

definition readSubmissions :: "world \<Rightarrow> submission list \<times> world" where
  "readSubmissions w =
     (let w1 = emit (ReadFile SUBMISSIONS_FILE) w in
      case submissions_file w of
        Some (JsonArray xs) \<Rightarrow> (xs, w1)
      | Some JsonOther \<Rightarrow> ([], w1)
      | Some EmptyText \<Rightarrow> ([], w1)
      | Some NotJson \<Rightarrow> ([], emit (Console ErrorParsing) w1)
      | None \<Rightarrow> ([], emit (Console ErrorParsing) w1))"

definition chooseTargetByUrl :: "string \<Rightarrow> target option" where
  "chooseTargetByUrl fileUrl =
     (if fileUrl = [] then None
      else (let lower = toLowerCase (hd (split_char (CHR ''?'') fileUrl));
                ext = last (split_char (CHR ''.'') lower)
            in TARGET_MAP ext))"

text \<open>\<open>/\<bslash>.(jpg|jpeg|png|webp|gif|mp3)(?:$|[?#])/i\<close> of line 166, giving
  \<open>found[1].toLowerCase()\<close>.\<close>

definition known_exts :: "string list" where
  "known_exts = [''jpg'', ''jpeg'', ''png'', ''webp'', ''gif'', ''mp3'']"

definition known_ext_at :: "string \<Rightarrow> string option" where
  "known_ext_at s =
     (case s of
        [] \<Rightarrow> None
      | c # r \<Rightarrow>
          if c = CHR ''.'' then
            find (\<lambda>e. starts_with_ci e r \<and>
                       (case drop (length e) r of
                          [] \<Rightarrow> True
                        | d # _ \<Rightarrow> d = CHR ''?'' \<or> d = CHR ''#'')) known_exts
          else None)"

fun find_known_ext :: "string \<Rightarrow> string option" where
  "find_known_ext [] = None"
| "find_known_ext (c # cs) =
     (case known_ext_at (c # cs) of Some e \<Rightarrow> Some e | None \<Rightarrow> find_known_ext cs)"

text \<open>Lines 163-170: the primary detection and its fallback.\<close>

definition decideTarget_163 :: "string \<Rightarrow> target option" where
  "decideTarget_163 fileUrl =
     (case chooseTargetByUrl fileUrl of
        Some t \<Rightarrow> Some t
      | None \<Rightarrow> (case find_known_ext fileUrl of Some e \<Rightarrow> TARGET_MAP e | None \<Rightarrow> None))"

text \<open>Line 623: \<open>chooseTargetByUrl(fileUrl) || (sub.type ? TARGET_MAP[sub.type.toLowerCase()] : null)\<close>\<close>

definition decideTarget_623 :: "submission \<Rightarrow> string \<Rightarrow> target option" where
  "decideTarget_623 sub fileUrl =
     (case chooseTargetByUrl fileUrl of
        Some t \<Rightarrow> Some t
      | None \<Rightarrow> if truthy (type sub) then TARGET_MAP (toLowerCase (or_else (type sub) [])) else None)"


subsection \<open>Rendering\<close>

text \<open>\<open>sub.file_url || sub.url || ""\<close> of lines 71, 148, 540 and 622.\<close>

definition fileUrlOf :: "submission \<Rightarrow> string" where
  "fileUrlOf sub = or_else (file_url sub) (or_else (url sub) [])"

text \<open>A template literal that starts with a line break and ends each of its lines with one.\<close>

definition template :: "string list \<Rightarrow> string" where
  "template ls = NL # concat (map (\<lambda>l. l @ [NL]) ls)"

definition is_id_char :: "char \<Rightarrow> bool" where
  "is_id_char c =
     (c \<in> set ''abcdefghijklmnopqrstuvwxyzABCDEFGHIJKLMNOPQRSTUVWXYZ0123456789_-'')"

definition escape_lt_gt :: "string \<Rightarrow> string" where
  "escape_lt_gt s =
     replace_all (\<lambda>c. c = CHR ''>'') ''&gt;'' (replace_all (\<lambda>c. c = CHR ''<'') ''&lt;'' s)"

definition escape_quot :: "string \<Rightarrow> string" where
  "escape_quot s = replace_all (\<lambda>c. c = CHR 0x22) ''&quot;'' s"

text \<open>Lines 67-83.\<close>

definition buildHtmlSnippet_67 :: "submission \<Rightarrow> string" where
  \<open>buildHtmlSnippet_67 sub =
     (let nameId = replace_all (\<lambda>c. \<not> is_id_char c) ''-''
                     (or_else (name sub) (or_else (username sub) ''submission''));
          fileUrl = fileUrlOf sub;
          desc = escape_lt_gt (or_else (description sub) [])
      in template
           [''<div id="'' @ nameId @ ''">'',
            ''  <img src="'' @ fileUrl @ ''" alt="'' @ escape_quot desc @ ''" />'',
            ''  <p>'' @ desc @ ''</p>'',
            ''  <a href="'' @ fileUrl @ ''" download><button type="button">download</button></a>'',
            ''</div>''])\<close>

text \<open>Lines 538-568. \<open>isAudio\<close> and \<open>mediaHtml\<close> are the two locals of those names.\<close>

definition isAudio :: "string \<Rightarrow> bool" where
  "isAudio fileUrl = endsWith (toLowerCase fileUrl) ''.mp3''"

definition mediaHtml :: "string \<Rightarrow> string \<Rightarrow> string" where
  \<open>mediaHtml fileUrl desc =
     (if isAudio fileUrl
      then ''<audio class="submission-media" controls preload="none"><source src="'' @ fileUrl
             @ ''"></audio>''
      else ''<img class="submission-media" src="'' @ fileUrl @ ''" alt="'' @ escape_quot desc
             @ ''" />'')\<close>

definition buildHtmlSnippet_538 :: "platform \<Rightarrow> world \<Rightarrow> submission \<Rightarrow> string" where
  \<open>buildHtmlSnippet_538 pf w sub =
     (let username = or_else (username sub) ''unknown'';
          fileUrl = fileUrlOf sub;
          desc = or_else (description sub) [];
          now = toLocaleString pf (clock w);
          pfp = ''https://github.com/'' @ username @ ''.png''
      in template
           [''  <div class="submission">'',
            ''    <div class="submission-top">'',
            ''      <img class="submission-pfp" src="'' @ pfp @ ''" alt="'' @ username
              @ [CHR 0x27] @ ''s avatar" width="40" height="40" />'',
            ''      <div class="submission-meta">'',
            ''        <strong class="submission-name">'' @ username @ ''</strong>'',
            ''        <span class="submission-date">'' @ now @ ''</span>'',
            ''      </div>'',
            ''    </div>'',
            ''    <div class="submission-body">'',
            ''      '' @ mediaHtml fileUrl desc,
            ''      <p class="submission-desc">'' @ escape_lt_gt desc @ ''</p>'',
            ''    </div>'',
            ''  </div>''])\<close>

subsection \<open>Insertion\<close>

text \<open>
  A page is named by its entry in \<open>TARGET_MAP\<close>; \<open>htmlPath\<close> is that name under
  \<open>REPO_ROOT\<close>.
\<close>

definition writePage :: "string \<Rightarrow> string \<Rightarrow> world \<Rightarrow> world" where
  "writePage htmlPath newHtml w =
     emit (WriteFile (HtmlFile htmlPath)) (w\<lparr>pages := (pages w)(htmlPath \<mapsto> newHtml)\<rparr>)"

text \<open>Lines 85-115: the \<open>submissions\<close> div, else the \<open>content\<close> div, else before \<open></body>\<close>.\<close>

definition insertPos_85 :: "string \<Rightarrow> nat option" where
  "insertPos_85 html =
     (case find_div ''submissions'' html of
        Some (index, len) \<Rightarrow> Some (index + len)
      | None \<Rightarrow>
          (case find_div ''content'' html of
             Some (index, len) \<Rightarrow> Some (index + len)
           | None \<Rightarrow>
               (case search match_body_close html of
                  Some (index, len) \<Rightarrow> Some index
                | None \<Rightarrow> None)))"

definition insertIntoHtmlAtTop_85 :: "string \<Rightarrow> string \<Rightarrow> world \<Rightarrow> bool \<times> world" where
  "insertIntoHtmlAtTop_85 htmlPath snippet w =
     (let w1 = emit (ExistsSync (HtmlFile htmlPath)) w in
      case pages w htmlPath of
        None \<Rightarrow> (False, emit (Console (TargetHtmlNotFound htmlPath)) w1)
      | Some html \<Rightarrow>
          (let w2 = emit (ReadFile (HtmlFile htmlPath)) w1 in
           case insertPos_85 html of
             None \<Rightarrow> (False, emit (Console (NoInsertionPoint htmlPath)) w2)
           | Some insertPos \<Rightarrow> (True, writePage htmlPath (splice_at insertPos snippet html) w2)))"

text \<open>Lines 570-588: the \<open>submissions\<close> div only.\<close>

definition insertIntoHtmlAtTop_570 :: "string \<Rightarrow> string \<Rightarrow> world \<Rightarrow> bool \<times> world" where
  "insertIntoHtmlAtTop_570 htmlPath snippet w =
     (let w1 = emit (ExistsSync (HtmlFile htmlPath)) w in
      case pages w htmlPath of
        None \<Rightarrow> (False, emit (Console (TargetHtmlNotFound htmlPath)) w1)
      | Some html \<Rightarrow>
          (let w2 = emit (ReadFile (HtmlFile htmlPath)) w1 in
           case find_div ''submissions'' html of
             None \<Rightarrow> (False, emit (Console (NoInsertionPoint htmlPath)) w2)
           | Some (index, len) \<Rightarrow>
               (True, writePage htmlPath (splice_at (index + len) snippet html) w2)))"


subsection \<open>The run\<close>

text \<open>
  \<open>path.join(REPO_ROOT, target)\<close> throws a \<open>TypeError\<close> when \<open>target\<close> is not a string. The
  error leaves the loop and \<open>main\<close>, and the handler of lines 221-224 and 648-651 logs it
  and exits with code 1: the outcome \<open>Crashed\<close>.

  The name of a log file holds a user name that the scripts do not check. A \<open>/\<close> in the
  file name makes \<open>path.join(dir, fname)\<close> a path through a directory below \<open>dir\<close>; the
  scripts make no such directory, so \<open>fs.writeFileSync\<close> writes nothing and throws
  \<open>ENOENT\<close>. (A file name with a segment \<open>..\<close>, which \<open>path.join\<close> resolves to a path
  outside that directory, is treated like the other names with a \<open>/\<close>: what the scripts
  write through such a path is outside the model.)
\<close>

datatype error = TypeError | ENOENT

datatype outcome = Skipped | Idled | Processed | Crashed

text \<open>\<open>for (const sub of toProcess) body\<close>, left at the first error thrown.\<close>

fun forEach :: "('a \<Rightarrow> world \<Rightarrow> error option \<times> world) \<Rightarrow> 'a list \<Rightarrow> world
    \<Rightarrow> error option \<times> world" where
  "forEach f [] w = (None, w)"
| "forEach f (x # xs) w =
     (case f x w of (Some e, w') \<Rightarrow> (Some e, w') | (None, w') \<Rightarrow> forEach f xs w')"

text \<open>\<open>if (!fs.existsSync(dir)) fs.mkdirSync(dir)\<close>\<close>

definition ensureDir :: "path \<Rightarrow> world \<Rightarrow> world" where
  "ensureDir dir w =
     (let w1 = emit (ExistsSync dir) w in
      if dir \<in> dirs w then w1 else emit (MkdirSync dir) (w1\<lparr>dirs := insert dir (dirs w1)\<rparr>))"

text \<open>
  Lines 176-183 and 199-206: the debug file of a record. The error of a write that fails
  is caught and \<open>warning\<close> is logged.
\<close>

definition writeDebug :: "console \<Rightarrow> debug \<Rightarrow> world \<Rightarrow> world" where
  "writeDebug warning dbg w =
     (let w1 = ensureDir PROCESSED_DIR (ensureDir LOG_DIR w);
          dname = String (clock w1) @ ''-'' @ d_username dbg @ ''.json''
      in if CHR ''/'' \<in> set dname then emit (Console warning) w1
         else emit (WriteFile (ProcessedFile dname))
                (w1\<lparr>processed_files := (processed_files w1)(dname \<mapsto> dbg)\<rparr>))"

text \<open>Lines 147-207: the body of the loop.\<close>

definition body_147 :: "platform \<Rightarrow> submission \<Rightarrow> world \<Rightarrow> error option \<times> world" where
  "body_147 pf sub w =
     (let fileUrl = fileUrlOf sub;
          dbg = \<lparr>d_username = or_else (username sub) ''unknown'',
                 d_name = (if truthy (name sub) then name sub
                           else if truthy (username sub) then username sub else None),
                 d_fileUrl = fileUrl, decidedTarget = None, targetPath = None,
                 targetExists = False, inserted = False, snippetPreview = None,
                 timestamp = toISOString pf (clock w)\<rparr>
      in case decideTarget_163 fileUrl of
           None \<Rightarrow>
             (None, writeDebug CouldNotWriteDebug dbg
                      (emit (Console (CouldNotDetermineTarget fileUrl)) w))
         | Some Inherited \<Rightarrow> (Some TypeError, w)
         | Some (Html target) \<Rightarrow>
             (let w1 = emit (ExistsSync (HtmlFile target)) w;
                  snippet = buildHtmlSnippet_67 sub;
                  (ok, w2) = insertIntoHtmlAtTop_85 target snippet w1;
                  dbg' = dbg\<lparr>decidedTarget := Some target, targetPath := Some target,
                            targetExists := (pages w target \<noteq> None), inserted := ok,
                            snippetPreview :=
                              Some (join [NL] (take 6 (split_char NL (trim snippet))))\<rparr>
              in (None, writeDebug CouldNotWriteProcessedDebug dbg'
                          (emit (Console (InsertedInto ok target)) w2))))"

text \<open>Lines 621-632: the body of the loop.\<close>

definition body_621 :: "platform \<Rightarrow> submission \<Rightarrow> world \<Rightarrow> error option \<times> world" where
  "body_621 pf sub w =
     (let fileUrl = fileUrlOf sub in
      case decideTarget_623 sub fileUrl of
        None \<Rightarrow> (None, emit (Console (CouldNotDetermineTarget fileUrl)) w)
      | Some Inherited \<Rightarrow> (Some TypeError, w)
      | Some (Html target) \<Rightarrow>
          (let snippet = buildHtmlSnippet_538 pf w sub;
               (ok, w1) = insertIntoHtmlAtTop_570 target snippet w
           in (None, emit (Console (InsertedInto ok target)) w1)))"

text \<open>\<open>fs.writeFileSync(SUBMISSIONS_FILE, JSON.stringify(submissions, null, 2), "utf8")\<close>\<close>

definition writeSubmissions :: "submission list \<Rightarrow> world \<Rightarrow> world" where
  "writeSubmissions submissions w =
     emit (WriteFile SUBMISSIONS_FILE) (w\<lparr>submissions_file := Some (JsonArray submissions)\<rparr>)"

text \<open>
  \<open>main\<close> under its handler, with the loop body as a parameter: lines 117-225 are
  \<open>main_117\<close>, lines 590-652 are \<open>main_590\<close>. \<open>submissions.splice(0, MAX_PER_RUN)\<close> gives
  the first \<open>MAX_PER_RUN\<close> elements and leaves the others in \<open>submissions\<close>.
\<close>

definition main_with :: "(submission \<Rightarrow> world \<Rightarrow> error option \<times> world) \<Rightarrow> world
    \<Rightarrow> outcome \<times> world" where
  "main_with body w =
     (let now = clock w;
          (lastRun, w1) = readCooldown w
      in if now - lastRun < COOLDOWN_MS then (Skipped, emit (Console CooldownActive) w1)
         else
           (let w2 = ensureFileExists w1;
                (submissions, w3) = readSubmissions w2
            in if length submissions = 0 then
                 (Idled,
                  emit (Console IdleComplete)
                    (writeCooldown (sleep IDLE_WAIT_MS (emit (Console NoSubmissionsInQueue) w3))))
               else
                 (let toProcess = take MAX_PER_RUN submissions;
                      remaining = drop MAX_PER_RUN submissions;
                      w4 = emit (Console (WillProcess (length toProcess))) w3
                  in case forEach body toProcess w4 of
                       (Some e, w5) \<Rightarrow> (Crashed, emit (Console UnhandledError) w5)
                     | (None, w5) \<Rightarrow>
                         (Processed,
                          emit (Console CooldownWritten)
                            (writeCooldown
                               (emit (Console (SavedUpdated (length remaining)))
                                  (writeSubmissions remaining w5)))))))"

definition main_117 :: "platform \<Rightarrow> world \<Rightarrow> outcome \<times> world" where
  "main_117 pf w = main_with (body_147 pf) w"

definition main_590 :: "platform \<Rightarrow> world \<Rightarrow> outcome \<times> world" where
  "main_590 pf w = main_with (body_621 pf) w"


section \<open>Intake: \<open>queue_submission\<close>\<close>

text \<open>
  Lines 226-345 of \<open>process_queue.cjs\<close>; lines 346-466 list the same \<open>parseIssueBody\<close>,
  \<open>logSubmission\<close> and \<open>main\<close> once more as an ES module.
\<close>

record process_env =
  env_USERNAME :: "string option"
  env_ISSUE_BODY :: "string option"
  env_FILE_URL :: "string option"
  env_DESCRIPTION :: "string option"

definition USERNAME :: "process_env \<Rightarrow> string" where
  "USERNAME env = or_else (env_USERNAME env) ''unknown''"

definition ISSUE_BODY :: "process_env \<Rightarrow> string" where
  "ISSUE_BODY env = or_else (env_ISSUE_BODY env) []"

definition FILE_URL :: "process_env \<Rightarrow> string" where
  "FILE_URL env = or_else (env_FILE_URL env) []"

definition DESCRIPTION :: "process_env \<Rightarrow> string" where
  "DESCRIPTION env = or_else (env_DESCRIPTION env) []"

subsection \<open>The two lines of the grammar\<close>

text \<open>
  \<open>/^\<bslash>(([^)]+)\<bslash>)\<bslash>s*\<bslash>[(.+)\<bslash>]$/\<close>, giving the two groups. The first group runs to the
  first \<open>)\<close>; after the spaces a \<open>[\<close> has to follow; the second group is what lies between
  it and a \<open>]\<close> that ends the line, and \<open>.\<close> matches no line terminator.
\<close>

definition is_line_terminator :: "char \<Rightarrow> bool" where
  "is_line_terminator c = (c = NL \<or> c = CR)"

definition match_name_line :: "string \<Rightarrow> (string \<times> string) option" where
  "match_name_line s =
     (case s of
        [] \<Rightarrow> None
      | c # r \<Rightarrow>
          if c = CHR ''('' then
            (let g1 = takeWhile (\<lambda>c. c \<noteq> CHR '')'') r in
             if g1 = [] then None
             else
               (case dropWhile (\<lambda>c. c \<noteq> CHR '')'') r of
                  [] \<Rightarrow> None
                | _ # r2 \<Rightarrow>
                    (case dropWhile is_space r2 of
                       [] \<Rightarrow> None
                     | b # r3 \<Rightarrow>
                         if b = CHR ''['' \<and> r3 \<noteq> [] \<and> last r3 = CHR '']'' \<and> butlast r3 \<noteq> []
                            \<and> \<not> list_ex is_line_terminator (butlast r3)
                         then Some (g1, butlast r3) else None)))
          else None)"

text \<open>
  \<open>/https?:\<bslash>/\<bslash>/\<bslash>S+\<bslash>.(jpg|jpeg|png|webp|gif|mp3)/i\<close>, as the length of the match at the
  start of the subject. \<open>\<bslash>S+\<close> first takes every character up to the next space and then
  gives them back one by one, down to one character, until the rest of the pattern
  matches behind it.
\<close>

definition match_ext :: "string \<Rightarrow> nat option" where
  "match_ext s = map_option length (find (\<lambda>e. starts_with_ci e s) known_exts)"

definition match_dot_ext :: "string \<Rightarrow> nat option" where
  "match_dot_ext s =
     (case s of
        [] \<Rightarrow> None
      | c # r \<Rightarrow> if c = CHR ''.'' then map_option Suc (match_ext r) else None)"

fun backtrack :: "(string \<Rightarrow> nat option) \<Rightarrow> nat \<Rightarrow> string \<Rightarrow> nat option" where
  "backtrack k 0 s = None"
| "backtrack k (Suc n) s =
     (case k (drop (Suc n) s) of Some m \<Rightarrow> Some (Suc n + m) | None \<Rightarrow> backtrack k n s)"

definition nonspace_plus_then :: "(string \<Rightarrow> nat option) \<Rightarrow> string \<Rightarrow> nat option" where
  "nonspace_plus_then k s = backtrack k (length (takeWhile (\<lambda>c. \<not> is_space c) s)) s"

definition scheme_then :: "(string \<Rightarrow> nat option) \<Rightarrow> string \<Rightarrow> nat option" where
  "scheme_then k s =
     (if starts_with_ci ''https://'' s then map_option (\<lambda>n. 8 + n) (k (drop 8 s))
      else if starts_with_ci ''http://'' s then map_option (\<lambda>n. 7 + n) (k (drop 7 s))
      else None)"

definition match_url :: "string \<Rightarrow> nat option" where
  "match_url s = scheme_then (nonspace_plus_then match_dot_ext) s"

text \<open>
  \<open>/!\<bslash>[[^\<bslash>]]*\<bslash>]\<bslash>((https?:\<bslash>/\<bslash>/\<bslash>S+\<bslash>.(jpg|jpeg|png|webp|gif|mp3))\<bslash>)/i\<close>, giving its
  first group.
\<close>

definition match_dot_ext_paren :: "string \<Rightarrow> nat option" where
  "match_dot_ext_paren s =
     (case s of
        [] \<Rightarrow> None
      | c # r \<Rightarrow>
          if c = CHR ''.'' then
            map_option (\<lambda>e. Suc (length e))
              (find (\<lambda>e. starts_with_ci e r \<and>
                         (case drop (length e) r of [] \<Rightarrow> False | d # _ \<Rightarrow> d = CHR '')''))
                 known_exts)
          else None)"

definition match_md_image :: "string \<Rightarrow> string option" where
  "match_md_image s =
     (if take 2 s = ''!['' then
        (let r = dropWhile (\<lambda>c. c \<noteq> CHR '']'') (drop 2 s) in
         if take 2 r = ''](''  then
           (case scheme_then (nonspace_plus_then match_dot_ext_paren) (drop 2 r) of
              Some n \<Rightarrow> Some (take n (drop 2 r))
            | None \<Rightarrow> None)
         else None)
      else None)"

fun find_md_image :: "string \<Rightarrow> string option" where
  "find_md_image [] = None"
| "find_md_image (c # cs) =
     (case match_md_image (c # cs) of Some u \<Rightarrow> Some u | None \<Rightarrow> find_md_image cs)"

text \<open>Lines 266-279: \<open>urlMatch[0]\<close>, or \<open>None\<close> when the line is refused.\<close>

definition urlOfLine :: "string \<Rightarrow> string option" where
  "urlOfLine fileLine =
     (case search match_url fileLine of
        Some (index, len) \<Rightarrow> Some (take len (drop index fileLine))
      | None \<Rightarrow> find_md_image fileLine)"


subsection \<open>\<open>parseIssueBody\<close>, \<open>logSubmission\<close> and \<open>main\<close>\<close>

text \<open>\<open>body.trim().split(/\<bslash>r?\<bslash>n/).map(l => l.trim()).filter(Boolean)\<close>\<close>

definition nonEmptyLines :: "string \<Rightarrow> string list" where
  "nonEmptyLines text = filter (\<lambda>l. l \<noteq> []) (map trim (split_lines (trim text)))"

text \<open>Lines 256-289; \<open>None\<close> is \<open>null\<close>.\<close>

definition parseIssueBody :: "platform \<Rightarrow> process_env \<Rightarrow> world \<Rightarrow> string \<Rightarrow> submission option" where
  "parseIssueBody pf env w text =
     (let lines = nonEmptyLines text in
      if length lines < 2 then None
      else
        (case match_name_line (lines ! 0) of
           None \<Rightarrow> None
         | Some (g1, g2) \<Rightarrow>
             (let name' = trim g1;
                  date' = trim g2;
                  fileLine = lines ! 1
              in case urlOfLine fileLine of
                   None \<Rightarrow> None
                 | Some url' \<Rightarrow>
                     (let desc = trim (if 2 < length lines then lines ! 2 else [])
                      in Some \<lparr>username = Some (USERNAME env), name = Some name',
                               file_url = Some url', url = None, type = None,
                               description = Some desc,
                               date = Some (if date' = [] then toISOString pf (clock w)
                                            else date')\<rparr>))))"

text \<open>The file name of lines 292-294: \<open>`${ts}-${sub.username}.json`\<close>.\<close>

definition logFileName :: "platform \<Rightarrow> world \<Rightarrow> string \<Rightarrow> string" where
  "logFileName pf w user =
     replace_all (\<lambda>c. c = CHR '':'' \<or> c = CHR ''.'') ''-'' (toISOString pf (clock w))
       @ ''-'' @ user @ ''.json''"

text \<open>
  Lines 291-298. \<open>logSubmission\<close> is \<open>logSubmission(sub, false)\<close>, which writes a submission
  under \<open>LOG_DIR\<close>; \<open>logSubmission_failed\<close> is \<open>logSubmission(sub, true)\<close>, which writes the
  rejected payload under \<open>FAILED_DIR\<close>. Nothing here catches the error of a write that
  fails: it is thrown to the caller.
\<close>

definition logSubmission :: "platform \<Rightarrow> submission \<Rightarrow> world \<Rightarrow> error option \<times> world" where
  "logSubmission pf sub w =
     (let fname = logFileName pf w (case username sub of Some u \<Rightarrow> u | None \<Rightarrow> ''undefined'')
      in if CHR ''/'' \<in> set fname then (Some ENOENT, w)
         else (None,
               emit (Console (Logged fname))
                 (emit (WriteFile (LogFile fname))
                    (w\<lparr>log_files := (log_files w)(fname \<mapsto> sub)\<rparr>))))"

definition logSubmission_failed :: "platform \<Rightarrow> rejection \<Rightarrow> world \<Rightarrow> error option \<times> world"
  where
  "logSubmission_failed pf rej w =
     (let fname = logFileName pf w (rej_username rej)
      in if CHR ''/'' \<in> set fname then (Some ENOENT, w)
         else (None,
               emit (Console (FailedLogged fname))
                 (emit (WriteFile (FailedFile fname))
                    (w\<lparr>failed_files := (failed_files w)(fname \<mapsto> rej)\<rparr>))))"

text \<open>Lines 302-309: \<open>JSON.parse\<close> throws on the empty text too.\<close>

definition readSubmissions_302 :: "world \<Rightarrow> submission list \<times> world" where
  "readSubmissions_302 w =
     (let w1 = emit (ReadFile SUBMISSIONS_FILE) w in
      case submissions_file w of
        Some (JsonArray xs) \<Rightarrow> (xs, w1)
      | Some JsonOther \<Rightarrow> ([], w1)
      | Some EmptyText \<Rightarrow> ([], emit (Console FailedToParse) w1)
      | Some NotJson \<Rightarrow> ([], emit (Console FailedToParse) w1)
      | None \<Rightarrow> ([], emit (Console FailedToParse) w1))"

text \<open>
  The script returns after a rejection, returns after an acceptance, or, when \<open>main\<close> throws,
  logs the error in the handler of lines 338-345 and exits with code 1.
\<close>

datatype intake_outcome = Rejected | Accepted | Fatal

text \<open>Lines 311-324: the record made of the input, \<open>None\<close> being \<open>null\<close>.\<close>

definition newSubmission :: "platform \<Rightarrow> process_env \<Rightarrow> world \<Rightarrow> submission option" where
  "newSubmission pf env w =
     (if ISSUE_BODY env \<noteq> [] then parseIssueBody pf env w (ISSUE_BODY env)
      else if FILE_URL env \<noteq> [] then
        Some \<lparr>username = Some (USERNAME env), name = Some (USERNAME env),
              file_url = Some (FILE_URL env), url = None, type = None,
              description = Some (DESCRIPTION env),
              date = Some (toISOString pf (clock w))\<rparr>
      else None)"

text \<open>
  Lines 300-336, under the handler of lines 338-345. An error thrown by \<open>logSubmission\<close>
  leaves \<open>main\<close> at once: after line 326 nothing is logged, and after line 332 the queue
  is not written.
\<close>

definition main_300 :: "platform \<Rightarrow> process_env \<Rightarrow> world \<Rightarrow> intake_outcome \<times> world" where
  "main_300 pf env w =
     (let w1 = ensureFileExists w;
          (submissions, w2) = readSubmissions_302 w1
      in case newSubmission pf env w2 of
           None \<Rightarrow>
             (case logSubmission_failed pf
                     \<lparr>rej_username = USERNAME env, rej_body = ISSUE_BODY env\<rparr> w2 of
                (Some e, w3) \<Rightarrow> (Fatal, emit (Console FatalError) w3)
              | (None, w3) \<Rightarrow> (Rejected, emit (Console SubmissionFailed) w3))
         | Some sub \<Rightarrow>
             (case logSubmission pf sub w2 of
                (Some e, w3) \<Rightarrow> (Fatal, emit (Console FatalError) w3)
              | (None, w3) \<Rightarrow>
                  (Accepted,
                   emit (Console (Queued (USERNAME env) (or_else (file_url sub) [])))
                     (writeSubmissions (submissions @ [sub]) w3))))"

text \<open>
  The script: lines 242-243 make the two log directories when the module is loaded, then
  lines 338-345 call \<open>main\<close>.
\<close>

definition queue_submission :: "platform \<Rightarrow> process_env \<Rightarrow> world \<Rightarrow> intake_outcome \<times> world" where
  "queue_submission pf env w = main_300 pf env (ensureDir FAILED_DIR (ensureDir LOG_DIR w))"

section \<open>Notions used to state the properties\<close>

text \<open>The cooldown gate of lines 118-120 and 591-593.\<close>

definition cooldownActive :: "world \<Rightarrow> bool" where
  "cooldownActive w = (clock w - fst (readCooldown w) < COOLDOWN_MS)"

text \<open>The queue that both scripts read from a state: empty unless the file holds an array.\<close>

definition queued :: "world \<Rightarrow> submission list" where
  "queued w = (case submissions_file w of Some (JsonArray xs) \<Rightarrow> xs | _ \<Rightarrow> [])"

text \<open>The events of a run that started in \<open>w\<close> and ended in \<open>w'\<close>.\<close>

definition new_events :: "world \<Rightarrow> world \<Rightarrow> event list" where
  "new_events w w' = drop (length (trace w)) (trace w')"

definition touches_page :: "event \<Rightarrow> bool" where
  "touches_page e =
     (case e of
        ExistsSync (HtmlFile p) \<Rightarrow> True
      | ReadFile (HtmlFile p) \<Rightarrow> True
      | WriteFile (HtmlFile p) \<Rightarrow> True
      | _ \<Rightarrow> False)"

text \<open>
  The one line that the loop logs for each record, and the page it names: \<open>None\<close> for
  "Could not determine target".
\<close>

definition is_verdict :: "event \<Rightarrow> bool" where
  "is_verdict e =
     (case e of
        Console (CouldNotDetermineTarget u) \<Rightarrow> True
      | Console (InsertedInto ok t) \<Rightarrow> True
      | _ \<Rightarrow> False)"

definition routed :: "event \<Rightarrow> target option" where
  "routed e = (case e of Console (InsertedInto ok t) \<Rightarrow> Some (Html t) | _ \<Rightarrow> None)"

text \<open>The state in which a run reads the queue: after the gate and \<open>ensureFileExists\<close>.\<close>

definition at_queue :: "world \<Rightarrow> world" where
  "at_queue w = snd (readSubmissions (ensureFileExists (snd (readCooldown w))))"

text \<open>The state in which the loop starts, and what a run does after the loop.\<close>

definition batch_start :: "world \<Rightarrow> world" where
  "batch_start w =
     emit (Console (WillProcess (length (take MAX_PER_RUN (queued w))))) (at_queue w)"

definition batch_finish :: "submission list \<Rightarrow> world \<Rightarrow> world" where
  "batch_finish remaining w5 =
     emit (Console CooldownWritten)
       (writeCooldown
          (emit (Console (SavedUpdated (length remaining))) (writeSubmissions remaining w5)))"


text \<open>The state in which \<open>queue_submission\<close> has read the queue.\<close>

definition at_intake :: "world \<Rightarrow> world" where
  "at_intake w =
     snd (readSubmissions_302 (ensureFileExists (ensureDir FAILED_DIR (ensureDir LOG_DIR w))))"


text \<open>
  A page offers no place for a fragment: it is missing, or it holds none of the patterns
  that the listing looks for.
\<close>

definition no_insertion_570 :: "world \<Rightarrow> string \<Rightarrow> bool" where
  "no_insertion_570 w p =
     (case pages w p of None \<Rightarrow> True | Some html \<Rightarrow> find_div ''submissions'' html = None)"

definition no_insertion_85 :: "world \<Rightarrow> string \<Rightarrow> bool" where
  "no_insertion_85 w p =
     (case pages w p of None \<Rightarrow> True | Some html \<Rightarrow> insertPos_85 html = None)"

text \<open>What a failed insertion into page \<open>p\<close> adds to the trace.\<close>

definition failure_events :: "world \<Rightarrow> string \<Rightarrow> event list" where
  "failure_events w p =
     ExistsSync (HtmlFile p) #
       (if pages w p = None then [Console (TargetHtmlNotFound p)]
        else [ReadFile (HtmlFile p), Console (NoInsertionPoint p)])"


text \<open>
  A media URL: \<open>http://\<close> or \<open>https://\<close>, one or more characters, a dot and one of the
  six extensions, the letters in any case and no space anywhere.
\<close>

definition media_url :: "string \<Rightarrow> bool" where
  "media_url u =
     (\<not> list_ex is_space u \<and>
      list_ex (\<lambda>(scheme, ext).
                 length scheme + Suc (length ext) < length u \<and>
                 toLowerCase (take (length scheme) u) = scheme \<and>
                 toLowerCase (drop (length u - Suc (length ext)) u) = CHR ''.'' # ext)
        (List.product [''https://'', ''http://''] known_exts))"

text \<open>A line that holds a media URL somewhere.\<close>

definition holds_media_url :: "string \<Rightarrow> bool" where
  "holds_media_url l = (\<exists>pre u post. l = pre @ u @ post \<and> media_url u)"

text \<open>
  A name line: \<open>(\<close>, a name of one or more characters other than \<open>)\<close>, \<open>)\<close>, any number
  of spaces, \<open>[\<close>, a date of one or more characters without a line break, and \<open>]\<close> at
  the end of the line.
\<close>

definition name_line :: "string \<Rightarrow> bool" where
  "name_line l =
     (\<exists>nm ws d. l = ''('' @ nm @ '')'' @ ws @ ''['' @ d @ '']'' \<and>
        nm \<noteq> [] \<and> CHR '')'' \<notin> set nm \<and> list_all is_space ws \<and>
        d \<noteq> [] \<and> \<not> list_ex is_line_terminator d)"

subsection \<open>The second line as the specification words it\<close>

text \<open>
  "A URL ending in one of \<open>jpg|jpeg|png|webp|gif|mp3\<close> (optionally followed by
  query/fragment), given either as a bare URL or wrapped in image markdown syntax
  \<open>![alt](url)\<close>." These two definitions follow that sentence, for comparison with
  \<open>urlOfLine\<close>; nothing of the scripts is translated here.
\<close>

definition spec_media_url :: "string \<Rightarrow> bool" where
  "spec_media_url u =
     ((starts_with_ci ''http://'' u \<or> starts_with_ci ''https://'' u) \<and>
      \<not> list_ex is_space u \<and>
      list_ex (\<lambda>ext. endsWith (toLowerCase (takeWhile (\<lambda>c. c \<noteq> CHR ''?'' \<and> c \<noteq> CHR ''#'') u))
                       (CHR ''.'' # ext))
        known_exts)"

definition spec_secondLine :: "string \<Rightarrow> string option" where
  "spec_secondLine l =
     (if spec_media_url l then Some l
      else if take 2 l = ''!['' \<and> endsWith l '')'' then
        (let r = dropWhile (\<lambda>c. c \<noteq> CHR '']'') (drop 2 l) in
         if take 2 r = ''](''  \<and> spec_media_url (butlast (drop 2 r))
         then Some (butlast (drop 2 r)) else None)
      else None)"


section \<open>Sample inputs\<close>

text \<open>Concrete pages, records and states at which the theorems below are instantiated.\<close>

definition pf0 :: platform where
  "pf0 = \<lparr>toISOString = (\<lambda>t. ''2024-01-01T00:00:00.000Z''),
           toLocaleString = (\<lambda>t. ''1/1/2024, 12:00:00 AM'')\<rparr>"

definition page0 :: string where
  \<open>page0 = ''<div id="submissions">old</div>''\<close>

definition w0 :: world where
  "w0 = \<lparr>clock = 200000, cooldown_file = None, submissions_file = None,
          pages = [''images.html'' \<mapsto> page0], dirs = {}, log_files = Map.empty,
          failed_files = Map.empty, processed_files = Map.empty, trace = []\<rparr>"

definition r_png :: submission where
  "r_png = \<lparr>username = Some ''alice'', name = Some ''alice'',
             file_url = Some ''https://example.com/cat.png'', url = None, type = None,
             description = Some ''a cat'', date = Some ''2024-01-01''\<rparr>"

definition r_bmp :: submission where
  "r_bmp = \<lparr>username = Some ''bob'', name = Some ''bob'',
             file_url = Some ''https://example.com/old.bmp'', url = None, type = None,
             description = Some ''a bitmap'', date = Some ''2024-01-02''\<rparr>"

definition r_gif :: submission where
  "r_gif = \<lparr>username = Some ''carol'', name = Some ''carol'',
             file_url = Some ''https://example.com/cat.gif'', url = None, type = None,
             description = Some ''funny cat'', date = Some ''2024-01-03''\<rparr>"

definition r_mp3 :: submission where
  "r_mp3 = \<lparr>username = Some ''dave'', name = Some ''dave'',
             file_url = Some ''https://example.com/a.mp3?v=1'', url = None, type = None,
             description = Some ''a song'', date = Some ''2024-01-04''\<rparr>"

text \<open>Seven records wait, no cooldown file exists, and only the images page is there.\<close>

definition w_q :: world where
  "w_q = w0\<lparr>submissions_file :=
              Some (JsonArray [r_png, r_bmp, r_gif, r_mp3, r_png, r_bmp, r_gif])\<rparr>"

text \<open>The cooldown was written at 200000 and the clock shows 300000.\<close>

definition w_cool :: world where
  "w_cool = w_q\<lparr>clock := 300000, cooldown_file := Some ''200000''\<rparr>"

text \<open>The queue file holds the empty array.\<close>

definition w_empty :: world where
  "w_empty = w0\<lparr>submissions_file := Some (JsonArray [])\<rparr>"

text \<open>The example input of the specification.\<close>

definition env_gif :: process_env where
  "env_gif = \<lparr>env_USERNAME = Some ''alice'',
              env_ISSUE_BODY = Some (''(alice) [2024-01-01]'' @ [NL]
                 @ ''https://example.com/cat.gif'' @ [NL] @ ''funny cat''),
              env_FILE_URL = None, env_DESCRIPTION = None\<rparr>"

text \<open>The queue file holds a JSON value that is not an array.\<close>

definition w_other :: world where
  "w_other = w0\<lparr>submissions_file := Some JsonOther\<rparr>"

text \<open>An input whose first line lacks the parentheses.\<close>

definition env_bad :: process_env where
  "env_bad = \<lparr>env_USERNAME = Some ''alice'',
              env_ISSUE_BODY = Some (''alice [2024-01-01]'' @ [NL]
                 @ ''https://example.com/cat.gif''),
              env_FILE_URL = None, env_DESCRIPTION = None\<rparr>"

text \<open>A page without the marker, and a state in which it is the images page.\<close>

definition page_plain :: string where
  "page_plain = ''<body></body>''"

definition w_plain :: world where
  "w_plain = w_q\<lparr>pages := [''images.html'' \<mapsto> page_plain]\<rparr>"

text \<open>A bitmap whose query string ends in \<open>.png\<close>.\<close>

definition r_bmp_png :: submission where
  "r_bmp_png = \<lparr>username = Some ''bob'', name = Some ''bob'',
             file_url = Some ''https://example.com/old.bmp?ref=b.png'', url = None, type = None,
             description = Some ''a bitmap'', date = Some ''2024-01-02''\<rparr>"

text \<open>An input whose second line is a URL that ends in \<open>.pngx\<close>.\<close>

definition env_pngx :: process_env where
  "env_pngx = \<lparr>env_USERNAME = Some ''alice'',
               env_ISSUE_BODY = Some (''(alice) [2024-01-01]'' @ [NL] @ ''http://a/b.pngx''),
               env_FILE_URL = None, env_DESCRIPTION = None\<rparr>"

text \<open>An input whose second line holds no URL.\<close>

definition env_text :: process_env where
  "env_text = \<lparr>env_USERNAME = Some ''alice'',
              env_ISSUE_BODY = Some (''(alice) [2024-01-01]'' @ [NL] @ ''see the attachment''),
              env_FILE_URL = None, env_DESCRIPTION = None\<rparr>"

text \<open>The example input of the specification, sent under a user name with a \<open>/\<close>.\<close>

definition env_slash :: process_env where
  "env_slash = \<lparr>env_USERNAME = Some ''a/b'',
              env_ISSUE_BODY = Some (''(alice) [2024-01-01]'' @ [NL]
                 @ ''https://example.com/cat.gif'' @ [NL] @ ''funny cat''),
              env_FILE_URL = None, env_DESCRIPTION = None\<rparr>"

text \<open>The input that makes the record \<open>r_bmp_png\<close>.\<close>

definition env_bmp_png :: process_env where
  "env_bmp_png = \<lparr>env_USERNAME = Some ''bob'',
               env_ISSUE_BODY = Some (''(bob) [2024-01-02]'' @ [NL]
                  @ ''https://example.com/old.bmp?ref=b.png'' @ [NL] @ ''a bitmap''),
               env_FILE_URL = None, env_DESCRIPTION = None\<rparr>"

text \<open>
  A record whose URL has the extension \<open>constructor\<close>, the input that makes it, and a queue
  that holds it between two others.
\<close>

definition r_ctor :: submission where
  "r_ctor = \<lparr>username = Some ''eve'', name = Some ''eve'',
             file_url = Some ''http://x/a.constructor?y=.png'', url = None, type = None,
             description = Some ''a picture'', date = Some ''2024-01-05''\<rparr>"

definition env_ctor :: process_env where
  "env_ctor = \<lparr>env_USERNAME = Some ''eve'',
               env_ISSUE_BODY = Some (''(eve) [2024-01-05]'' @ [NL]
                  @ ''http://x/a.constructor?y=.png'' @ [NL] @ ''a picture''),
               env_FILE_URL = None, env_DESCRIPTION = None\<rparr>"

definition w_ctor :: world where
  "w_ctor = w0\<lparr>submissions_file := Some (JsonArray [r_png, r_ctor, r_gif])\<rparr>"

text \<open>A page without the marker that has a \<open>div\<close> with id \<open>content\<close>.\<close>

definition page_content :: string where
  \<open>page_content = ''<div id="content">x</div>''\<close>

definition w_content :: world where
  "w_content = w_q\<lparr>pages := [''images.html'' \<mapsto> page_content]\<rparr>"


section \<open>Insertion keeps the marker and puts the newest fragment on top\<close>

text \<open>A character that is no letter of the case table is the lower case of itself only.\<close>

lemma lower_char_fixed:
  assumes "d \<notin> fst ` set case_pairs" and "d \<notin> snd ` set case_pairs"
  shows "lower_char c = d \<longleftrightarrow> c = d"
proof (cases "map_of case_pairs c")
  case None
  then show ?thesis by (simp add: lower_char_def)
next
  case (Some d')
  then have m: "(c, d') \<in> set case_pairs" by (rule map_of_SomeD)
  then have "d' \<in> snd ` set case_pairs" and "c \<in> fst ` set case_pairs" by force+
  with assms have "d' \<noteq> d" and "c \<noteq> d" by blast+
  with Some show ?thesis by (simp add: lower_char_def)
qed


lemma lower_char_dot: "lower_char c = CHR ''.'' \<longleftrightarrow> c = CHR ''.''"
  by (rule lower_char_fixed) (simp_all add: case_pairs_def)







lemma pages_emit [simp]: "pages (emit e w) = pages w"
  by (simp add: emit_def)





lemma find_div_page0: "find_div ''submissions'' page0 = Some (0, 22)"
  by code_simp




section \<open>The three outcomes of a run\<close>

lemma readCooldown_snd:
  "snd (readCooldown w) = w\<lparr>trace := trace w @ ExistsSync COOLDOWN_FILE #
      (case cooldown_file w of None \<Rightarrow> [] | Some t \<Rightarrow> [ReadFile COOLDOWN_FILE])\<rparr>"
  by (simp add: readCooldown_def emit_def Let_def split: option.splits)

lemma main_with_skip:
  assumes "cooldownActive w"
  shows "main_with body w =
    (Skipped, w\<lparr>trace := trace w @ ExistsSync COOLDOWN_FILE #
      (case cooldown_file w of None \<Rightarrow> [] | Some t \<Rightarrow> [ReadFile COOLDOWN_FILE])
      @ [Console CooldownActive]\<rparr>)"
  using assms
  by (simp add: main_with_def cooldownActive_def Let_def split_beta readCooldown_snd emit_def)

text \<open>The state in which the queue is read: after the gate and \<open>ensureFileExists\<close>.\<close>

lemma readSubmissions_after_gate:
  "fst (readSubmissions (ensureFileExists (snd (readCooldown w)))) = queued w"
  by (simp add: readSubmissions_def ensureFileExists_def readCooldown_snd emit_def Let_def queued_def
      split: option.splits queue_file.splits)

lemma at_queue_fields:
  "clock (at_queue w) = clock w"
  "pages (at_queue w) = pages w"
  "cooldown_file (at_queue w) = cooldown_file w"
  "queued (at_queue w) = queued w"
  "take (length (trace w)) (trace (at_queue w)) = trace w"
  "\<not> list_ex touches_page (new_events w (at_queue w))"
  by (simp_all add: at_queue_def readSubmissions_def ensureFileExists_def readCooldown_snd emit_def
      Let_def queued_def new_events_def touches_page_def split: option.splits queue_file.splits)

lemma main_with_idle:
  assumes "\<not> cooldownActive w" and "queued w = []"
  shows "main_with body w =
    (Idled, emit (Console IdleComplete)
       (writeCooldown (sleep IDLE_WAIT_MS (emit (Console NoSubmissionsInQueue) (at_queue w)))))"
  using assms readSubmissions_after_gate[of w]
  by (simp add: main_with_def cooldownActive_def Let_def split_beta at_queue_def)

lemma main_with_batch:
  assumes "\<not> cooldownActive w" and "queued w \<noteq> []"
  shows "main_with body w =
    (case fst (forEach body (take MAX_PER_RUN (queued w)) (batch_start w)) of
       Some e \<Rightarrow>
         (Crashed, emit (Console UnhandledError)
                     (snd (forEach body (take MAX_PER_RUN (queued w)) (batch_start w))))
     | None \<Rightarrow>
         (Processed, batch_finish (drop MAX_PER_RUN (queued w))
                       (snd (forEach body (take MAX_PER_RUN (queued w)) (batch_start w)))))"
proof -
  have b: "batch_start w = emit (Console (WillProcess (length (take MAX_PER_RUN (queued w)))))
             (snd (readSubmissions (ensureFileExists (snd (readCooldown w)))))"
    by (simp add: batch_start_def at_queue_def)
  show ?thesis
    unfolding b using assms readSubmissions_after_gate[of w]
    by (simp add: main_with_def cooldownActive_def Let_def split_beta batch_finish_def
        split: option.splits)
qed


subsection \<open>The loop\<close>

lemma forEach_preserves:
  assumes "\<And>x w. g (snd (f x w)) = g w"
  shows "g (snd (forEach f xs w)) = g w"
proof (induction xs arbitrary: w)
  case Nil
  show ?case by simp
next
  case (Cons x xs)
  obtain r w' where fx: "f x w = (r, w')" by (cases "f x w")
  with assms[of x w] have g: "g w' = g w" by simp
  show ?case
  proof (cases r)
    case None
    with fx Cons.IH[of w'] g show ?thesis by simp
  next
    case (Some e)
    with fx g show ?thesis by simp
  qed
qed

lemma forEach_no_error:
  assumes "\<And>x w. fst (f x w) = (if bad x then Some TypeError else None)"
  shows "fst (forEach f xs w) = None \<longleftrightarrow> \<not> list_ex bad xs"
proof (induction xs arbitrary: w)
  case Nil
  show ?case by simp
next
  case (Cons x xs)
  obtain r w' where fx: "f x w = (r, w')" by (cases "f x w")
  with assms[of x w] have r: "r = (if bad x then Some TypeError else None)" by simp
  show ?case using fx r Cons.IH[of w'] by (cases "bad x") simp_all
qed

lemma forEach_verdicts:
  assumes step: "\<And>x w. \<exists>evs. trace (snd (f x w)) = trace w @ evs \<and>
            map routed (filter is_verdict evs) = (if fst (f x w) = None then [d x] else [])"
    and ok: "fst (forEach f xs w) = None"
  shows "\<exists>evs. trace (snd (forEach f xs w)) = trace w @ evs \<and>
            map routed (filter is_verdict evs) = map d xs"
  using ok
proof (induction xs arbitrary: w)
  case Nil
  show ?case by simp
next
  case (Cons x xs)
  obtain r w' where fx: "f x w = (r, w')" by (cases "f x w")
  from Cons.prems fx have r: "r = None" by (cases r) auto
  from step[of x w] fx r obtain e1 where e1: "trace w' = trace w @ e1"
    "map routed (filter is_verdict e1) = [d x]" by auto
  from Cons.prems fx r have "fst (forEach f xs w') = None" by simp
  from Cons.IH[OF this] obtain e2 where e2: "trace (snd (forEach f xs w')) = trace w' @ e2"
    "map routed (filter is_verdict e2) = map d xs" by auto
  have "trace (snd (forEach f (x # xs) w)) = trace w @ (e1 @ e2)"
    using fx r e1 e2 by simp
  moreover have "map routed (filter is_verdict (e1 @ e2)) = map d (x # xs)"
    using e1 e2 by simp
  ultimately show ?case by blast
qed

lemma insert_570_quiet:
  "\<exists>evs. trace (snd (insertIntoHtmlAtTop_570 p s w)) = trace w @ evs \<and> filter is_verdict evs = []"
  by (simp add: insertIntoHtmlAtTop_570_def Let_def emit_def writePage_def is_verdict_def
      split: option.splits prod.splits)

lemma insert_85_quiet:
  "\<exists>evs. trace (snd (insertIntoHtmlAtTop_85 p s w)) = trace w @ evs \<and> filter is_verdict evs = []"
  by (simp add: insertIntoHtmlAtTop_85_def Let_def emit_def writePage_def is_verdict_def
      split: option.splits prod.splits)

lemma insert_570_frame:
  "clock (snd (insertIntoHtmlAtTop_570 p s w)) = clock w"
  "cooldown_file (snd (insertIntoHtmlAtTop_570 p s w)) = cooldown_file w"
  "submissions_file (snd (insertIntoHtmlAtTop_570 p s w)) = submissions_file w"
  by (simp_all add: insertIntoHtmlAtTop_570_def Let_def emit_def writePage_def
      split: option.splits prod.splits)

lemma insert_85_frame:
  "clock (snd (insertIntoHtmlAtTop_85 p s w)) = clock w"
  "cooldown_file (snd (insertIntoHtmlAtTop_85 p s w)) = cooldown_file w"
  "submissions_file (snd (insertIntoHtmlAtTop_85 p s w)) = submissions_file w"
  by (simp_all add: insertIntoHtmlAtTop_85_def Let_def emit_def writePage_def
      split: option.splits prod.splits)

lemma body_621_error:
  "fst (body_621 pf sub w) =
     (if decideTarget_623 sub (fileUrlOf sub) = Some Inherited then Some TypeError else None)"
  by (simp add: body_621_def Let_def split_beta split: option.splits target.splits)

lemma body_621_frame:
  "clock (snd (body_621 pf sub w)) = clock w"
  "cooldown_file (snd (body_621 pf sub w)) = cooldown_file w"
  "submissions_file (snd (body_621 pf sub w)) = submissions_file w"
  by (simp_all add: body_621_def Let_def split_beta emit_def insert_570_frame
      split: option.splits target.splits)

lemma body_621_verdict:
  "\<exists>evs. trace (snd (body_621 pf sub w)) = trace w @ evs \<and>
     map routed (filter is_verdict evs) =
       (if fst (body_621 pf sub w) = None then [decideTarget_623 sub (fileUrlOf sub)] else [])"
proof (cases "decideTarget_623 sub (fileUrlOf sub)")
  case None
  then show ?thesis
    by (simp add: body_621_def Let_def emit_def is_verdict_def routed_def)
next
  case (Some t)
  show ?thesis
  proof (cases t)
    case Inherited
    with Some show ?thesis by (simp add: body_621_def Let_def)
  next
    case (Html page)
    from insert_570_quiet[of page "buildHtmlSnippet_538 pf w sub" w] obtain evs where
      "trace (snd (insertIntoHtmlAtTop_570 page (buildHtmlSnippet_538 pf w sub) w)) = trace w @ evs"
      "filter is_verdict evs = []" by blast
    with Some Html show ?thesis
      by (simp add: body_621_def Let_def split_beta emit_def is_verdict_def routed_def)
  qed
qed


lemma ensureDir_quiet:
  "\<exists>evs. trace (ensureDir d w) = trace w @ evs \<and> filter is_verdict evs = []"
  by (simp add: ensureDir_def Let_def emit_def is_verdict_def)

lemma ensureDir_frame:
  "clock (ensureDir d w) = clock w"
  "cooldown_file (ensureDir d w) = cooldown_file w"
  "submissions_file (ensureDir d w) = submissions_file w"
  "pages (ensureDir d w) = pages w"
  by (simp_all add: ensureDir_def Let_def emit_def)

lemma writeDebug_frame:
  "clock (writeDebug c dbg w) = clock w"
  "cooldown_file (writeDebug c dbg w) = cooldown_file w"
  "submissions_file (writeDebug c dbg w) = submissions_file w"
  "pages (writeDebug c dbg w) = pages w"
  by (simp_all add: writeDebug_def Let_def emit_def ensureDir_frame)

lemma writeDebug_quiet:
  assumes "c = CouldNotWriteDebug \<or> c = CouldNotWriteProcessedDebug"
  shows "\<exists>evs. trace (writeDebug c dbg w) = trace w @ evs \<and> filter is_verdict evs = []"
proof -
  from ensureDir_quiet[of LOG_DIR w] obtain e1 where
    e1: "trace (ensureDir LOG_DIR w) = trace w @ e1" "filter is_verdict e1 = []" by blast
  from ensureDir_quiet[of PROCESSED_DIR "ensureDir LOG_DIR w"] obtain e2 where
    e2: "trace (ensureDir PROCESSED_DIR (ensureDir LOG_DIR w)) = trace (ensureDir LOG_DIR w) @ e2"
      "filter is_verdict e2 = []" by blast
  show ?thesis
    using e1 e2 assms by (auto simp add: writeDebug_def Let_def emit_def is_verdict_def)
qed

lemma body_147_error:
  "fst (body_147 pf sub w) =
     (if decideTarget_163 (fileUrlOf sub) = Some Inherited then Some TypeError else None)"
  by (simp add: body_147_def Let_def split_beta split: option.splits target.splits)

lemma body_147_frame:
  "clock (snd (body_147 pf sub w)) = clock w"
  "cooldown_file (snd (body_147 pf sub w)) = cooldown_file w"
  "submissions_file (snd (body_147 pf sub w)) = submissions_file w"
  by (simp_all add: body_147_def Let_def split_beta emit_def insert_85_frame writeDebug_frame
      split: option.splits target.splits)

lemma body_147_verdict:
  "\<exists>evs. trace (snd (body_147 pf sub w)) = trace w @ evs \<and>
     map routed (filter is_verdict evs) =
       (if fst (body_147 pf sub w) = None then [decideTarget_163 (fileUrlOf sub)] else [])"
proof (cases "decideTarget_163 (fileUrlOf sub)")
  case None
  let ?d = "\<lparr>d_username = or_else (username sub) ''unknown'',
                 d_name = (if truthy (name sub) then name sub
                           else if truthy (username sub) then username sub else None),
                 d_fileUrl = fileUrlOf sub, decidedTarget = None, targetPath = None,
                 targetExists = False, inserted = False, snippetPreview = None,
                 timestamp = toISOString pf (clock w)\<rparr>"
  let ?w1 = "emit (Console (CouldNotDetermineTarget (fileUrlOf sub))) w"
  from writeDebug_quiet[of CouldNotWriteDebug ?d ?w1] obtain evs where
    "trace (writeDebug CouldNotWriteDebug ?d ?w1) = trace ?w1 @ evs" "filter is_verdict evs = []"
    by blast
  with None show ?thesis
    by (simp add: body_147_def Let_def emit_def is_verdict_def routed_def)
next
  case (Some t)
  show ?thesis
  proof (cases t)
    case Inherited
    with Some show ?thesis by (simp add: body_147_def Let_def)
  next
    case (Html page)
    let ?w1 = "emit (ExistsSync (HtmlFile page)) w"
    obtain ok w2 where ins: "insertIntoHtmlAtTop_85 page (buildHtmlSnippet_67 sub) ?w1 = (ok, w2)"
      by (cases "insertIntoHtmlAtTop_85 page (buildHtmlSnippet_67 sub) ?w1")
    from insert_85_quiet[of page "buildHtmlSnippet_67 sub" ?w1] ins obtain e1 where
      e1: "trace w2 = trace ?w1 @ e1" "filter is_verdict e1 = []" by auto
    let ?w3 = "emit (Console (InsertedInto ok page)) w2"
    have "\<exists>dbg. body_147 pf sub w = (None, writeDebug CouldNotWriteProcessedDebug dbg ?w3)"
      using Some Html ins by (simp add: body_147_def Let_def) blast
    then obtain dbg where
      b: "body_147 pf sub w = (None, writeDebug CouldNotWriteProcessedDebug dbg ?w3)" by blast
    from writeDebug_quiet[of CouldNotWriteProcessedDebug dbg ?w3] obtain e2 where
      e2: "trace (writeDebug CouldNotWriteProcessedDebug dbg ?w3) = trace ?w3 @ e2"
        "filter is_verdict e2 = []" by blast
    have t: "trace (snd (body_147 pf sub w))
             = trace w @ ([ExistsSync (HtmlFile page)] @ e1 @ [Console (InsertedInto ok page)] @ e2)"
      using b e1 e2 by (simp add: emit_def)
    have v: "map routed (filter is_verdict
               ([ExistsSync (HtmlFile page)] @ e1 @ [Console (InsertedInto ok page)] @ e2))
             = [Some (Html page)]"
      using e1(2) e2(2) by (simp add: is_verdict_def routed_def)
    show ?thesis
      using t v b Some Html by (metis fst_conv)
  qed
qed


lemma at_queue_trace:
  "\<exists>pre. trace (at_queue w) = trace w @ pre \<and> filter is_verdict pre = [] \<and>
      \<not> list_ex touches_page pre"
  by (simp add: at_queue_def readSubmissions_def ensureFileExists_def readCooldown_snd emit_def
      Let_def is_verdict_def touches_page_def split: option.splits queue_file.splits)

lemma new_events_append: "trace w' = trace w @ evs \<Longrightarrow> new_events w w' = evs"
  by (simp add: new_events_def)

lemma main_with_outcome:
  "fst (main_with body w) =
     (if cooldownActive w then Skipped
      else if queued w = [] then Idled
      else if fst (forEach body (take MAX_PER_RUN (queued w)) (batch_start w)) = None
      then Processed else Crashed)"
  using main_with_skip[of w body] main_with_idle[of w body] main_with_batch[of w body]
  by (auto split: option.splits)

lemma main_with_processed:
  assumes frame: "\<And>x w. submissions_file (snd (body x w)) = submissions_file w"
    and verd: "\<And>x w. \<exists>evs. trace (snd (body x w)) = trace w @ evs \<and>
            map routed (filter is_verdict evs) = (if fst (body x w) = None then [d x] else [])"
    and P: "fst (main_with body w) = Processed"
  shows "submissions_file (snd (main_with body w))
           = Some (JsonArray (drop MAX_PER_RUN (queued w)))"
    and "map routed (filter is_verdict (new_events w (snd (main_with body w))))
           = map d (take MAX_PER_RUN (queued w))"
    and "Console (WillProcess (min (length (queued w)) MAX_PER_RUN))
           \<in> set (new_events w (snd (main_with body w)))"
    and "queued w \<noteq> []" and "\<not> cooldownActive w"
proof -
  let ?batch = "take MAX_PER_RUN (queued w)"
  let ?w5 = "snd (forEach body ?batch (batch_start w))"
  from P main_with_outcome[of body w] have c: "\<not> cooldownActive w" and q: "queued w \<noteq> []"
    and ok: "fst (forEach body ?batch (batch_start w)) = None"
    by (auto split: if_splits)
  from main_with_batch[OF c q, of body] ok
  have m: "snd (main_with body w) = batch_finish (drop MAX_PER_RUN (queued w)) ?w5" by simp
  show "submissions_file (snd (main_with body w))
           = Some (JsonArray (drop MAX_PER_RUN (queued w)))"
    by (simp add: m batch_finish_def emit_def writeCooldown_def writeSubmissions_def)
  from at_queue_trace[of w] obtain pre where pre: "trace (at_queue w) = trace w @ pre"
    "filter is_verdict pre = []" by blast
  from forEach_verdicts[of body d ?batch "batch_start w", OF verd ok] obtain evs where
    evs: "trace ?w5 = trace (batch_start w) @ evs"
    "map routed (filter is_verdict evs) = map d ?batch" by blast
  let ?all = "pre @ [Console (WillProcess (length ?batch))] @ evs
              @ [WriteFile SUBMISSIONS_FILE,
                 Console (SavedUpdated (length (drop MAX_PER_RUN (queued w)))),
                 WriteFile COOLDOWN_FILE, Console CooldownWritten]"
  have t: "trace (snd (main_with body w)) = trace w @ ?all"
    using pre(1) evs(1)
    by (simp add: m batch_finish_def emit_def writeCooldown_def writeSubmissions_def
        batch_start_def)
  have ne: "new_events w (snd (main_with body w)) = ?all"
    by (rule new_events_append[OF t])
  show "map routed (filter is_verdict (new_events w (snd (main_with body w)))) = map d ?batch"
    using pre(2) evs(2) by (simp add: ne is_verdict_def)
  show "Console (WillProcess (min (length (queued w)) MAX_PER_RUN))
           \<in> set (new_events w (snd (main_with body w)))"
    by (simp add: ne)
  show "queued w \<noteq> []" by (rule q)
  show "\<not> cooldownActive w" by (rule c)
qed

lemma length_verdicts:
  assumes "map routed (filter is_verdict es) = map d (take MAX_PER_RUN q)"
  shows "length (filter is_verdict es) = min (length q) MAX_PER_RUN"
proof -
  have "length (filter is_verdict es) = length (map routed (filter is_verdict es))" by simp
  also have "\<dots> = length (map d (take MAX_PER_RUN q))" by (simp only: assms)
  finally show ?thesis by simp
qed

text \<open>
  A run that ends in the Process outcome started with the cooldown expired and a queue of
  \<open>k > 0\<close> records. It logs "Will process \<open>min k MAX_PER_RUN\<close>", the loop logs one line for
  each of exactly \<open>min k MAX_PER_RUN\<close> records, and these lines name, in queue order, the
  targets decided for the first \<open>min k MAX_PER_RUN\<close> records of the queue. The queue written
  back is the old one without its first \<open>MAX_PER_RUN\<close> records, in unchanged order; it is
  empty when \<open>k \<le> MAX_PER_RUN\<close>. This holds for both listings of \<open>main\<close>.
\<close>

lemma completed_run:
  "(fst (main_590 pf w) = Processed \<longrightarrow>
      queued w \<noteq> [] \<and> \<not> cooldownActive w \<and>
      length (filter is_verdict (new_events w (snd (main_590 pf w))))
        = min (length (queued w)) MAX_PER_RUN \<and>
      map routed (filter is_verdict (new_events w (snd (main_590 pf w))))
        = map (\<lambda>sub. decideTarget_623 sub (fileUrlOf sub)) (take MAX_PER_RUN (queued w)) \<and>
      Console (WillProcess (min (length (queued w)) MAX_PER_RUN))
        \<in> set (new_events w (snd (main_590 pf w))) \<and>
      submissions_file (snd (main_590 pf w)) = Some (JsonArray (drop MAX_PER_RUN (queued w))) \<and>
      (length (queued w) \<le> MAX_PER_RUN \<longrightarrow>
         submissions_file (snd (main_590 pf w)) = Some (JsonArray []))) \<and>
   (fst (main_117 pf w) = Processed \<longrightarrow>
      queued w \<noteq> [] \<and> \<not> cooldownActive w \<and>
      length (filter is_verdict (new_events w (snd (main_117 pf w))))
        = min (length (queued w)) MAX_PER_RUN \<and>
      map routed (filter is_verdict (new_events w (snd (main_117 pf w))))
        = map (\<lambda>sub. decideTarget_163 (fileUrlOf sub)) (take MAX_PER_RUN (queued w)) \<and>
      Console (WillProcess (min (length (queued w)) MAX_PER_RUN))
        \<in> set (new_events w (snd (main_117 pf w))) \<and>
      submissions_file (snd (main_117 pf w)) = Some (JsonArray (drop MAX_PER_RUN (queued w))) \<and>
      (length (queued w) \<le> MAX_PER_RUN \<longrightarrow>
         submissions_file (snd (main_117 pf w)) = Some (JsonArray [])))"
proof (intro conjI impI)
  assume P: "fst (main_590 pf w) = Processed"
  note r = main_with_processed[of "body_621 pf" "\<lambda>sub. decideTarget_623 sub (fileUrlOf sub)" w,
      OF body_621_frame(3) body_621_verdict P[unfolded main_590_def], folded main_590_def]
  show "queued w \<noteq> []" by (rule r(4))
  show "\<not> cooldownActive w" by (rule r(5))
  show "length (filter is_verdict (new_events w (snd (main_590 pf w))))
        = min (length (queued w)) MAX_PER_RUN" by (rule length_verdicts[OF r(2)])
  show "map routed (filter is_verdict (new_events w (snd (main_590 pf w))))
        = map (\<lambda>sub. decideTarget_623 sub (fileUrlOf sub)) (take MAX_PER_RUN (queued w))"
    by (rule r(2))
  show "Console (WillProcess (min (length (queued w)) MAX_PER_RUN))
        \<in> set (new_events w (snd (main_590 pf w)))" by (rule r(3))
  show s: "submissions_file (snd (main_590 pf w)) = Some (JsonArray (drop MAX_PER_RUN (queued w)))"
    by (rule r(1))
  show "submissions_file (snd (main_590 pf w)) = Some (JsonArray [])"
    if "length (queued w) \<le> MAX_PER_RUN" using that s by simp
next
  assume P: "fst (main_117 pf w) = Processed"
  note r = main_with_processed[of "body_147 pf" "\<lambda>sub. decideTarget_163 (fileUrlOf sub)" w,
      OF body_147_frame(3) body_147_verdict P[unfolded main_117_def], folded main_117_def]
  show "queued w \<noteq> []" by (rule r(4))
  show "\<not> cooldownActive w" by (rule r(5))
  show "length (filter is_verdict (new_events w (snd (main_117 pf w))))
        = min (length (queued w)) MAX_PER_RUN" by (rule length_verdicts[OF r(2)])
  show "map routed (filter is_verdict (new_events w (snd (main_117 pf w))))
        = map (\<lambda>sub. decideTarget_163 (fileUrlOf sub)) (take MAX_PER_RUN (queued w))"
    by (rule r(2))
  show "Console (WillProcess (min (length (queued w)) MAX_PER_RUN))
        \<in> set (new_events w (snd (main_117 pf w)))" by (rule r(3))
  show s: "submissions_file (snd (main_117 pf w)) = Some (JsonArray (drop MAX_PER_RUN (queued w)))"
    by (rule r(1))
  show "submissions_file (snd (main_117 pf w)) = Some (JsonArray [])"
    if "length (queued w) \<le> MAX_PER_RUN" using that s by simp
qed

lemma main_590_outcome:
  "fst (main_590 pf w) =
     (if cooldownActive w then Skipped
      else if queued w = [] then Idled
      else if list_ex (\<lambda>sub. decideTarget_623 sub (fileUrlOf sub) = Some Inherited)
                (take MAX_PER_RUN (queued w))
      then Crashed else Processed)"
  using forEach_no_error[of "body_621 pf"
      "\<lambda>sub. decideTarget_623 sub (fileUrlOf sub) = Some Inherited"
      "take MAX_PER_RUN (queued w)" "batch_start w", OF body_621_error]
  by (simp add: main_590_def main_with_outcome)

lemma main_117_outcome:
  "fst (main_117 pf w) =
     (if cooldownActive w then Skipped
      else if queued w = [] then Idled
      else if list_ex (\<lambda>sub. decideTarget_163 (fileUrlOf sub) = Some Inherited)
                (take MAX_PER_RUN (queued w))
      then Crashed else Processed)"
  using forEach_no_error[of "body_147 pf"
      "\<lambda>sub. decideTarget_163 (fileUrlOf sub) = Some Inherited"
      "take MAX_PER_RUN (queued w)" "batch_start w", OF body_147_error]
  by (simp add: main_117_def main_with_outcome)

lemma sample_targets:
  "decideTarget_623 r_png (fileUrlOf r_png) = Some (Html ''images.html'')"
  "decideTarget_623 r_bmp (fileUrlOf r_bmp) = None"
  "decideTarget_623 r_gif (fileUrlOf r_gif) = Some (Html ''gifs.html'')"
  "decideTarget_623 r_mp3 (fileUrlOf r_mp3) = Some (Html ''audio.html'')"
  "decideTarget_163 (fileUrlOf r_png) = Some (Html ''images.html'')"
  "decideTarget_163 (fileUrlOf r_bmp) = None"
  "decideTarget_163 (fileUrlOf r_gif) = Some (Html ''gifs.html'')"
  "decideTarget_163 (fileUrlOf r_mp3) = Some (Html ''audio.html'')"
  by code_simp+

lemma w_q_not_active: "\<not> cooldownActive w_q"
  by (simp add: cooldownActive_def readCooldown_def w_q_def w0_def emit_def COOLDOWN_MS_def)

lemma queued_w_q: "queued w_q = [r_png, r_bmp, r_gif, r_mp3, r_png, r_bmp, r_gif]"
  by (simp add: queued_def w_q_def)

lemma completed_run_w_q:
  "fst (main_590 pf0 w_q) = Processed \<and>
   length (filter is_verdict (new_events w_q (snd (main_590 pf0 w_q)))) = 5 \<and>
   submissions_file (snd (main_590 pf0 w_q)) = Some (JsonArray [r_bmp, r_gif]) \<and>
   fst (main_117 pf0 w_q) = Processed \<and>
   length (filter is_verdict (new_events w_q (snd (main_117 pf0 w_q)))) = 5 \<and>
   submissions_file (snd (main_117 pf0 w_q)) = Some (JsonArray [r_bmp, r_gif])"
proof -
  have a: "fst (main_590 pf0 w_q) = Processed"
    by (simp add: main_590_outcome w_q_not_active queued_w_q MAX_PER_RUN_def sample_targets)
  have b: "fst (main_117 pf0 w_q) = Processed"
    by (simp add: main_117_outcome w_q_not_active queued_w_q MAX_PER_RUN_def sample_targets)
  show ?thesis
    using completed_run[of pf0 w_q] a b by (simp add: queued_w_q MAX_PER_RUN_def)
qed

section \<open>Skip and Idle\<close>

lemma parseInt_200000: "parseInt (trim ''200000'') = Some 200000"
  by (simp add: parseInt_def trim_def is_space_def is_digit_def digits_val_def digit_val_def)

lemma w_cool_active: "cooldownActive w_cool"
  by (simp add: cooldownActive_def readCooldown_def w_cool_def Let_def parseInt_200000
      COOLDOWN_MS_def)

lemma idle_result:
  assumes "\<not> cooldownActive w" and "queued w = []"
  shows "fst (main_with body w) = Idled"
    and "pages (snd (main_with body w)) = pages w"
    and "clock (snd (main_with body w)) = clock w + IDLE_WAIT_MS"
    and "cooldown_file (snd (main_with body w)) = Some (String (clock w + IDLE_WAIT_MS))"
    and "\<not> list_ex touches_page (new_events w (snd (main_with body w)))"
    and "queued (snd (main_with body w)) = []"
proof -
  note m = main_with_idle[OF assms, of body]
  show "fst (main_with body w) = Idled" by (simp add: m)
  show "pages (snd (main_with body w)) = pages w"
    by (simp add: m writeCooldown_def sleep_def emit_def at_queue_fields)
  show "clock (snd (main_with body w)) = clock w + IDLE_WAIT_MS"
    by (simp add: m writeCooldown_def sleep_def emit_def at_queue_fields)
  show "cooldown_file (snd (main_with body w)) = Some (String (clock w + IDLE_WAIT_MS))"
    by (simp add: m writeCooldown_def sleep_def emit_def at_queue_fields)
  from at_queue_trace[of w] obtain pre where pre: "trace (at_queue w) = trace w @ pre"
    "\<not> list_ex touches_page pre" by blast
  have "trace (snd (main_with body w)) = trace w @ (pre @ [Console NoSubmissionsInQueue,
          Sleep IDLE_WAIT_MS, WriteFile COOLDOWN_FILE, Console IdleComplete])"
    using pre(1) by (simp add: m writeCooldown_def sleep_def emit_def)
  from new_events_append[OF this] pre(2)
  show "\<not> list_ex touches_page (new_events w (snd (main_with body w)))"
    by (simp add: touches_page_def)
  show "queued (snd (main_with body w)) = []"
    using at_queue_fields(4)[of w] assms(2)
    by (simp add: m writeCooldown_def sleep_def emit_def queued_def)
qed

text \<open>
  C9. A run that starts with the cooldown expired and an empty queue has the outcome Idle.
  It leaves every page as it was and neither checks, reads nor writes a page; it waits
  \<open>IDLE_WAIT_MS\<close> and then writes the time after the wait into the cooldown file. This
  holds for both listings of \<open>main\<close>.
\<close>

theorem C9_idle:
  assumes "\<not> cooldownActive w" and "queued w = []"
  shows "fst (main_590 pf w) = Idled \<and>
         pages (snd (main_590 pf w)) = pages w \<and>
         \<not> list_ex touches_page (new_events w (snd (main_590 pf w))) \<and>
         clock (snd (main_590 pf w)) = clock w + IDLE_WAIT_MS \<and>
         cooldown_file (snd (main_590 pf w)) = Some (String (clock (snd (main_590 pf w)))) \<and>
         fst (main_117 pf w) = Idled \<and>
         pages (snd (main_117 pf w)) = pages w \<and>
         \<not> list_ex touches_page (new_events w (snd (main_117 pf w))) \<and>
         clock (snd (main_117 pf w)) = clock w + IDLE_WAIT_MS \<and>
         cooldown_file (snd (main_117 pf w)) = Some (String (clock (snd (main_117 pf w))))"
  using idle_result[OF assms, of "body_621 pf"] idle_result[OF assms, of "body_147 pf"]
  by (simp add: main_590_def main_117_def)

lemma w_empty_not_active: "\<not> cooldownActive w_empty"
  by (simp add: cooldownActive_def readCooldown_def w_empty_def w0_def emit_def COOLDOWN_MS_def)

lemma String_320000: "String 320000 = ''320000''"
  by (simp add: String_def digits.simps)

theorem C9_idle_witness:
  "fst (main_590 pf0 w_empty) = Idled \<and>
   pages (snd (main_590 pf0 w_empty)) = pages w_empty \<and>
   cooldown_file (snd (main_590 pf0 w_empty)) = Some ''320000'' \<and>
   fst (main_117 pf0 w_empty) = Idled \<and>
   pages (snd (main_117 pf0 w_empty)) = pages w_empty \<and>
   cooldown_file (snd (main_117 pf0 w_empty)) = Some ''320000''"
proof -
  have q: "queued w_empty = []" by (simp add: queued_def w_empty_def)
  have c: "clock w_empty = 200000" by (simp add: w_empty_def w0_def)
  show ?thesis
    using C9_idle[OF w_empty_not_active q, of pf0]
    by (simp add: c IDLE_WAIT_MS_def String_320000)
qed

section \<open>Intake\<close>

lemma newSubmission_clock:
  "clock w' = clock w \<Longrightarrow> newSubmission pf env w' = newSubmission pf env w"
  by (simp add: newSubmission_def parseIssueBody_def Let_def split: option.splits prod.splits)

lemma newSubmission_username:
  assumes "newSubmission pf env w = Some sub"
  shows "username sub = Some (USERNAME env)"
  using assms
  by (auto simp add: newSubmission_def parseIssueBody_def Let_def
      split: if_splits option.splits prod.splits)

lemma at_intake_fields:
  "clock (at_intake w) = clock w"
  "pages (at_intake w) = pages w"
  "cooldown_file (at_intake w) = cooldown_file w"
  "log_files (at_intake w) = log_files w"
  "failed_files (at_intake w) = failed_files w"
  "submissions_file (at_intake w)
     = (case submissions_file w of None \<Rightarrow> Some (JsonArray []) | Some f \<Rightarrow> Some f)"
  "queued (at_intake w) = queued w"
  by (simp_all add: at_intake_def readSubmissions_302_def ensureFileExists_def ensureDir_def
      emit_def Let_def queued_def split: option.splits queue_file.splits)

lemma readSubmissions_302_queued:
  "fst (readSubmissions_302 (ensureFileExists (ensureDir FAILED_DIR (ensureDir LOG_DIR w))))
     = queued w"
  by (simp add: readSubmissions_302_def ensureFileExists_def ensureDir_def
      emit_def Let_def queued_def split: option.splits queue_file.splits)

lemma logFileName_clock: "clock w' = clock w \<Longrightarrow> logFileName pf w' u = logFileName pf w u"
  by (simp add: logFileName_def)

text \<open>The timestamp of a file name has no \<open>/\<close> unless \<open>toISOString\<close> gives one.\<close>

lemma logFileName_slash:
  "CHR ''/'' \<in> set (logFileName pf w u)
     \<longleftrightarrow> CHR ''/'' \<in> set (toISOString pf (clock w)) \<or> CHR ''/'' \<in> set u"
  by (auto simp add: logFileName_def replace_all_def split: if_splits)

text \<open>The four ways through \<open>main\<close>.\<close>

lemma queue_submission_rejected:
  assumes "newSubmission pf env w = None"
    and "CHR ''/'' \<notin> set (logFileName pf w (USERNAME env))"
  shows "queue_submission pf env w =
     (Rejected,
      emit (Console SubmissionFailed)
        (emit (Console (FailedLogged (logFileName pf w (USERNAME env))))
           (emit (WriteFile (FailedFile (logFileName pf w (USERNAME env))))
              ((at_intake w)\<lparr>failed_files := (failed_files w)(logFileName pf w (USERNAME env) \<mapsto>
                  \<lparr>rej_username = USERNAME env, rej_body = ISSUE_BODY env\<rparr>)\<rparr>))))"
proof -
  have "newSubmission pf env (at_intake w) = None"
    using assms(1) newSubmission_clock[OF at_intake_fields(1)] by simp
  then show ?thesis
    using assms(2)
    by (simp add: queue_submission_def main_300_def Let_def split_beta at_intake_def[symmetric]
        logSubmission_failed_def logFileName_clock[OF at_intake_fields(1)] at_intake_fields)
qed

lemma queue_submission_rejected_fatal:
  assumes "newSubmission pf env w = None"
    and "CHR ''/'' \<in> set (logFileName pf w (USERNAME env))"
  shows "queue_submission pf env w = (Fatal, emit (Console FatalError) (at_intake w))"
proof -
  have "newSubmission pf env (at_intake w) = None"
    using assms(1) newSubmission_clock[OF at_intake_fields(1)] by simp
  then show ?thesis
    using assms(2)
    by (simp add: queue_submission_def main_300_def Let_def split_beta at_intake_def[symmetric]
        logSubmission_failed_def logFileName_clock[OF at_intake_fields(1)])
qed

lemma queue_submission_accepted:
  assumes "newSubmission pf env w = Some sub"
    and "CHR ''/'' \<notin> set (logFileName pf w (USERNAME env))"
  shows "queue_submission pf env w =
     (Accepted,
      emit (Console (Queued (USERNAME env) (or_else (file_url sub) [])))
        (writeSubmissions (queued w @ [sub])
           (emit (Console (Logged (logFileName pf w (USERNAME env))))
              (emit (WriteFile (LogFile (logFileName pf w (USERNAME env))))
                 ((at_intake w)\<lparr>log_files :=
                     (log_files w)(logFileName pf w (USERNAME env) \<mapsto> sub)\<rparr>)))))"
proof -
  have "newSubmission pf env (at_intake w) = Some sub"
    using assms(1) newSubmission_clock[OF at_intake_fields(1)] by simp
  then show ?thesis
    using assms(2) readSubmissions_302_queued[of w] newSubmission_username[OF assms(1)]
    by (simp add: queue_submission_def main_300_def Let_def split_beta at_intake_def[symmetric]
        logSubmission_def logFileName_clock[OF at_intake_fields(1)] at_intake_fields)
qed

lemma queue_submission_accepted_fatal:
  assumes "newSubmission pf env w = Some sub"
    and "CHR ''/'' \<in> set (logFileName pf w (USERNAME env))"
  shows "queue_submission pf env w = (Fatal, emit (Console FatalError) (at_intake w))"
proof -
  have "newSubmission pf env (at_intake w) = Some sub"
    using assms(1) newSubmission_clock[OF at_intake_fields(1)] by simp
  then show ?thesis
    using assms(2) newSubmission_username[OF assms(1)]
    by (simp add: queue_submission_def main_300_def Let_def split_beta at_intake_def[symmetric]
        logSubmission_def logFileName_clock[OF at_intake_fields(1)])
qed

lemma queued_JsonOther: "submissions_file w = Some JsonOther \<Longrightarrow> queued w = []"
  by (simp add: queued_def)

lemma env_gif_record:
  "newSubmission pf0 env_gif w_other =
     Some \<lparr>username = Some ''alice'', name = Some ''alice'',
            file_url = Some ''https://example.com/cat.gif'', url = None, type = None,
            description = Some ''funny cat'', date = Some ''2024-01-01''\<rparr>"
  by code_simp

lemma parseIssueBody_None_iff:
  "parseIssueBody pf env w b = None \<longleftrightarrow>
     length (nonEmptyLines b) < 2 \<or> match_name_line (nonEmptyLines b ! 0) = None
       \<or> urlOfLine (nonEmptyLines b ! 1) = None"
proof (cases "length (nonEmptyLines b) < 2")
  case True
  then show ?thesis by (simp add: parseIssueBody_def Let_def)
next
  case False
  show ?thesis
  proof (cases "match_name_line (nonEmptyLines b ! 0)")
    case None
    with False show ?thesis by (simp add: parseIssueBody_def Let_def)
  next
    case (Some g)
    obtain g1 g2 where g: "g = (g1, g2)" by (cases g)
    show ?thesis
    proof (cases "urlOfLine (nonEmptyLines b ! 1)")
      case None
      with False Some g show ?thesis by (simp add: parseIssueBody_def Let_def)
    next
      case (Some u)
      with False \<open>match_name_line (nonEmptyLines b ! 0) = Some g\<close> g show ?thesis
        by (simp add: parseIssueBody_def Let_def)
    qed
  qed
qed

section \<open>Failed insertions\<close>

lemma insert_85_at:
  assumes "pages w p = Some html" and "insertPos_85 html = Some k"
  shows "fst (insertIntoHtmlAtTop_85 p s w) = True"
    and "pages (snd (insertIntoHtmlAtTop_85 p s w)) = (pages w)(p \<mapsto> splice_at k s html)"
  using assms by (simp_all add: insertIntoHtmlAtTop_85_def Let_def writePage_def)

lemma page_plain_facts:
  "find_div ''submissions'' page_plain = None"
  "insertPos_85 page_plain = Some 6"
  by code_simp+

text \<open>
  C2, as stated, fails for \<open>insertIntoHtmlAtTop\<close> of lines 85-115: a page that lacks the
  marker but has a closing \<open>body\<close> tag receives the fragment in front of that tag.
\<close>

theorem C2_counterexample:
  "find_div ''submissions'' page_plain = None \<and>
   pages w_plain ''images.html'' = Some page_plain \<and>
   fst (insertIntoHtmlAtTop_85 ''images.html'' ''X'' w_plain) = True \<and>
   pages (snd (insertIntoHtmlAtTop_85 ''images.html'' ''X'' w_plain)) ''images.html''
     = Some (''<body>'' @ [NL] @ ''X'' @ [NL] @ ''</body>'')"
proof -
  have p: "pages w_plain ''images.html'' = Some page_plain" by (simp add: w_plain_def)
  show ?thesis
    using insert_85_at[OF p page_plain_facts(2), of "''X''"] p page_plain_facts(1)
    by (simp add: splice_at_def page_plain_def)
qed

lemma insert_570_fails:
  assumes "no_insertion_570 w p"
  shows "insertIntoHtmlAtTop_570 p s w = (False, w\<lparr>trace := trace w @ failure_events w p\<rparr>)"
proof (cases "pages w p")
  case None
  then show ?thesis
    by (simp add: insertIntoHtmlAtTop_570_def Let_def emit_def failure_events_def)
next
  case (Some html)
  with assms have "find_div ''submissions'' html = None" by (simp add: no_insertion_570_def)
  with Some show ?thesis
    by (simp add: insertIntoHtmlAtTop_570_def Let_def emit_def failure_events_def)
qed

lemma insert_85_fails:
  assumes "no_insertion_85 w p"
  shows "insertIntoHtmlAtTop_85 p s w = (False, w\<lparr>trace := trace w @ failure_events w p\<rparr>)"
proof (cases "pages w p")
  case None
  then show ?thesis
    by (simp add: insertIntoHtmlAtTop_85_def Let_def emit_def failure_events_def)
next
  case (Some html)
  with assms have "insertPos_85 html = None" by (simp add: no_insertion_85_def)
  with Some show ?thesis
    by (simp add: insertIntoHtmlAtTop_85_def Let_def emit_def failure_events_def)
qed

lemma body_621_insertion_fails:
  assumes "decideTarget_623 sub (fileUrlOf sub) = Some (Html p)" and "no_insertion_570 w p"
  shows "body_621 pf sub w =
           (None, w\<lparr>trace := trace w @ failure_events w p @ [Console (InsertedInto False p)]\<rparr>)"
  using assms(1) insert_570_fails[OF assms(2)]
  by (simp add: body_621_def Let_def emit_def)

lemma body_147_insertion_fails:
  assumes "decideTarget_163 (fileUrlOf sub) = Some (Html p)" and "no_insertion_85 w p"
  shows "fst (body_147 pf sub w) = None"
    and "pages (snd (body_147 pf sub w)) = pages w"
    and "\<exists>evs. new_events w (snd (body_147 pf sub w))
           = ExistsSync (HtmlFile p) # failure_events w p @ Console (InsertedInto False p) # evs"
proof -
  let ?w1 = "emit (ExistsSync (HtmlFile p)) w"
  have n: "no_insertion_85 ?w1 p" using assms(2) by (simp add: no_insertion_85_def)
  have f: "failure_events ?w1 p = failure_events w p" by (simp add: failure_events_def)
  let ?w3 = "emit (Console (InsertedInto False p)) (?w1\<lparr>trace := trace ?w1 @ failure_events w p\<rparr>)"
  have "\<exists>dbg. body_147 pf sub w = (None, writeDebug CouldNotWriteProcessedDebug dbg ?w3)"
    using assms(1) insert_85_fails[OF n] f by (simp add: body_147_def Let_def) blast
  then obtain dbg where
    b: "body_147 pf sub w = (None, writeDebug CouldNotWriteProcessedDebug dbg ?w3)" by blast
  show "fst (body_147 pf sub w) = None" by (simp add: b)
  show "pages (snd (body_147 pf sub w)) = pages w" by (simp add: b writeDebug_frame emit_def)
  from writeDebug_quiet[of CouldNotWriteProcessedDebug dbg ?w3] obtain e2 where
    "trace (writeDebug CouldNotWriteProcessedDebug dbg ?w3) = trace ?w3 @ e2"
    by blast
  then have "trace (snd (body_147 pf sub w))
      = trace w @ (ExistsSync (HtmlFile p) # failure_events w p @ Console (InsertedInto False p) # e2)"
    by (simp add: b emit_def)
  from new_events_append[OF this]
  show "\<exists>evs. new_events w (snd (body_147 pf sub w))
           = ExistsSync (HtmlFile p) # failure_events w p @ Console (InsertedInto False p) # evs"
    by blast
qed


lemma body_147_inserts:
  assumes "decideTarget_163 (fileUrlOf sub) = Some (Html p)" and "pages w p = Some html"
    and "insertPos_85 html = Some k"
  shows "pages (snd (body_147 pf sub w)) = (pages w)(p \<mapsto> splice_at k (buildHtmlSnippet_67 sub) html)"
proof -
  let ?w1 = "emit (ExistsSync (HtmlFile p)) w"
  let ?ins = "insertIntoHtmlAtTop_85 p (buildHtmlSnippet_67 sub) ?w1"
  have p1: "pages ?w1 p = Some html" using assms(2) by simp
  have "\<exists>c dbg e. snd (body_147 pf sub w) = writeDebug c dbg (emit e (snd ?ins))"
    using assms(1) by (simp add: body_147_def Let_def split_beta) blast
  then obtain c dbg e where b: "snd (body_147 pf sub w) = writeDebug c dbg (emit e (snd ?ins))"
    by blast
  show ?thesis
    using insert_85_at(2)[OF p1 assms(3), of "buildHtmlSnippet_67 sub"]
    by (simp add: b writeDebug_frame)
qed

lemma no_insertion_iff:
  "no_insertion_570 w p \<longleftrightarrow>
     pages w p = None \<or> (\<exists>html. pages w p = Some html \<and> find_div ''submissions'' html = None)"
  "no_insertion_85 w p \<longleftrightarrow>
     pages w p = None \<or>
     (\<exists>html. pages w p = Some html \<and> find_div ''submissions'' html = None \<and>
        find_div ''content'' html = None \<and> search match_body_close html = None)"
  by (auto simp add: no_insertion_570_def no_insertion_85_def insertPos_85_def
      split: option.splits)

lemma insertPos_85_content:
  "find_div ''submissions'' html = None \<Longrightarrow> find_div ''content'' html = Some (i, n)
     \<Longrightarrow> insertPos_85 html = Some (i + n)"
  by (simp add: insertPos_85_def)

lemma insertPos_85_body:
  "find_div ''submissions'' html = None \<Longrightarrow> find_div ''content'' html = None
     \<Longrightarrow> search match_body_close html = Some (i, n) \<Longrightarrow> insertPos_85 html = Some i"
  by (simp add: insertPos_85_def)

text \<open>
  A run with the cooldown expired, a non-empty queue and no inherited target in its batch
  completes and writes back the rest of the queue.
\<close>

lemma run_completes:
  assumes "\<not> cooldownActive w" and "queued w \<noteq> []"
  shows "\<not> list_ex (\<lambda>sub. decideTarget_623 sub (fileUrlOf sub) = Some Inherited)
             (take MAX_PER_RUN (queued w))
         \<Longrightarrow> fst (main_590 pf w) = Processed \<and>
             submissions_file (snd (main_590 pf w))
               = Some (JsonArray (drop MAX_PER_RUN (queued w)))"
    and "\<not> list_ex (\<lambda>sub. decideTarget_163 (fileUrlOf sub) = Some Inherited)
             (take MAX_PER_RUN (queued w))
         \<Longrightarrow> fst (main_117 pf w) = Processed \<and>
             submissions_file (snd (main_117 pf w))
               = Some (JsonArray (drop MAX_PER_RUN (queued w)))"
proof -
  assume "\<not> list_ex (\<lambda>sub. decideTarget_623 sub (fileUrlOf sub) = Some Inherited)
             (take MAX_PER_RUN (queued w))"
  with assms have P: "fst (main_590 pf w) = Processed" by (simp add: main_590_outcome)
  from main_with_processed(1)[of "body_621 pf" "\<lambda>sub. decideTarget_623 sub (fileUrlOf sub)" w,
      OF body_621_frame(3) body_621_verdict P[unfolded main_590_def]] P
  show "fst (main_590 pf w) = Processed \<and>
        submissions_file (snd (main_590 pf w)) = Some (JsonArray (drop MAX_PER_RUN (queued w)))"
    by (simp add: main_590_def)
next
  assume "\<not> list_ex (\<lambda>sub. decideTarget_163 (fileUrlOf sub) = Some Inherited)
             (take MAX_PER_RUN (queued w))"
  with assms have P: "fst (main_117 pf w) = Processed" by (simp add: main_117_outcome)
  from main_with_processed(1)[of "body_147 pf" "\<lambda>sub. decideTarget_163 (fileUrlOf sub)" w,
      OF body_147_frame(3) body_147_verdict P[unfolded main_117_def]] P
  show "fst (main_117 pf w) = Processed \<and>
        submissions_file (snd (main_117 pf w)) = Some (JsonArray (drop MAX_PER_RUN (queued w)))"
    by (simp add: main_117_def)
qed

text \<open>
  C2, amended. Lines 570-588 look for the marker only: when the page of a record's target
  is missing or lacks the marker, the insertion fails, the failure is logged, no file is
  changed and the loop goes on. Lines 85-115 look for the marker, else for a \<open>div\<close> with
  id \<open>content\<close>, else for the closing \<open>body\<close> tag: a page without the marker receives the
  fragment after the opening tag of its \<open>content\<close> div or, when it has none, in front of
  its closing \<open>body\<close> tag; only when the page is missing or has none of the three does the
  insertion fail, and then the failure is logged, neither a page nor the queue file is
  changed and the loop goes on. A run that starts with the cooldown expired and a non-empty
  queue, and whose batch holds no record with a target inherited from \<open>Object.prototype\<close>,
  has the outcome Processed and writes back the old queue without its first \<open>MAX_PER_RUN\<close>
  records, whatever the insertions did: the record is not queued again.
\<close>

theorem C2_insertion_fails:
  "(decideTarget_623 sub (fileUrlOf sub) = Some (Html p) \<and> no_insertion_570 w p \<longrightarrow>
      body_621 pf sub w =
        (None, w\<lparr>trace := trace w @ failure_events w p @ [Console (InsertedInto False p)]\<rparr>)) \<and>
   (decideTarget_163 (fileUrlOf sub) = Some (Html p) \<and> no_insertion_85 w p \<longrightarrow>
      fst (body_147 pf sub w) = None \<and>
      pages (snd (body_147 pf sub w)) = pages w \<and>
      submissions_file (snd (body_147 pf sub w)) = submissions_file w \<and>
      (\<exists>evs. new_events w (snd (body_147 pf sub w))
         = ExistsSync (HtmlFile p) # failure_events w p @ Console (InsertedInto False p) # evs)) \<and>
   (no_insertion_570 w p \<longleftrightarrow>
      pages w p = None \<or>
      (\<exists>html. pages w p = Some html \<and> find_div ''submissions'' html = None)) \<and>
   (no_insertion_85 w p \<longleftrightarrow>
      pages w p = None \<or>
      (\<exists>html. pages w p = Some html \<and> find_div ''submissions'' html = None \<and>
         find_div ''content'' html = None \<and> search match_body_close html = None)) \<and>
   (decideTarget_163 (fileUrlOf sub) = Some (Html p) \<and> pages w p = Some html \<and>
    find_div ''submissions'' html = None \<and> find_div ''content'' html = Some (i, n) \<longrightarrow>
      fst (body_147 pf sub w) = None \<and>
      pages (snd (body_147 pf sub w))
        = (pages w)(p \<mapsto> splice_at (i + n) (buildHtmlSnippet_67 sub) html)) \<and>
   (decideTarget_163 (fileUrlOf sub) = Some (Html p) \<and> pages w p = Some html \<and>
    find_div ''submissions'' html = None \<and> find_div ''content'' html = None \<and>
    search match_body_close html = Some (i, n) \<longrightarrow>
      fst (body_147 pf sub w) = None \<and>
      pages (snd (body_147 pf sub w))
        = (pages w)(p \<mapsto> splice_at i (buildHtmlSnippet_67 sub) html)) \<and>
   (\<not> cooldownActive w \<and> queued w \<noteq> [] \<and>
    \<not> list_ex (\<lambda>sub. decideTarget_623 sub (fileUrlOf sub) = Some Inherited)
        (take MAX_PER_RUN (queued w)) \<longrightarrow>
      fst (main_590 pf w) = Processed \<and>
      submissions_file (snd (main_590 pf w)) = Some (JsonArray (drop MAX_PER_RUN (queued w)))) \<and>
   (\<not> cooldownActive w \<and> queued w \<noteq> [] \<and>
    \<not> list_ex (\<lambda>sub. decideTarget_163 (fileUrlOf sub) = Some Inherited)
        (take MAX_PER_RUN (queued w)) \<longrightarrow>
      fst (main_117 pf w) = Processed \<and>
      submissions_file (snd (main_117 pf w)) = Some (JsonArray (drop MAX_PER_RUN (queued w))))"
proof (intro conjI impI)
  assume "decideTarget_623 sub (fileUrlOf sub) = Some (Html p) \<and> no_insertion_570 w p"
  then show "body_621 pf sub w =
        (None, w\<lparr>trace := trace w @ failure_events w p @ [Console (InsertedInto False p)]\<rparr>)"
    using body_621_insertion_fails by blast
next
  assume a: "decideTarget_163 (fileUrlOf sub) = Some (Html p) \<and> no_insertion_85 w p"
  then have d: "decideTarget_163 (fileUrlOf sub) = Some (Html p)" and n: "no_insertion_85 w p"
    by simp_all
  show "fst (body_147 pf sub w) = None" by (rule body_147_insertion_fails(1)[OF d n])
  show "pages (snd (body_147 pf sub w)) = pages w" by (rule body_147_insertion_fails(2)[OF d n])
  show "submissions_file (snd (body_147 pf sub w)) = submissions_file w"
    by (rule body_147_frame(3))
  show "\<exists>evs. new_events w (snd (body_147 pf sub w))
         = ExistsSync (HtmlFile p) # failure_events w p @ Console (InsertedInto False p) # evs"
    by (rule body_147_insertion_fails(3)[OF d n])
next
  show "no_insertion_570 w p \<longleftrightarrow>
      pages w p = None \<or>
      (\<exists>html. pages w p = Some html \<and> find_div ''submissions'' html = None)"
    by (rule no_insertion_iff(1))
next
  show "no_insertion_85 w p \<longleftrightarrow>
      pages w p = None \<or>
      (\<exists>html. pages w p = Some html \<and> find_div ''submissions'' html = None \<and>
         find_div ''content'' html = None \<and> search match_body_close html = None)"
    by (rule no_insertion_iff(2))
next
  assume a: "decideTarget_163 (fileUrlOf sub) = Some (Html p) \<and> pages w p = Some html \<and>
    find_div ''submissions'' html = None \<and> find_div ''content'' html = Some (i, n)"
  then have d: "decideTarget_163 (fileUrlOf sub) = Some (Html p)" and h: "pages w p = Some html"
    and k: "insertPos_85 html = Some (i + n)" by (simp_all add: insertPos_85_content)
  from d show "fst (body_147 pf sub w) = None" by (simp add: body_147_error)
  show "pages (snd (body_147 pf sub w))
        = (pages w)(p \<mapsto> splice_at (i + n) (buildHtmlSnippet_67 sub) html)"
    by (rule body_147_inserts[OF d h k])
next
  assume a: "decideTarget_163 (fileUrlOf sub) = Some (Html p) \<and> pages w p = Some html \<and>
    find_div ''submissions'' html = None \<and> find_div ''content'' html = None \<and>
    search match_body_close html = Some (i, n)"
  then have d: "decideTarget_163 (fileUrlOf sub) = Some (Html p)" and h: "pages w p = Some html"
    and k: "insertPos_85 html = Some i" by (simp_all add: insertPos_85_body)
  from d show "fst (body_147 pf sub w) = None" by (simp add: body_147_error)
  show "pages (snd (body_147 pf sub w))
        = (pages w)(p \<mapsto> splice_at i (buildHtmlSnippet_67 sub) html)"
    by (rule body_147_inserts[OF d h k])
next
  assume a: "\<not> cooldownActive w \<and> queued w \<noteq> [] \<and>
    \<not> list_ex (\<lambda>sub. decideTarget_623 sub (fileUrlOf sub) = Some Inherited)
        (take MAX_PER_RUN (queued w))"
  then have c: "\<not> cooldownActive w" and q: "queued w \<noteq> []" by simp_all
  from run_completes(1)[OF c q, of pf] a
  show "fst (main_590 pf w) = Processed"
    and "submissions_file (snd (main_590 pf w)) = Some (JsonArray (drop MAX_PER_RUN (queued w)))"
    by simp_all
next
  assume a: "\<not> cooldownActive w \<and> queued w \<noteq> [] \<and>
    \<not> list_ex (\<lambda>sub. decideTarget_163 (fileUrlOf sub) = Some Inherited)
        (take MAX_PER_RUN (queued w))"
  then have c: "\<not> cooldownActive w" and q: "queued w \<noteq> []" by simp_all
  from run_completes(2)[OF c q, of pf] a
  show "fst (main_117 pf w) = Processed"
    and "submissions_file (snd (main_117 pf w)) = Some (JsonArray (drop MAX_PER_RUN (queued w)))"
    by simp_all
qed

lemma w_plain_facts:
  "\<not> cooldownActive w_plain"
  "queued w_plain = [r_png, r_bmp, r_gif, r_mp3, r_png, r_bmp, r_gif]"
  "pages w_plain ''gifs.html'' = None"
  "pages w_plain ''images.html'' = Some page_plain"
  by (simp_all add: cooldownActive_def readCooldown_def w_plain_def w_q_def w0_def emit_def
      COOLDOWN_MS_def queued_def)

lemma page_plain_body:
  "find_div ''content'' page_plain = None"
  "search match_body_close page_plain = Some (6, 7)"
  by code_simp+

lemma page_content_facts:
  "find_div ''submissions'' page_content = None"
  "find_div ''content'' page_content = Some (0, 18)"
  by code_simp+

theorem C2_insertion_fails_witness:
  \<open>body_621 pf0 r_gif w_plain =
     (None, w_plain\<lparr>trace := [ExistsSync (HtmlFile ''gifs.html''),
                               Console (TargetHtmlNotFound ''gifs.html''),
                               Console (InsertedInto False ''gifs.html'')]\<rparr>) \<and>
   fst (body_147 pf0 r_gif w_plain) = None \<and>
   pages (snd (body_147 pf0 r_gif w_plain)) = pages w_plain \<and>
   pages (snd (body_147 pf0 r_png w_content)) ''images.html''
     = Some (''<div id="content">'' @ [NL] @ buildHtmlSnippet_67 r_png @ [NL] @ ''x</div>'') \<and>
   pages (snd (body_147 pf0 r_png w_plain)) ''images.html''
     = Some (''<body>'' @ [NL] @ buildHtmlSnippet_67 r_png @ [NL] @ ''</body>'') \<and>
   fst (main_590 pf0 w_plain) = Processed \<and>
   submissions_file (snd (main_590 pf0 w_plain)) = Some (JsonArray [r_bmp, r_gif]) \<and>
   fst (main_117 pf0 w_plain) = Processed \<and>
   submissions_file (snd (main_117 pf0 w_plain)) = Some (JsonArray [r_bmp, r_gif])\<close>
proof -
  have n: "no_insertion_570 w_plain ''gifs.html''" "no_insertion_85 w_plain ''gifs.html''"
    by (simp_all add: no_insertion_570_def no_insertion_85_def w_plain_facts)
  have t: "trace w_plain = []" by (simp add: w_plain_def w_q_def w0_def)
  have c: "pages w_content ''images.html'' = Some page_content" by (simp add: w_content_def)
  have 1: \<open>body_621 pf0 r_gif w_plain =
     (None, w_plain\<lparr>trace := [ExistsSync (HtmlFile ''gifs.html''),
                               Console (TargetHtmlNotFound ''gifs.html''),
                               Console (InsertedInto False ''gifs.html'')]\<rparr>) \<and>
   fst (body_147 pf0 r_gif w_plain) = None \<and>
   pages (snd (body_147 pf0 r_gif w_plain)) = pages w_plain \<and>
   fst (main_590 pf0 w_plain) = Processed \<and>
   submissions_file (snd (main_590 pf0 w_plain)) = Some (JsonArray [r_bmp, r_gif]) \<and>
   fst (main_117 pf0 w_plain) = Processed \<and>
   submissions_file (snd (main_117 pf0 w_plain)) = Some (JsonArray [r_bmp, r_gif])\<close>
    using C2_insertion_fails[of r_gif "''gifs.html''" w_plain pf0] n
    by (simp add: sample_targets w_plain_facts MAX_PER_RUN_def failure_events_def t)
  note c5 = C2_insertion_fails[of r_png "''images.html''" w_content pf0 page_content 0 18,
      THEN conjunct2, THEN conjunct2, THEN conjunct2, THEN conjunct2, THEN conjunct1]
  from c5 have "pages (snd (body_147 pf0 r_png w_content))
      = (pages w_content)(''images.html'' \<mapsto> splice_at 18 (buildHtmlSnippet_67 r_png) page_content)"
    by (simp add: sample_targets c page_content_facts)
  then have 2: \<open>pages (snd (body_147 pf0 r_png w_content)) ''images.html''
     = Some (''<div id="content">'' @ [NL] @ buildHtmlSnippet_67 r_png @ [NL] @ ''x</div>'')\<close>
    by (simp add: splice_at_def page_content_def)
  note c6 = C2_insertion_fails[of r_png "''images.html''" w_plain pf0 page_plain 6 7,
      THEN conjunct2, THEN conjunct2, THEN conjunct2, THEN conjunct2, THEN conjunct2,
      THEN conjunct1]
  from c6 have "pages (snd (body_147 pf0 r_png w_plain))
      = (pages w_plain)(''images.html'' \<mapsto> splice_at 6 (buildHtmlSnippet_67 r_png) page_plain)"
    by (simp add: sample_targets w_plain_facts page_plain_facts page_plain_body)
  then have 3: \<open>pages (snd (body_147 pf0 r_png w_plain)) ''images.html''
     = Some (''<body>'' @ [NL] @ buildHtmlSnippet_67 r_png @ [NL] @ ''</body>'')\<close>
    by (simp add: splice_at_def page_plain_def)
  from 1 2 3 show ?thesis by simp
qed

section \<open>Routing and rendering\<close>

text \<open>
  C8. For the record \<open>r_mp3\<close>, whose URL is \<open>https://example.com/a.mp3?v=1\<close>, routing takes
  the extension \<open>mp3\<close> and chooses the audio page, but \<open>isAudio\<close> of lines 546 is false,
  because the URL does not end in \<open>.mp3\<close>, and the fragment holds an \<open>img\<close> element.
\<close>

theorem C8_mp3_with_query_rendered_as_image:
  \<open>chooseTargetByUrl (fileUrlOf r_mp3) = Some (Html ''audio.html'') \<and>
   \<not> isAudio (fileUrlOf r_mp3) \<and>
   mediaHtml (fileUrlOf r_mp3) ''a song''
     = ''<img class="submission-media" src="https://example.com/a.mp3?v=1" alt="a song" />''\<close>
  by code_simp

lemma split_char_not_Nil [simp]: "split_char c s \<noteq> []"
  by (induction s) (auto simp: neq_Nil_conv split: list.splits elim: cons_first.elims)

lemma split_char_no_sep: "c \<notin> set a \<Longrightarrow> split_char c a = [a]"
  by (induction a) auto

lemma split_char_first: "c \<notin> set a \<Longrightarrow> split_char c (a @ c # b) = a # split_char c b"
  by (induction a) auto

lemma hd_split_char: "c \<notin> set a \<Longrightarrow> hd (split_char c (a @ (if q = [] then [] else c # q'))) = a"
  by (simp add: split_char_first split_char_no_sep)

lemma length_cons_first: "ps \<noteq> [] \<Longrightarrow> length (cons_first x ps) = length ps"
  by (cases ps) auto

lemma last_cons_first: "1 < length ps \<Longrightarrow> last (cons_first x ps) = last ps"
  by (cases ps) auto

lemma length_split_char: "c \<in> set s \<Longrightarrow> 1 < length (split_char c s)"
  by (induction s) (auto simp: length_cons_first)

lemma last_split_char: "c \<notin> set e \<Longrightarrow> last (split_char c (a @ c # e)) = e"
proof (induction a)
  case Nil
  then show ?case by (simp add: split_char_no_sep)
next
  case (Cons x a)
  have "1 < length (split_char c (a @ c # e))" by (rule length_split_char) simp
  from last_cons_first[OF this] Cons show ?case by simp
qed

lemma chooseTargetByUrl_ext:
  assumes "CHR ''?'' \<notin> set base" and "CHR ''?'' \<notin> set e" and "CHR ''.'' \<notin> set e"
  shows "chooseTargetByUrl (base @ ''.'' @ e) = TARGET_MAP (toLowerCase e)"
    and "chooseTargetByUrl (base @ ''.'' @ e @ ''?'' @ query) = TARGET_MAP (toLowerCase e)"
proof -
  have q: "CHR ''?'' \<notin> set (base @ ''.'' @ e)" using assms by simp
  have h1: "hd (split_char (CHR ''?'') (base @ ''.'' @ e)) = base @ ''.'' @ e"
    using split_char_no_sep[OF q] by simp
  have h2: "hd (split_char (CHR ''?'') (base @ ''.'' @ e @ ''?'' @ query)) = base @ ''.'' @ e"
    using split_char_first[OF q, of query] by simp
  have d: "CHR ''.'' \<notin> set (map lower_char e)"
  proof
    assume "CHR ''.'' \<in> set (map lower_char e)"
    then obtain x where x: "x \<in> set e" "lower_char x = CHR ''.''" by auto
    from x(2) have "x = CHR ''.''" by (simp only: lower_char_dot)
    with x(1) assms(3) show False by simp
  qed
  have l: "last (split_char (CHR ''.'') (toLowerCase (base @ ''.'' @ e))) = toLowerCase e"
    using last_split_char[OF d, of "map lower_char base"]
    by (simp add: toLowerCase_def lower_char_dot[THEN iffD2])
  show "chooseTargetByUrl (base @ ''.'' @ e) = TARGET_MAP (toLowerCase e)"
    unfolding chooseTargetByUrl_def Let_def h1 l by simp
  show "chooseTargetByUrl (base @ ''.'' @ e @ ''?'' @ query) = TARGET_MAP (toLowerCase e)"
    unfolding chooseTargetByUrl_def Let_def h2 l by simp
qed

lemma TARGET_MAP_pages:
  "TARGET_MAP key = Some (Html page) \<longleftrightarrow> (key, page) \<in> set TARGET_MAP_entries"
proof (cases "map_of TARGET_MAP_entries key")
  case None
  then have "(key, page) \<notin> set TARGET_MAP_entries"
    by (metis map_of_eq_None_iff fst_conv image_eqI)
  with None show ?thesis by (simp add: TARGET_MAP_def)
next
  case (Some p)
  have "distinct (map fst TARGET_MAP_entries)" by (simp add: TARGET_MAP_entries_def)
  then have "map_of TARGET_MAP_entries key = Some page \<longleftrightarrow> (key, page) \<in> set TARGET_MAP_entries"
    by (rule map_of_eq_Some_iff)
  with Some show ?thesis by (auto simp add: TARGET_MAP_def)
qed

lemma primary_decides:
  assumes "chooseTargetByUrl u = Some t"
  shows "decideTarget_163 u = Some t" and "decideTarget_623 sub u = Some t"
  using assms by (simp_all add: decideTarget_163_def decideTarget_623_def)

lemma body_621_unrouted:
  assumes "decideTarget_623 sub (fileUrlOf sub) = None"
  shows "body_621 pf sub w = (None, emit (Console (CouldNotDetermineTarget (fileUrlOf sub))) w)"
  using assms by (simp add: body_621_def Let_def)

lemma body_147_unrouted:
  assumes "decideTarget_163 (fileUrlOf sub) = None"
  shows "fst (body_147 pf sub w) = None"
    and "pages (snd (body_147 pf sub w)) = pages w"
    and "\<exists>evs. new_events w (snd (body_147 pf sub w))
           = Console (CouldNotDetermineTarget (fileUrlOf sub)) # evs"
proof -
  let ?w1 = "emit (Console (CouldNotDetermineTarget (fileUrlOf sub))) w"
  have "\<exists>dbg. body_147 pf sub w = (None, writeDebug CouldNotWriteDebug dbg ?w1)"
    using assms by (simp add: body_147_def Let_def) blast
  then obtain dbg where b: "body_147 pf sub w = (None, writeDebug CouldNotWriteDebug dbg ?w1)"
    by blast
  show "fst (body_147 pf sub w) = None" by (simp add: b)
  show "pages (snd (body_147 pf sub w)) = pages w" by (simp add: b writeDebug_frame emit_def)
  from writeDebug_quiet[of CouldNotWriteDebug dbg ?w1] obtain e2 where
    "trace (writeDebug CouldNotWriteDebug dbg ?w1) = trace ?w1 @ e2"
    by blast
  then have "trace (snd (body_147 pf sub w))
      = trace w @ (Console (CouldNotDetermineTarget (fileUrlOf sub)) # e2)"
    by (simp add: b emit_def)
  from new_events_append[OF this]
  show "\<exists>evs. new_events w (snd (body_147 pf sub w))
           = Console (CouldNotDetermineTarget (fileUrlOf sub)) # evs"
    by blast
qed

lemma splice_at_changes: "splice_at k s html \<noteq> html"
proof
  assume "splice_at k s html = html"
  then have "length (splice_at k s html) = length html" by simp
  then show False by (simp add: splice_at_def)
qed

lemma r_bmp_png_targets:
  "chooseTargetByUrl (fileUrlOf r_bmp_png) = None"
  "decideTarget_163 (fileUrlOf r_bmp_png) = Some (Html ''images.html'')"
  by code_simp+

lemma page0_insertPos: "insertPos_85 page0 = Some 22"
  by (simp add: insertPos_85_def find_div_page0)

lemma env_bmp_png_record: "newSubmission pf0 env_bmp_png w0 = Some r_bmp_png"
  by code_simp

lemma r_bmp_png_fallbacks:
  "find_known_ext (fileUrlOf r_bmp_png) = Some ''png''"
  "decideTarget_623 r_bmp_png (fileUrlOf r_bmp_png) = None"
  by code_simp+

text \<open>
  C7. The claim fails in lines 163-170 for the record \<open>r_bmp_png\<close>, which \<open>queue_submission\<close>
  makes of the URL \<open>https://example.com/old.bmp?ref=b.png\<close>. Without its query string the
  URL ends in \<open>.bmp\<close>, which \<open>TARGET_MAP\<close> does not hold, and \<open>chooseTargetByUrl\<close> finds no
  target. The fallback of line 166, whose comment says "before query/hash", searches the
  whole URL, meets \<open>.png\<close> at the end of the query string, and the record is inserted into
  the images page. Line 623 finds no target for the same record and drops it.
\<close>

theorem C7_png_in_query_routes_a_bitmap:
  "newSubmission pf0 env_bmp_png w0 = Some r_bmp_png \<and>
   chooseTargetByUrl (fileUrlOf r_bmp_png) = None \<and>
   find_known_ext (fileUrlOf r_bmp_png) = Some ''png'' \<and>
   decideTarget_163 (fileUrlOf r_bmp_png) = Some (Html ''images.html'') \<and>
   pages (snd (body_147 pf0 r_bmp_png w0)) ''images.html''
     = Some (splice_at 22 (buildHtmlSnippet_67 r_bmp_png) page0) \<and>
   pages (snd (body_147 pf0 r_bmp_png w0)) ''images.html'' \<noteq> pages w0 ''images.html'' \<and>
   decideTarget_623 r_bmp_png (fileUrlOf r_bmp_png) = None \<and>
   body_621 pf0 r_bmp_png w0
     = (None, emit (Console (CouldNotDetermineTarget (fileUrlOf r_bmp_png))) w0)"
proof -
  have p: "pages w0 ''images.html'' = Some page0" by (simp add: w0_def)
  show ?thesis
    using body_147_inserts[OF r_bmp_png_targets(2) p page0_insertPos, of pf0] p
      body_621_unrouted[OF r_bmp_png_fallbacks(2), of pf0 w0]
    by (simp add: r_bmp_png_targets r_bmp_png_fallbacks splice_at_changes env_bmp_png_record)
qed


section \<open>A target inherited from \<open>Object.prototype\<close>\<close>

text \<open>A run that ends with an error leaves the queue file and the cooldown file as they were.\<close>

lemma main_with_crashed:
  assumes frame: "\<And>x w. submissions_file (snd (body x w)) = submissions_file w"
    and cool: "\<And>x w. cooldown_file (snd (body x w)) = cooldown_file w"
    and C: "fst (main_with body w) = Crashed"
  shows "submissions_file (snd (main_with body w)) = submissions_file (at_queue w)"
    and "queued (snd (main_with body w)) = queued w"
    and "cooldown_file (snd (main_with body w)) = cooldown_file w"
proof -
  let ?batch = "take MAX_PER_RUN (queued w)"
  let ?w5 = "snd (forEach body ?batch (batch_start w))"
  from C main_with_outcome[of body w] have c: "\<not> cooldownActive w" and q: "queued w \<noteq> []"
    and bad: "fst (forEach body ?batch (batch_start w)) \<noteq> None"
    by (auto split: if_splits)
  from main_with_batch[OF c q, of body] bad
  have m: "snd (main_with body w) = emit (Console UnhandledError) ?w5" by auto
  have s5: "submissions_file ?w5 = submissions_file (batch_start w)"
    by (rule forEach_preserves) (rule frame)
  have c5: "cooldown_file ?w5 = cooldown_file (batch_start w)"
    by (rule forEach_preserves) (rule cool)
  have sb: "submissions_file (batch_start w) = submissions_file (at_queue w)"
    "cooldown_file (batch_start w) = cooldown_file w"
    by (simp_all add: batch_start_def emit_def at_queue_fields)
  have e: "submissions_file (emit (Console UnhandledError) ?w5) = submissions_file ?w5"
    "cooldown_file (emit (Console UnhandledError) ?w5) = cooldown_file ?w5"
    by (simp_all add: emit_def)
  show s: "submissions_file (snd (main_with body w)) = submissions_file (at_queue w)"
    by (simp only: m e s5 sb)
  show "queued (snd (main_with body w)) = queued w"
    using s at_queue_fields(4)[of w] by (simp add: queued_def)
  show "cooldown_file (snd (main_with body w)) = cooldown_file w"
    by (simp only: m e c5 sb)
qed

lemma r_ctor_targets:
  "chooseTargetByUrl (fileUrlOf r_ctor) = Some Inherited"
  "decideTarget_623 r_ctor (fileUrlOf r_ctor) = Some Inherited"
  "decideTarget_163 (fileUrlOf r_ctor) = Some Inherited"
  by code_simp+

lemma env_ctor_record: "newSubmission pf0 env_ctor w0 = Some r_ctor"
  by code_simp

lemma w_ctor_facts:
  "\<not> cooldownActive w_ctor"
  "queued w_ctor = [r_png, r_ctor, r_gif]"
  "submissions_file w_ctor = Some (JsonArray [r_png, r_ctor, r_gif])"
  "cooldown_file w_ctor = None"
  by (simp_all add: cooldownActive_def readCooldown_def w_ctor_def w0_def emit_def
      COOLDOWN_MS_def queued_def)

lemma at_queue_file:
  "submissions_file (at_queue w)
     = (case submissions_file w of None \<Rightarrow> Some (JsonArray []) | Some f \<Rightarrow> Some f)"
  by (simp add: at_queue_def readSubmissions_def ensureFileExists_def readCooldown_snd emit_def
      Let_def split: option.splits queue_file.splits)

lemma body_621_inserts:
  assumes "decideTarget_623 sub (fileUrlOf sub) = Some (Html p)" and "pages w p = Some html"
    and "find_div ''submissions'' html = Some (i, n)"
  shows "pages (snd (body_621 pf sub w))
           = (pages w)(p \<mapsto> splice_at (i + n) (buildHtmlSnippet_538 pf w sub) html)"
  using assms
  by (simp add: body_621_def Let_def split_beta insertIntoHtmlAtTop_570_def writePage_def)

lemma body_crashes:
  "decideTarget_623 sub (fileUrlOf sub) = Some Inherited
     \<Longrightarrow> body_621 pf sub w = (Some TypeError, w)"
  "decideTarget_163 (fileUrlOf sub) = Some Inherited
     \<Longrightarrow> body_147 pf sub w = (Some TypeError, w)"
  by (simp_all add: body_621_def body_147_def Let_def)

lemma forEach_stops:
  assumes "fst (f x w) = None" and "f y (snd (f x w)) = (Some e, snd (f x w))"
  shows "forEach f (x # y # ys) w = (Some e, snd (f x w))"
proof -
  obtain r w' where fx: "f x w = (r, w')" by (cases "f x w")
  with assms show ?thesis by simp
qed

lemma w_ctor_crash_pages:
  "pages (snd (main_590 pf0 w_ctor)) ''images.html'' \<noteq> pages w_ctor ''images.html''"
  "pages (snd (main_117 pf0 w_ctor)) ''images.html'' \<noteq> pages w_ctor ''images.html''"
proof -
  let ?w4 = "batch_start w_ctor"
  have p: "pages ?w4 ''images.html'' = Some page0"
    by (simp add: batch_start_def at_queue_fields w_ctor_def w0_def)
  have p0: "pages w_ctor ''images.html'' = Some page0" by (simp add: w_ctor_def w0_def)
  have b: "take MAX_PER_RUN (queued w_ctor) = [r_png, r_ctor, r_gif]"
    by (simp add: w_ctor_facts MAX_PER_RUN_def)
  have q: "queued w_ctor \<noteq> []" by (simp add: w_ctor_facts)
  have "forEach (body_621 pf0) [r_png, r_ctor, r_gif] ?w4
          = (Some TypeError, snd (body_621 pf0 r_png ?w4))"
    by (rule forEach_stops) (simp_all add: body_621_error sample_targets body_crashes r_ctor_targets)
  then have "snd (main_590 pf0 w_ctor)
               = emit (Console UnhandledError) (snd (body_621 pf0 r_png ?w4))"
    unfolding main_590_def main_with_batch[OF w_ctor_facts(1) q] b by simp
  then show "pages (snd (main_590 pf0 w_ctor)) ''images.html'' \<noteq> pages w_ctor ''images.html''"
    using body_621_inserts[OF sample_targets(1) p find_div_page0, of pf0]
    by (simp add: p0 splice_at_changes)
  have "forEach (body_147 pf0) [r_png, r_ctor, r_gif] ?w4
          = (Some TypeError, snd (body_147 pf0 r_png ?w4))"
    by (rule forEach_stops) (simp_all add: body_147_error sample_targets body_crashes r_ctor_targets)
  then have "snd (main_117 pf0 w_ctor)
               = emit (Console UnhandledError) (snd (body_147 pf0 r_png ?w4))"
    unfolding main_117_def main_with_batch[OF w_ctor_facts(1) q] b by simp
  then show "pages (snd (main_117 pf0 w_ctor)) ''images.html'' \<noteq> pages w_ctor ''images.html''"
    using body_147_inserts[OF sample_targets(5) p page0_insertPos, of pf0]
    by (simp add: p0 splice_at_changes)
qed

text \<open>
  C1. The claim fails for a queue that holds a record whose URL has the extension
  \<open>constructor\<close>; \<open>queue_submission\<close> makes such a record of the line
  \<open>http://x/a.constructor?y=.png\<close>. With the cooldown expired and three records queued,
  \<open>TARGET_MAP["constructor"]\<close> is a member that the object inherits, \<open>path.join\<close> throws,
  and the run ends with the outcome Crashed in both listings: the queue file still holds
  all three records, no cooldown is written, and the images page has already received the
  first record.
\<close>

theorem C1_inherited_target_ends_the_run:
  "newSubmission pf0 env_ctor w0 = Some r_ctor \<and>
   cooldownActive w_ctor = False \<and>
   queued w_ctor = [r_png, r_ctor, r_gif] \<and>
   fst (main_590 pf0 w_ctor) = Crashed \<and>
   submissions_file (snd (main_590 pf0 w_ctor)) = Some (JsonArray [r_png, r_ctor, r_gif]) \<and>
   cooldown_file (snd (main_590 pf0 w_ctor)) = None \<and>
   fst (main_117 pf0 w_ctor) = Crashed \<and>
   submissions_file (snd (main_117 pf0 w_ctor)) = Some (JsonArray [r_png, r_ctor, r_gif]) \<and>
   cooldown_file (snd (main_117 pf0 w_ctor)) = None \<and>
   pages (snd (main_590 pf0 w_ctor)) ''images.html'' \<noteq> pages w_ctor ''images.html'' \<and>
   pages (snd (main_117 pf0 w_ctor)) ''images.html'' \<noteq> pages w_ctor ''images.html''"
proof -
  have a: "fst (main_590 pf0 w_ctor) = Crashed"
    by (simp add: main_590_outcome w_ctor_facts MAX_PER_RUN_def sample_targets r_ctor_targets)
  have b: "fst (main_117 pf0 w_ctor) = Crashed"
    by (simp add: main_117_outcome w_ctor_facts MAX_PER_RUN_def sample_targets r_ctor_targets)
  note r = main_with_crashed[of "body_621 pf0" w_ctor, OF body_621_frame(3) body_621_frame(2)
      a[unfolded main_590_def], folded main_590_def]
  note t = main_with_crashed[of "body_147 pf0" w_ctor, OF body_147_frame(3) body_147_frame(2)
      b[unfolded main_117_def], folded main_117_def]
  show ?thesis
    using a b r(1,3) t(1,3) env_ctor_record w_ctor_crash_pages
    by (simp add: at_queue_file w_ctor_facts)
qed

section \<open>The second line of the grammar\<close>

lemma search_SomeD:
  "search m l = Some (i, n) \<Longrightarrow> i \<le> length l \<and> m (drop i l) = Some n"
proof (induction l arbitrary: i)
  case Nil
  then show ?case by (auto split: option.splits)
next
  case (Cons c cs)
  show ?case
  proof (cases "m (c # cs)")
    case (Some n0)
    with Cons.prems show ?thesis by auto
  next
    case None
    with Cons.prems obtain i' where "search m cs = Some (i', n)" "i = Suc i'"
      by (auto split: option.splits)
    with Cons.IH[of i'] show ?thesis by simp
  qed
qed

lemma search_finds:
  "m (drop i l) \<noteq> None \<Longrightarrow> i \<le> length l \<Longrightarrow> search m l \<noteq> None"
proof (induction l arbitrary: i)
  case Nil
  then show ?case by (auto split: option.splits)
next
  case (Cons c cs)
  show ?case
  proof (cases i)
    case 0
    with Cons.prems show ?thesis by (auto split: option.splits)
  next
    case (Suc i')
    with Cons.prems Cons.IH[of i'] show ?thesis by (auto split: option.splits)
  qed
qed

lemma backtrack_SomeD:
  "backtrack k N s = Some r \<Longrightarrow> \<exists>n0 m. 1 \<le> n0 \<and> n0 \<le> N \<and> k (drop n0 s) = Some m \<and> r = n0 + m"
proof (induction N)
  case 0
  then show ?case by simp
next
  case (Suc N)
  show ?case
  proof (cases "k (drop (Suc N) s)")
    case None
    with Suc.prems have "backtrack k N s = Some r" by simp
    from Suc.IH[OF this] show ?thesis by (metis le_SucI)
  next
    case (Some m)
    with Suc.prems have "r = Suc N + m" by simp
    with Some show ?thesis by (metis One_nat_def Suc_le_mono le0 order_refl)
  qed
qed

lemma backtrack_finds:
  "k (drop n0 s) \<noteq> None \<Longrightarrow> 1 \<le> n0 \<Longrightarrow> n0 \<le> N \<Longrightarrow> backtrack k N s \<noteq> None"
proof (induction N)
  case 0
  then show ?case by simp
next
  case (Suc N)
  show ?case
  proof (cases "n0 = Suc N")
    case True
    with Suc.prems show ?thesis by (auto split: option.splits)
  next
    case False
    with Suc.prems have "n0 \<le> N" by simp
    with Suc.IH Suc.prems show ?thesis by (auto split: option.splits)
  qed
qed

lemma starts_with_ci_length: "starts_with_ci p s \<Longrightarrow> length p \<le> length s"
  unfolding starts_with_ci_def by (metis length_map length_take min.cobounded1 min_def)

lemma starts_with_ci_append: "length p \<le> length s \<Longrightarrow> starts_with_ci p (s @ t) = starts_with_ci p s"
  by (simp add: starts_with_ci_def)

lemma match_ext_SomeD:
  "match_ext s = Some m \<Longrightarrow> \<exists>e \<in> set known_exts. m = length e \<and> starts_with_ci e s"
  by (auto simp add: match_ext_def find_Some_iff)

lemma match_ext_finds: "e \<in> set known_exts \<Longrightarrow> starts_with_ci e s \<Longrightarrow> match_ext s \<noteq> None"
  by (auto simp add: match_ext_def find_None_iff)

lemma match_dot_ext_SomeD:
  "match_dot_ext t = Some m \<Longrightarrow>
     \<exists>e \<in> set known_exts. \<exists>t'. t = CHR ''.'' # t' \<and> m = Suc (length e) \<and> starts_with_ci e t'"
  by (cases t) (auto simp add: match_dot_ext_def dest: match_ext_SomeD split: if_splits)

lemma match_dot_ext_finds:
  "e \<in> set known_exts \<Longrightarrow> starts_with_ci e t' \<Longrightarrow> match_dot_ext (CHR ''.'' # t') \<noteq> None"
  using match_ext_finds by (auto simp add: match_dot_ext_def)


lemma lower_char_space: "is_space c \<Longrightarrow> lower_char c = c"
proof -
  assume "is_space c"
  then have "c \<notin> fst ` set case_pairs" by (auto simp: is_space_def case_pairs_def)
  then have "map_of case_pairs c = None" by (simp add: map_of_eq_None_iff)
  then show ?thesis by (simp add: lower_char_def)
qed

lemma no_space_lower:
  assumes "\<not> list_ex is_space (map lower_char x)"
  shows "\<not> list_ex is_space x"
proof
  assume "list_ex is_space x"
  then obtain c where c: "c \<in> set x" "is_space c" by (auto simp: list_ex_iff)
  from c(1) have "lower_char c \<in> set (map lower_char x)" by simp
  moreover from c(2) have "is_space (lower_char c)" by (simp add: lower_char_space)
  ultimately show False using assms by (auto simp: list_ex_iff)
qed

lemma schemes_exclusive:
  assumes "starts_with_ci ''http://'' s"
  shows "\<not> starts_with_ci ''https://'' s"
proof
  assume "starts_with_ci ''https://'' s"
  then have a: "map lower_char (take 8 s) = ''https://''"
    by (simp add: starts_with_ci_def eval_nat_numeral)
  from assms have b: "map lower_char (take 7 s) = ''http://''"
    by (simp add: starts_with_ci_def eval_nat_numeral)
  have "take 7 (map lower_char (take 8 s)) = map lower_char (take 7 s)"
    by (simp add: take_map)
  with a b have "take 7 ''https://'' = ''http://''" by simp
  then show False by simp
qed

lemma scheme_then_SomeD:
  assumes "scheme_then k s = Some n"
  shows "\<exists>scheme \<in> set [''https://'', ''http://'']. \<exists>n1.
           starts_with_ci scheme s \<and> k (drop (length scheme) s) = Some n1 \<and> n = length scheme + n1"
  using assms by (auto simp add: scheme_then_def eval_nat_numeral split: if_splits)

lemma scheme_then_finds:
  assumes "scheme \<in> set [''https://'', ''http://'']" and "starts_with_ci scheme s"
    and "k (drop (length scheme) s) \<noteq> None"
  shows "scheme_then k s \<noteq> None"
proof (cases "scheme = ''https://''")
  case True
  with assms show ?thesis by (auto simp add: scheme_then_def eval_nat_numeral)
next
  case False
  with assms(1) have h: "scheme = ''http://''" by simp
  with assms(2) schemes_exclusive have "\<not> starts_with_ci ''https://'' s" by blast
  with assms h show ?thesis by (auto simp add: scheme_then_def eval_nat_numeral)
qed

lemma take_takeWhile: "n \<le> length (takeWhile P xs) \<Longrightarrow> set (take n xs) \<subseteq> {x. P x}"
proof (induction xs arbitrary: n)
  case Nil
  then show ?case by simp
next
  case (Cons x xs)
  then show ?case by (cases n) (auto split: if_splits)
qed

lemma length_takeWhile_append:
  "\<forall>x \<in> set xs. P x \<Longrightarrow> length xs \<le> length (takeWhile P (xs @ ys))"
  by (simp add: takeWhile_append2)


lemma schemes_no_space:
  "scheme \<in> set [''https://'', ''http://''] \<Longrightarrow> \<not> list_ex is_space scheme"
  by (auto simp add: is_space_def)

lemma known_exts_no_space: "e \<in> set known_exts \<Longrightarrow> \<not> list_ex is_space e"
  by (auto simp add: known_exts_def is_space_def)

lemma media_urlI:
  assumes "scheme \<in> set [''https://'', ''http://'']" and "e \<in> set known_exts"
    and "toLowerCase a = scheme" and "b \<noteq> []" and "\<not> list_ex is_space b"
    and "toLowerCase c = e"
  shows "media_url (a @ b @ CHR ''.'' # c)"
proof -
  let ?u = "a @ b @ CHR ''.'' # c"
  have la: "length a = length scheme" and lc: "length c = length e"
    using assms(3,6) by (auto simp: toLowerCase_def)
  have "\<not> list_ex is_space a"
    using assms(1,3) no_space_lower[of a] schemes_no_space by (simp add: toLowerCase_def)
  moreover have "\<not> list_ex is_space c"
    using assms(2,6) no_space_lower[of c] known_exts_no_space by (simp add: toLowerCase_def)
  moreover have "\<not> is_space (CHR ''.'')" by (simp add: is_space_def)
  ultimately have sp: "\<not> list_ex is_space ?u"
    using assms(5) by simp
  have l1: "length scheme + Suc (length e) < length ?u"
    using assms(4) la lc by (cases b) simp_all
  have l2: "toLowerCase (take (length scheme) ?u) = scheme"
    using assms(3) la by simp
  have "drop (length ?u - Suc (length e)) ?u = CHR ''.'' # c"
    using lc by simp
  then have l3: "toLowerCase (drop (length ?u - Suc (length e)) ?u) = CHR ''.'' # e"
    using assms(6) by (simp add: toLowerCase_def lower_char_dot[THEN iffD2])
  have "(scheme, e) \<in> set (List.product [''https://'', ''http://''] known_exts)"
    using assms(1,2) by auto
  with l1 l2 l3 have "list_ex (\<lambda>(scheme, ext).
                 length scheme + Suc (length ext) < length ?u \<and>
                 toLowerCase (take (length scheme) ?u) = scheme \<and>
                 toLowerCase (drop (length ?u - Suc (length ext)) ?u) = CHR ''.'' # ext)
        (List.product [''https://'', ''http://''] known_exts)"
    unfolding list_ex_iff by blast
  with sp show ?thesis unfolding media_url_def by blast
qed

lemma media_urlD:
  assumes "media_url u"
  shows "\<exists>scheme \<in> set [''https://'', ''http://'']. \<exists>e \<in> set known_exts. \<exists>a b c.
           u = a @ b @ CHR ''.'' # c \<and> toLowerCase a = scheme \<and> b \<noteq> [] \<and>
           \<not> list_ex is_space b \<and> toLowerCase c = e"
proof -
  from assms have sp: "\<not> list_ex is_space u" by (simp add: media_url_def)
  from assms obtain scheme e where
    m: "(scheme, e) \<in> set (List.product [''https://'', ''http://''] known_exts)"
      "length scheme + Suc (length e) < length u"
      "toLowerCase (take (length scheme) u) = scheme"
      "toLowerCase (drop (length u - Suc (length e)) u) = CHR ''.'' # e"
    unfolding media_url_def list_ex_iff by blast
  let ?a = "take (length scheme) u"
  let ?k = "length u - Suc (length e)"
  let ?b = "take (?k - length scheme) (drop (length scheme) u)"
  let ?x = "drop ?k u"
  from m(4) obtain x0 c where x: "?x = x0 # c" "lower_char x0 = CHR ''.''" "toLowerCase c = e"
    by (cases ?x) (auto simp: toLowerCase_def)
  from x(2) have x0: "x0 = CHR ''.''" by (simp only: lower_char_dot)
  have "u = take ?k u @ ?x" by simp
  also have "take ?k u = ?a @ ?b"
    using m(2) by (simp add: take_add[symmetric, of "length scheme"] flip: take_drop)
  finally have u: "u = ?a @ ?b @ CHR ''.'' # c" using x(1) x0 by simp
  have b: "?b \<noteq> []" using m(2) by simp
  have "set ?b \<subseteq> set u" by (meson order_trans set_drop_subset set_take_subset)
  with sp have bs: "\<not> list_ex is_space ?b" by (auto simp: list_ex_iff)
  from m(1) have "scheme \<in> set [''https://'', ''http://'']" "e \<in> set known_exts" by auto
  with u m(3) b bs x(3) show ?thesis by blast
qed


lemma take_exact: "length xs = n \<Longrightarrow> take n (xs @ ys) = xs"
  by simp

lemma match_url_SomeD:
  assumes "match_url s = Some n"
  shows "n \<le> length s \<and> media_url (take n s)"
proof -
  from assms scheme_then_SomeD[of "nonspace_plus_then match_dot_ext" s n]
  obtain scheme n1 where sc: "scheme \<in> set [''https://'', ''http://'']"
    and sw: "starts_with_ci scheme s"
    and k: "nonspace_plus_then match_dot_ext (drop (length scheme) s) = Some n1"
    and n: "n = length scheme + n1"
    unfolding match_url_def by blast
  let ?r = "drop (length scheme) s"
  from k backtrack_SomeD[of match_dot_ext _ ?r n1]
  obtain n0 m where n0: "1 \<le> n0" "n0 \<le> length (takeWhile (\<lambda>c. \<not> is_space c) ?r)"
    and md: "match_dot_ext (drop n0 ?r) = Some m" and n1: "n1 = n0 + m"
    unfolding nonspace_plus_then_def by blast
  from match_dot_ext_SomeD[OF md] obtain e t' where e: "e \<in> set known_exts"
    and t: "drop n0 ?r = CHR ''.'' # t'" and m: "m = Suc (length e)"
    and se: "starts_with_ci e t'" by blast
  let ?a = "take (length scheme) s"
  let ?b = "take n0 ?r"
  let ?c = "take (length e) t'"
  have ls: "length scheme \<le> length s" by (rule starts_with_ci_length[OF sw])
  have le: "length e \<le> length t'" by (rule starts_with_ci_length[OF se])
  have lr: "n0 < length ?r" using t by (metis drop_eq_Nil2 list.discI not_le_imp_less)
  have r_eq: "?r = ?b @ CHR ''.'' # t'" using t by (metis append_take_drop_id)
  have s_eq: "s = (?a @ ?b @ CHR ''.'' # ?c) @ drop (length e) t'"
  proof -
    have "s = ?a @ ?r" by simp
    also have "?r = ?b @ CHR ''.'' # (?c @ drop (length e) t')" using r_eq by simp
    finally show ?thesis by simp
  qed
  have len: "length (?a @ ?b @ CHR ''.'' # ?c) = n"
    using ls le lr n n1 m by simp
  have "take n ((?a @ ?b @ CHR ''.'' # ?c) @ drop (length e) t') = ?a @ ?b @ CHR ''.'' # ?c"
    by (rule take_exact[OF len])
  with arg_cong[OF s_eq, of "take n"] have tk: "take n s = ?a @ ?b @ CHR ''.'' # ?c"
    by (rule trans)
  have la: "toLowerCase ?a = scheme" using sw by (simp add: starts_with_ci_def toLowerCase_def)
  have lc: "toLowerCase ?c = e" using se by (simp add: starts_with_ci_def toLowerCase_def)
  have bne: "?b \<noteq> []" using n0(1) lr by auto
  have "set ?b \<subseteq> {x. \<not> is_space x}" by (rule take_takeWhile[OF n0(2)])
  then have bs: "\<not> list_ex is_space ?b" by (auto simp: list_ex_iff)
  have "n \<le> length s" using len s_eq by (metis length_append le_add1)
  moreover have "media_url (take n s)"
    unfolding tk by (rule media_urlI[OF sc e la bne bs lc])
  ultimately show ?thesis by blast
qed

lemma match_url_finds:
  assumes "media_url u"
  shows "match_url (u @ post) \<noteq> None"
proof -
  from media_urlD[OF assms] obtain scheme e a b c where
    sc: "scheme \<in> set [''https://'', ''http://'']" and e: "e \<in> set known_exts"
    and u: "u = a @ b @ CHR ''.'' # c" and la: "toLowerCase a = scheme" and b: "b \<noteq> []"
    and bs: "\<not> list_ex is_space b" and lc: "toLowerCase c = e" by blast
  have lena: "length a = length scheme" and lenc: "length c = length e"
    using la lc by (auto simp: toLowerCase_def)
  have sw: "starts_with_ci scheme (u @ post)"
    using la lena by (simp add: u starts_with_ci_def toLowerCase_def)
  let ?r = "drop (length scheme) (u @ post)"
  have r: "?r = b @ CHR ''.'' # (c @ post)" using lena by (simp add: u)
  have se: "starts_with_ci e (c @ post)"
    using lc lenc by (simp add: starts_with_ci_def toLowerCase_def)
  have d: "match_dot_ext (drop (length b) ?r) \<noteq> None"
    unfolding r using match_dot_ext_finds[OF e se] by simp
  have "\<forall>x \<in> set b. \<not> is_space x" using bs by (simp add: list_ex_iff)
  then have l: "length b \<le> length (takeWhile (\<lambda>c. \<not> is_space c) ?r)"
    unfolding r by (rule length_takeWhile_append)
  have "1 \<le> length b" using b by (cases b) simp_all
  from backtrack_finds[of match_dot_ext "length b" ?r, OF d this l]
  have "nonspace_plus_then match_dot_ext ?r \<noteq> None" by (simp add: nonspace_plus_then_def)
  from scheme_then_finds[of scheme "u @ post" "nonspace_plus_then match_dot_ext", OF sc sw this] show ?thesis by (simp add: match_url_def)
qed


lemma search_finds_any:
  assumes "m (drop i l) \<noteq> None"
  shows "search m l \<noteq> None"
proof (cases "i \<le> length l")
  case True
  with assms show ?thesis by (rule search_finds)
next
  case False
  with assms have "m (drop (length l) l) \<noteq> None" by simp
  then show ?thesis by (rule search_finds) simp
qed

lemma find_md_image_SomeD:
  "find_md_image l = Some u \<Longrightarrow> \<exists>i. match_md_image (drop i l) = Some u"
proof (induction l)
  case Nil
  then show ?case by simp
next
  case (Cons c cs)
  show ?case
  proof (cases "match_md_image (c # cs)")
    case (Some v)
    with Cons.prems have "match_md_image (drop 0 (c # cs)) = Some u" by simp
    then show ?thesis by blast
  next
    case None
    with Cons.prems have "find_md_image cs = Some u" by simp
    from Cons.IH[OF this] obtain i where "match_md_image (drop (Suc i) (c # cs)) = Some u" by auto
    then show ?thesis by blast
  qed
qed

lemma match_dot_ext_paren_weaker:
  assumes "match_dot_ext_paren t \<noteq> None"
  shows "match_dot_ext t \<noteq> None"
proof (cases t)
  case Nil
  with assms show ?thesis by (simp add: match_dot_ext_paren_def)
next
  case (Cons c r)
  with assms have c: "c = CHR ''.''" by (auto simp add: match_dot_ext_paren_def split: if_splits)
  with assms Cons obtain e where
    "find (\<lambda>e. starts_with_ci e r \<and> (case drop (length e) r of [] \<Rightarrow> False | d # _ \<Rightarrow> d = CHR '')''))
       known_exts = Some e"
    by (auto simp add: match_dot_ext_paren_def)
  then have "e \<in> set known_exts" "starts_with_ci e r"
    by (auto simp add: find_Some_iff)
  from match_dot_ext_finds[OF this] Cons c show ?thesis by simp
qed

lemma nonspace_plus_then_weaker:
  assumes "nonspace_plus_then match_dot_ext_paren r \<noteq> None"
  shows "nonspace_plus_then match_dot_ext r \<noteq> None"
proof -
  from assms obtain n1 where
    "backtrack match_dot_ext_paren (length (takeWhile (\<lambda>c. \<not> is_space c) r)) r = Some n1"
    by (auto simp add: nonspace_plus_then_def)
  from backtrack_SomeD[OF this] obtain n0 m where
    n0: "1 \<le> n0" "n0 \<le> length (takeWhile (\<lambda>c. \<not> is_space c) r)"
    and m: "match_dot_ext_paren (drop n0 r) = Some m" by blast
  from m have "match_dot_ext (drop n0 r) \<noteq> None" by (intro match_dot_ext_paren_weaker) simp
  from backtrack_finds[of match_dot_ext n0 r, OF this n0]
  show ?thesis by (simp add: nonspace_plus_then_def)
qed

lemma match_md_image_url:
  assumes "match_md_image s = Some u"
  shows "\<exists>j. match_url (drop j s) \<noteq> None"
proof -
  let ?r = "dropWhile (\<lambda>c. c \<noteq> CHR '']'') (drop 2 s)"
  from assms have "scheme_then (nonspace_plus_then match_dot_ext_paren) (drop 2 ?r) \<noteq> None"
    by (auto simp add: match_md_image_def Let_def split: if_splits option.splits)
  then obtain n where "scheme_then (nonspace_plus_then match_dot_ext_paren) (drop 2 ?r) = Some n"
    by blast
  from scheme_then_SomeD[OF this] obtain scheme n1 where
    sc: "scheme \<in> set [''https://'', ''http://'']" and sw: "starts_with_ci scheme (drop 2 ?r)"
    and k: "nonspace_plus_then match_dot_ext_paren (drop (length scheme) (drop 2 ?r)) = Some n1"
    by blast
  from k have "nonspace_plus_then match_dot_ext (drop (length scheme) (drop 2 ?r)) \<noteq> None"
    by (intro nonspace_plus_then_weaker) simp
  from scheme_then_finds[of scheme "drop 2 ?r" "nonspace_plus_then match_dot_ext", OF sc sw this]
  have "match_url (drop 2 ?r) \<noteq> None" by (simp add: match_url_def)
  moreover have "drop 2 ?r
      = drop (2 + length (takeWhile (\<lambda>c. c \<noteq> CHR '']'') (drop 2 s)) + 2) s"
    by (simp add: dropWhile_eq_drop add.commute)
  ultimately show ?thesis by metis
qed

lemma md_branch_dead:
  assumes "search match_url l = None"
  shows "find_md_image l = None"
proof (rule ccontr)
  assume "find_md_image l \<noteq> None"
  then obtain u where "find_md_image l = Some u" by blast
  from find_md_image_SomeD[OF this] obtain i where "match_md_image (drop i l) = Some u" by blast
  from match_md_image_url[OF this] obtain j where "match_url (drop (i + j) l) \<noteq> None"
    by (auto simp add: add.commute)
  from search_finds_any[of match_url "i + j" l, OF this] assms show False by simp
qed

lemma urlOfLine_search:
  "urlOfLine l =
     (case search match_url l of Some (i, n) \<Rightarrow> Some (take n (drop i l)) | None \<Rightarrow> None)"
  using md_branch_dead[of l] by (simp add: urlOfLine_def split: option.splits)

lemma urlOfLine_SomeD:
  assumes "urlOfLine l = Some u"
  shows "media_url u \<and> (\<exists>pre post. l = pre @ u @ post)"
proof -
  from assms obtain i n where s: "search match_url l = Some (i, n)" and u: "u = take n (drop i l)"
    by (auto simp add: urlOfLine_search split: option.splits)
  from search_SomeD[OF s] have m: "match_url (drop i l) = Some n" by simp
  from match_url_SomeD[OF m] have "media_url u" by (simp add: u)
  moreover have "l = take i l @ u @ drop n (drop i l)"
    unfolding u by (simp only: append_take_drop_id)
  ultimately show ?thesis by blast
qed

lemma urlOfLine_accepts:
  assumes "media_url u"
  shows "urlOfLine (pre @ u @ post) \<noteq> None"
proof -
  from match_url_finds[OF assms, of post]
  have "match_url (drop (length pre) (pre @ u @ post)) \<noteq> None" by simp
  from search_finds_any[of match_url "length pre" "pre @ u @ post", OF this]
  show ?thesis by (auto simp add: urlOfLine_search split: option.splits)
qed


text \<open>
  C3, as stated, fails: the line \<open>http://a/b.pngx\<close> is not a URL that ends in one of the
  extensions, so the grammar of the specification refuses it, but the pattern of line 271
  is not anchored: it matches the first part of the line, the input is accepted, and the
  record's \<open>file_url\<close> is \<open>http://a/b.png\<close>.
\<close>

theorem C3_counterexample:
  "spec_secondLine ''http://a/b.pngx'' = None \<and>
   urlOfLine ''http://a/b.pngx'' = Some ''http://a/b.png'' \<and>
   newSubmission pf0 env_pngx w0 =
     Some \<lparr>username = Some ''alice'', name = Some ''alice'',
            file_url = Some ''http://a/b.png'', url = None, type = None,
            description = Some [], date = Some ''2024-01-01''\<rparr>"
  by code_simp

lemma parseIssueBody_file_url:
  assumes "parseIssueBody pf env w b = Some sub"
  shows "file_url sub = urlOfLine (nonEmptyLines b ! 1)"
  using assms
  by (auto simp add: parseIssueBody_def Let_def split: if_splits option.splits prod.splits)

text \<open>
  C3, amended. The second line is accepted exactly when it holds a media URL somewhere:
  \<open>http://\<close> or \<open>https://\<close>, one or more non-space characters, a dot and one of the six
  extensions, in any letter case. The URL taken from the line is such a part of the line,
  and it is the \<open>file_url\<close> of the accepted record; what stands before and behind it on
  the line (the markdown wrapper, a query string, a fragment, other text) is left out.
  An input is accepted exactly when it has two non-empty lines, the first matches the
  name pattern and the second holds a media URL.
\<close>

theorem C3_second_line:
  "(urlOfLine l \<noteq> None \<longleftrightarrow> (\<exists>pre u post. l = pre @ u @ post \<and> media_url u)) \<and>
   (urlOfLine l = Some u \<longrightarrow> media_url u \<and> (\<exists>pre post. l = pre @ u @ post)) \<and>
   (parseIssueBody pf env w b \<noteq> None \<longleftrightarrow>
      2 \<le> length (nonEmptyLines b) \<and> match_name_line (nonEmptyLines b ! 0) \<noteq> None \<and>
      urlOfLine (nonEmptyLines b ! 1) \<noteq> None) \<and>
   (parseIssueBody pf env w b = Some sub \<longrightarrow> file_url sub = urlOfLine (nonEmptyLines b ! 1))"
proof (intro conjI impI)
  show "urlOfLine l \<noteq> None \<longleftrightarrow> (\<exists>pre u post. l = pre @ u @ post \<and> media_url u)"
  proof
    assume "urlOfLine l \<noteq> None"
    then obtain v where "urlOfLine l = Some v" by blast
    from urlOfLine_SomeD[OF this] show "\<exists>pre u post. l = pre @ u @ post \<and> media_url u" by blast
  next
    assume "\<exists>pre u post. l = pre @ u @ post \<and> media_url u"
    then obtain pre v post where "l = pre @ v @ post" "media_url v" by blast
    with urlOfLine_accepts[of v pre post] show "urlOfLine l \<noteq> None" by simp
  qed
next
  assume a: "urlOfLine l = Some u"
  from urlOfLine_SomeD[OF a] show "media_url u" by blast
  from urlOfLine_SomeD[OF a] show "\<exists>pre post. l = pre @ u @ post" by blast
next
  show "parseIssueBody pf env w b \<noteq> None \<longleftrightarrow>
      2 \<le> length (nonEmptyLines b) \<and> match_name_line (nonEmptyLines b ! 0) \<noteq> None \<and>
      urlOfLine (nonEmptyLines b ! 1) \<noteq> None"
    using parseIssueBody_None_iff[of pf env w b] by auto
next
  assume "parseIssueBody pf env w b = Some sub"
  then show "file_url sub = urlOfLine (nonEmptyLines b ! 1)" by (rule parseIssueBody_file_url)
qed

lemma md_line: "urlOfLine ''![cat](https://a/b.jpeg)'' = Some ''https://a/b.jpeg''"
  by code_simp

lemma env_gif_parse:
  "parseIssueBody pf0 env_gif w0 (ISSUE_BODY env_gif) =
     Some \<lparr>username = Some ''alice'', name = Some ''alice'',
            file_url = Some ''https://example.com/cat.gif'', url = None, type = None,
            description = Some ''funny cat'', date = Some ''2024-01-01''\<rparr>"
  by code_simp

theorem C3_second_line_witness:
  "media_url ''https://a/b.jpeg'' \<and>
   (\<exists>pre post. ''![cat](https://a/b.jpeg)'' = pre @ ''https://a/b.jpeg'' @ post) \<and>
   Some ''https://example.com/cat.gif''
     = urlOfLine (nonEmptyLines (ISSUE_BODY env_gif) ! 1)"
  using C3_second_line[of "''![cat](https://a/b.jpeg)''" "''https://a/b.jpeg''" pf0 env_gif w0
      "ISSUE_BODY env_gif"
      "\<lparr>username = Some ''alice'', name = Some ''alice'',
            file_url = Some ''https://example.com/cat.gif'', url = None, type = None,
            description = Some ''funny cat'', date = Some ''2024-01-01''\<rparr>"]
    md_line env_gif_parse
  by simp

section \<open>Rejected inputs\<close>

lemma bracket_no_space: "\<not> is_space (CHR ''['')"
  by (simp add: is_space_def)

text \<open>The pattern of line 261 matches exactly the name lines.\<close>

lemma match_name_line_iff: "match_name_line l \<noteq> None \<longleftrightarrow> name_line l"
proof
  assume m: "match_name_line l \<noteq> None"
  then obtain r where l: "l = CHR ''('' # r"
    by (cases l) (auto simp add: match_name_line_def split: if_splits)
  let ?g1 = "takeWhile (\<lambda>c. c \<noteq> CHR '')'') r"
  from m l have g1: "?g1 \<noteq> []"
    by (auto simp add: match_name_line_def Let_def split: if_splits)
  from m l g1 obtain x r2 where d1: "dropWhile (\<lambda>c. c \<noteq> CHR '')'') r = x # r2"
    by (cases "dropWhile (\<lambda>c. c \<noteq> CHR '')'') r") (auto simp add: match_name_line_def Let_def)
  then have x: "x = CHR '')''" by (auto simp add: dropWhile_eq_Cons_conv)
  from m l g1 d1 obtain b r3 where d2: "dropWhile is_space r2 = b # r3"
    by (cases "dropWhile is_space r2") (auto simp add: match_name_line_def Let_def)
  from m l g1 d1 d2 have c: "b = CHR ''[''" "r3 \<noteq> []" "last r3 = CHR '']''" "butlast r3 \<noteq> []"
    "\<not> list_ex is_line_terminator (butlast r3)"
    by (auto simp add: match_name_line_def Let_def split: if_splits)
  have r: "r = ?g1 @ CHR '')'' # r2"
    using takeWhile_dropWhile_id[of "\<lambda>c. c \<noteq> CHR '')''" r] d1 x by simp
  have r2: "r2 = takeWhile is_space r2 @ CHR ''['' # r3"
    using takeWhile_dropWhile_id[of is_space r2] d2 c(1) by simp
  have r3: "r3 = butlast r3 @ '']''"
    using append_butlast_last_id[OF c(2)] c(3) by simp
  have "l = ''('' @ ?g1 @ '')'' @ takeWhile is_space r2 @ ''['' @ butlast r3 @ '']''"
    using l r r2 r3 by simp
  moreover have "CHR '')'' \<notin> set ?g1" by (auto dest: set_takeWhileD)
  moreover have "list_all is_space (takeWhile is_space r2)"
    by (auto simp add: list_all_iff dest: set_takeWhileD)
  ultimately show "name_line l"
    unfolding name_line_def using g1 c(4,5) by blast
next
  assume "name_line l"
  then obtain nm ws d where l: "l = ''('' @ nm @ '')'' @ ws @ ''['' @ d @ '']''"
    and nm: "nm \<noteq> []" "CHR '')'' \<notin> set nm" and ws: "list_all is_space ws"
    and d: "d \<noteq> []" "\<not> list_ex is_line_terminator d"
    unfolding name_line_def by blast
  let ?r = "nm @ CHR '')'' # ws @ CHR ''['' # d @ '']''"
  have l': "l = CHR ''('' # ?r" by (simp add: l)
  have t1: "takeWhile (\<lambda>c. c \<noteq> CHR '')'') ?r = nm"
    using nm(2) by (subst takeWhile_append2) auto
  have d1: "dropWhile (\<lambda>c. c \<noteq> CHR '')'') ?r = CHR '')'' # ws @ CHR ''['' # d @ '']''"
    using nm(2) by (subst dropWhile_append2) auto
  have d2: "dropWhile is_space (ws @ CHR ''['' # d @ '']'') = CHR ''['' # d @ '']''"
    using ws by (subst dropWhile_append2) (auto simp add: list_all_iff bracket_no_space)
  show "match_name_line l \<noteq> None"
    using nm(1) d unfolding l' match_name_line_def
    by (simp add: Let_def t1 d1 d2)
qed

lemma urlOfLine_iff: "urlOfLine l \<noteq> None \<longleftrightarrow> holds_media_url l"
proof
  assume "urlOfLine l \<noteq> None"
  then obtain v where "urlOfLine l = Some v" by blast
  from urlOfLine_SomeD[OF this] show "holds_media_url l"
    unfolding holds_media_url_def by blast
next
  assume "holds_media_url l"
  then obtain pre v post where "l = pre @ v @ post" "media_url v"
    unfolding holds_media_url_def by blast
  with urlOfLine_accepts[of v pre post] show "urlOfLine l \<noteq> None" by simp
qed

text \<open>The inputs of which no record is made.\<close>

lemma refused_iff:
  "newSubmission pf env w = None \<longleftrightarrow>
     ISSUE_BODY env \<noteq> [] \<and>
       (length (nonEmptyLines (ISSUE_BODY env)) < 2
        \<or> \<not> name_line (nonEmptyLines (ISSUE_BODY env) ! 0)
        \<or> \<not> holds_media_url (nonEmptyLines (ISSUE_BODY env) ! 1))
     \<or> ISSUE_BODY env = [] \<and> FILE_URL env = []"
proof (cases "ISSUE_BODY env = []")
  case True
  then show ?thesis by (simp add: newSubmission_def)
next
  case False
  then have "newSubmission pf env w = parseIssueBody pf env w (ISSUE_BODY env)"
    by (simp add: newSubmission_def)
  moreover have "match_name_line x = None \<longleftrightarrow> \<not> name_line x" for x
    using match_name_line_iff[of x] by blast
  moreover have "urlOfLine x = None \<longleftrightarrow> \<not> holds_media_url x" for x
    using urlOfLine_iff[of x] by blast
  ultimately show ?thesis
    using False by (simp only: parseIssueBody_None_iff) simp
qed

text \<open>
  C6, amended. Let the user name hold no \<open>/\<close> (the timestamp holds none, as no ISO
  timestamp does). When the free-text input is present and has fewer than two non-empty
  lines, or its first line is not a name line, or its second line holds no media URL
  anywhere (or when neither a free-text input nor a file URL is given), \<open>queue_submission\<close>
  returns normally with the outcome Rejected. The queue is the same afterwards (a missing
  queue file has been created as the empty array), no page and no file of the log of
  accepted records is written, and exactly one file is written to the failure ledger: its
  name holds the timestamp and the user name, its content the user name and the raw text.
  Where no file of that name existed, the ledger has one entry more.
\<close>

theorem C6_rejection:
  assumes "CHR ''/'' \<notin> set (USERNAME env)" and "CHR ''/'' \<notin> set (toISOString pf (clock w))"
    and "ISSUE_BODY env \<noteq> [] \<and>
             (length (nonEmptyLines (ISSUE_BODY env)) < 2
              \<or> \<not> name_line (nonEmptyLines (ISSUE_BODY env) ! 0)
              \<or> \<not> holds_media_url (nonEmptyLines (ISSUE_BODY env) ! 1))
           \<or> ISSUE_BODY env = [] \<and> FILE_URL env = []"
  shows "fst (queue_submission pf env w) = Rejected \<and>
         queued (snd (queue_submission pf env w)) = queued w \<and>
         submissions_file (snd (queue_submission pf env w))
           = (case submissions_file w of None \<Rightarrow> Some (JsonArray []) | Some f \<Rightarrow> Some f) \<and>
         pages (snd (queue_submission pf env w)) = pages w \<and>
         log_files (snd (queue_submission pf env w)) = log_files w \<and>
         failed_files (snd (queue_submission pf env w))
           = (failed_files w)(logFileName pf w (USERNAME env) \<mapsto>
                \<lparr>rej_username = USERNAME env, rej_body = ISSUE_BODY env\<rparr>) \<and>
         (finite (dom (failed_files w)) \<and> logFileName pf w (USERNAME env) \<notin> dom (failed_files w)
            \<longrightarrow> card (dom (failed_files (snd (queue_submission pf env w))))
                  = Suc (card (dom (failed_files w))))"
proof -
  from assms(3) have n: "newSubmission pf env w = None" by (simp only: refused_iff)
  from assms(1,2) have s: "CHR ''/'' \<notin> set (logFileName pf w (USERNAME env))"
    by (simp add: logFileName_slash)
  note r = queue_submission_rejected[OF n s]
  show ?thesis
    by (simp add: r emit_def at_intake_fields queued_def split: option.splits)
qed

lemma env_bad_line: "match_name_line (nonEmptyLines (ISSUE_BODY env_bad) ! 0) = None"
  by code_simp

lemma env_text_line: "urlOfLine (nonEmptyLines (ISSUE_BODY env_text) ! 1) = None"
  by code_simp

lemma env_bad_file:
  "logFileName pf0 w_q (USERNAME env_bad) = ''2024-01-01T00-00-00-000Z-alice.json''"
  by code_simp

lemma env_text_file:
  "logFileName pf0 w_q (USERNAME env_text) = ''2024-01-01T00-00-00-000Z-alice.json''"
  by code_simp

lemma sample_names:
  "CHR ''/'' \<notin> set (USERNAME env_bad)" "CHR ''/'' \<notin> set (USERNAME env_text)"
  "CHR ''/'' \<notin> set (toISOString pf0 (clock w_q))"
  "ISSUE_BODY env_bad \<noteq> []" "ISSUE_BODY env_text \<noteq> []"
  by code_simp+

theorem C6_rejection_witness:
  "fst (queue_submission pf0 env_bad w_q) = Rejected \<and>
   queued (snd (queue_submission pf0 env_bad w_q)) = queued w_q \<and>
   failed_files (snd (queue_submission pf0 env_bad w_q)) ''2024-01-01T00-00-00-000Z-alice.json''
     = Some \<lparr>rej_username = USERNAME env_bad, rej_body = ISSUE_BODY env_bad\<rparr> \<and>
   card (dom (failed_files (snd (queue_submission pf0 env_bad w_q)))) = 1 \<and>
   fst (queue_submission pf0 env_text w_q) = Rejected \<and>
   queued (snd (queue_submission pf0 env_text w_q)) = queued w_q \<and>
   failed_files (snd (queue_submission pf0 env_text w_q)) ''2024-01-01T00-00-00-000Z-alice.json''
     = Some \<lparr>rej_username = USERNAME env_text, rej_body = ISSUE_BODY env_text\<rparr>"
proof -
  have e: "failed_files w_q = Map.empty" by (simp add: w_q_def w0_def)
  have b: "\<not> name_line (nonEmptyLines (ISSUE_BODY env_bad) ! 0)"
    using match_name_line_iff[of "nonEmptyLines (ISSUE_BODY env_bad) ! 0"] env_bad_line by simp
  have t: "\<not> holds_media_url (nonEmptyLines (ISSUE_BODY env_text) ! 1)"
    using urlOfLine_iff[of "nonEmptyLines (ISSUE_BODY env_text) ! 1"] env_text_line by simp
  have 1: "fst (queue_submission pf0 env_bad w_q) = Rejected \<and>
      queued (snd (queue_submission pf0 env_bad w_q)) = queued w_q \<and>
      failed_files (snd (queue_submission pf0 env_bad w_q)) ''2024-01-01T00-00-00-000Z-alice.json''
        = Some \<lparr>rej_username = USERNAME env_bad, rej_body = ISSUE_BODY env_bad\<rparr> \<and>
      card (dom (failed_files (snd (queue_submission pf0 env_bad w_q)))) = 1"
    using C6_rejection[of env_bad pf0 w_q, OF sample_names(1) sample_names(3)] b sample_names(4)
    by (simp add: env_bad_file e)
  have 2: "fst (queue_submission pf0 env_text w_q) = Rejected \<and>
      queued (snd (queue_submission pf0 env_text w_q)) = queued w_q \<and>
      failed_files (snd (queue_submission pf0 env_text w_q)) ''2024-01-01T00-00-00-000Z-alice.json''
        = Some \<lparr>rej_username = USERNAME env_text, rej_body = ISSUE_BODY env_text\<rparr>"
    using C6_rejection[of env_text pf0 w_q, OF sample_names(2) sample_names(3)] t sample_names(5)
    by (simp add: env_text_file e)
  from 1 2 show ?thesis by simp
qed

lemma env_pngx_record:
  "newSubmission pf0 env_pngx w_q =
     Some \<lparr>username = Some ''alice'', name = Some ''alice'',
            file_url = Some ''http://a/b.png'', url = None, type = None,
            description = Some [], date = Some ''2024-01-01''\<rparr>"
  by code_simp

lemma env_pngx_line:
  "nonEmptyLines (ISSUE_BODY env_pngx) ! 1 = ''http://a/b.pngx''"
  "spec_secondLine ''http://a/b.pngx'' = None"
  "logFileName pf0 w_q (USERNAME env_pngx) = ''2024-01-01T00-00-00-000Z-alice.json''"
  by code_simp+

text \<open>
  C6, as stated, fails: the second line \<open>http://a/b.pngx\<close> is refused by the grammar of the
  specification, yet the input is accepted: its record is appended to the queue and
  nothing is written to the failure ledger.
\<close>

theorem C6_counterexample:
  "nonEmptyLines (ISSUE_BODY env_pngx) ! 1 = ''http://a/b.pngx'' \<and>
   spec_secondLine ''http://a/b.pngx'' = None \<and>
   fst (queue_submission pf0 env_pngx w_q) = Accepted \<and>
   queued (snd (queue_submission pf0 env_pngx w_q))
     = queued w_q @ [\<lparr>username = Some ''alice'', name = Some ''alice'',
            file_url = Some ''http://a/b.png'', url = None, type = None,
            description = Some [], date = Some ''2024-01-01''\<rparr>] \<and>
   failed_files (snd (queue_submission pf0 env_pngx w_q)) = failed_files w_q"
proof -
  have s: "CHR ''/'' \<notin> set (logFileName pf0 w_q (USERNAME env_pngx))"
    by (simp add: env_pngx_line)
  show ?thesis
    using env_pngx_line(1,2)
    by (simp add: queue_submission_accepted[OF env_pngx_record s]
        writeSubmissions_def emit_def queued_def at_intake_fields)
qed


section \<open>A queue file that is not an array\<close>

lemma env_slash_record:
  "newSubmission pf0 env_slash w_other =
     Some \<lparr>username = Some ''a/b'', name = Some ''alice'',
            file_url = Some ''https://example.com/cat.gif'', url = None, type = None,
            description = Some ''funny cat'', date = Some ''2024-01-01''\<rparr>"
  by code_simp

lemma env_slash_file:
  "logFileName pf0 w_other (USERNAME env_slash) = ''2024-01-01T00-00-00-000Z-a/b.json''"
  by code_simp

text \<open>
  C10. The claim fails for a user name with a \<open>/\<close>. The queue file holds a JSON value that
  is not an array, and the input is the example of the specification, sent as user \<open>a/b\<close>.
  The name of the log file holds the \<open>/\<close>, \<open>logSubmission\<close> throws at line 296, and the script
  exits with code 1 before line 334 writes the queue: the queue file still holds the value
  that is not an array, and nothing is logged.
\<close>

theorem C10_user_name_with_a_slash:
  "submissions_file w_other = Some JsonOther \<and>
   newSubmission pf0 env_slash w_other =
     Some \<lparr>username = Some ''a/b'', name = Some ''alice'',
            file_url = Some ''https://example.com/cat.gif'', url = None, type = None,
            description = Some ''funny cat'', date = Some ''2024-01-01''\<rparr> \<and>
   logFileName pf0 w_other (USERNAME env_slash) = ''2024-01-01T00-00-00-000Z-a/b.json'' \<and>
   fst (queue_submission pf0 env_slash w_other) = Fatal \<and>
   submissions_file (snd (queue_submission pf0 env_slash w_other)) = Some JsonOther \<and>
   log_files (snd (queue_submission pf0 env_slash w_other)) = log_files w_other"
proof -
  have f: "submissions_file w_other = Some JsonOther" by (simp add: w_other_def)
  have s: "CHR ''/'' \<in> set (logFileName pf0 w_other (USERNAME env_slash))"
    by (simp add: env_slash_file)
  show ?thesis
    using queue_submission_accepted_fatal[OF env_slash_record s] f
    by (simp add: env_slash_record env_slash_file at_intake_fields emit_def)
qed

text \<open>
  What holds for a queue file that is not an array: \<open>queue_submission\<close>, given an input it
  accepts and a user name without a \<open>/\<close>, writes the array of the one new record;
  \<open>process_queue\<close> does not crash and, once the cooldown has expired, takes the Idle path:
  it waits, writes the cooldown, and leaves the queue file and the pages as they are.
\<close>

lemma not_an_array:
  assumes "submissions_file w = Some JsonOther"
  shows "newSubmission pf env w = Some sub \<and> CHR ''/'' \<notin> set (USERNAME env)
           \<and> CHR ''/'' \<notin> set (toISOString pf (clock w)) \<longrightarrow>
            fst (queue_submission pf env w) = Accepted \<and>
            submissions_file (snd (queue_submission pf env w)) = Some (JsonArray [sub])"
    and "fst (main_590 pf w) \<noteq> Crashed" and "fst (main_117 pf w) \<noteq> Crashed"
    and "\<not> cooldownActive w \<longrightarrow>
           fst (main_590 pf w) = Idled \<and> fst (main_117 pf w) = Idled \<and>
           submissions_file (snd (main_590 pf w)) = Some JsonOther \<and>
           submissions_file (snd (main_117 pf w)) = Some JsonOther \<and>
           clock (snd (main_590 pf w)) = clock w + IDLE_WAIT_MS \<and>
           clock (snd (main_117 pf w)) = clock w + IDLE_WAIT_MS \<and>
           cooldown_file (snd (main_590 pf w)) = Some (String (clock w + IDLE_WAIT_MS)) \<and>
           cooldown_file (snd (main_117 pf w)) = Some (String (clock w + IDLE_WAIT_MS)) \<and>
           pages (snd (main_590 pf w)) = pages w \<and> pages (snd (main_117 pf w)) = pages w"
proof -
  note q = queued_JsonOther[OF assms]
  show "newSubmission pf env w = Some sub \<and> CHR ''/'' \<notin> set (USERNAME env)
           \<and> CHR ''/'' \<notin> set (toISOString pf (clock w)) \<longrightarrow>
            fst (queue_submission pf env w) = Accepted \<and>
            submissions_file (snd (queue_submission pf env w)) = Some (JsonArray [sub])"
  proof
    assume a: "newSubmission pf env w = Some sub \<and> CHR ''/'' \<notin> set (USERNAME env)
           \<and> CHR ''/'' \<notin> set (toISOString pf (clock w))"
    then have n: "CHR ''/'' \<notin> set (logFileName pf w (USERNAME env))"
      by (simp add: logFileName_slash)
    from a have s: "newSubmission pf env w = Some sub" by simp
    show "fst (queue_submission pf env w) = Accepted \<and>
            submissions_file (snd (queue_submission pf env w)) = Some (JsonArray [sub])"
      by (simp add: queue_submission_accepted[OF s n] q writeSubmissions_def emit_def)
  qed
  show "fst (main_590 pf w) \<noteq> Crashed" by (simp add: main_590_outcome q)
  show "fst (main_117 pf w) \<noteq> Crashed" by (simp add: main_117_outcome q)
  show "\<not> cooldownActive w \<longrightarrow>
           fst (main_590 pf w) = Idled \<and> fst (main_117 pf w) = Idled \<and>
           submissions_file (snd (main_590 pf w)) = Some JsonOther \<and>
           submissions_file (snd (main_117 pf w)) = Some JsonOther \<and>
           clock (snd (main_590 pf w)) = clock w + IDLE_WAIT_MS \<and>
           clock (snd (main_117 pf w)) = clock w + IDLE_WAIT_MS \<and>
           cooldown_file (snd (main_590 pf w)) = Some (String (clock w + IDLE_WAIT_MS)) \<and>
           cooldown_file (snd (main_117 pf w)) = Some (String (clock w + IDLE_WAIT_MS)) \<and>
           pages (snd (main_590 pf w)) = pages w \<and> pages (snd (main_117 pf w)) = pages w"
  proof
    assume c: "\<not> cooldownActive w"
    have f: "submissions_file (snd (main_with body w)) = Some JsonOther" for body
      using assms
      by (simp add: main_with_idle[OF c q] writeCooldown_def sleep_def emit_def at_queue_def
          readSubmissions_def ensureFileExists_def readCooldown_snd Let_def)
    show "fst (main_590 pf w) = Idled \<and> fst (main_117 pf w) = Idled \<and>
           submissions_file (snd (main_590 pf w)) = Some JsonOther \<and>
           submissions_file (snd (main_117 pf w)) = Some JsonOther \<and>
           clock (snd (main_590 pf w)) = clock w + IDLE_WAIT_MS \<and>
           clock (snd (main_117 pf w)) = clock w + IDLE_WAIT_MS \<and>
           cooldown_file (snd (main_590 pf w)) = Some (String (clock w + IDLE_WAIT_MS)) \<and>
           cooldown_file (snd (main_117 pf w)) = Some (String (clock w + IDLE_WAIT_MS)) \<and>
           pages (snd (main_590 pf w)) = pages w \<and> pages (snd (main_117 pf w)) = pages w"
      using idle_result[OF c q, of "body_621 pf"] idle_result[OF c q, of "body_147 pf"]
        f[of "body_621 pf"] f[of "body_147 pf"]
      by (simp add: main_590_def main_117_def)
  qed
qed


section \<open>The cooldown between two runs\<close>

lemma digit_char:
  assumes "n < 10"
  shows "is_digit (''0123456789'' ! n) \<and> digit_val (''0123456789'' ! n) = n
         \<and> \<not> is_space (''0123456789'' ! n)"
proof -
  from assms have "n \<in> {0, 1, 2, 3, 4, 5, 6, 7, 8, 9}" by auto
  then show ?thesis
    by (auto simp add: is_digit_def digit_val_def is_space_def)
qed

lemma digits_val_snoc: "digits_val (ds @ [c]) = 10 * digits_val ds + digit_val c"
  by (simp add: digits_val_def)

lemma digits_props:
  "digits n \<noteq> [] \<and> list_all is_digit (digits n) \<and> \<not> list_ex is_space (digits n)
   \<and> digits_val (digits n) = n"
proof (induction n rule: digits.induct)
  case (1 n)
  show ?case
  proof (cases "n < 10")
    case True
    have d: "digits n = [''0123456789'' ! n]" using True by (subst digits.simps) simp
    show ?thesis unfolding d using digit_char[OF True] by (simp add: digits_val_def)
  next
    case False
    have m: "n mod 10 < 10" by simp
    from False "1.IH" have ih: "digits (n div 10) \<noteq> []" "list_all is_digit (digits (n div 10))"
      "\<not> list_ex is_space (digits (n div 10))" "digits_val (digits (n div 10)) = n div 10"
      by simp_all
    have d: "digits n = digits (n div 10) @ [''0123456789'' ! (n mod 10)]"
      using False by (subst digits.simps) simp
    show ?thesis
      unfolding d using ih digit_char[OF m] by (simp add: digits_val_snoc)
  qed
qed

lemma trim_no_space: "\<not> list_ex is_space s \<Longrightarrow> trim s = s"
proof -
  assume a: "\<not> list_ex is_space s"
  then have "dropWhile is_space s = s" by (cases s) (auto simp: list_ex_iff)
  moreover from a have "dropWhile is_space (rev s) = rev s"
    by (cases "rev s") (auto simp: list_ex_iff)
  ultimately show ?thesis by (simp add: trim_def)
qed

lemma takeWhile_all: "list_all P xs \<Longrightarrow> takeWhile P xs = xs"
  by (induction xs) auto

lemma parseInt_digits:
  assumes "ds \<noteq> []" and "list_all is_digit ds"
  shows "parseInt ds = Some (int (digits_val ds))"
    and "parseInt (CHR ''-'' # ds) = Some (- int (digits_val ds))"
proof -
  obtain c cs where c: "ds = c # cs" using assms(1) by (cases ds) auto
  with assms(2) have "is_digit c" by simp
  then have c1: "\<not> is_space c" "c \<noteq> CHR ''-''" "c \<noteq> CHR ''+''"
    by (auto simp: is_digit_def is_space_def)
  have tw: "takeWhile is_digit (c # cs) = c # cs"
    using takeWhile_all[OF assms(2)] by (simp add: c)
  show "parseInt ds = Some (int (digits_val ds))"
    unfolding c parseInt_def Let_def using c1 tw by simp
  have sp: "\<not> is_space (CHR ''-'')" by (simp add: is_space_def)
  show "parseInt (CHR ''-'' # ds) = Some (- int (digits_val ds))"
    unfolding c parseInt_def Let_def using sp tw by simp
qed

lemma parseInt_String: "parseInt (trim (String n)) = Some n"
proof (cases "n < 0")
  case False
  let ?d = "digits (nat n)"
  from digits_props[of "nat n"] have p: "?d \<noteq> []" "list_all is_digit ?d"
    "\<not> list_ex is_space ?d" "digits_val ?d = nat n" by simp_all
  have t: "trim (String n) = ?d" using False p(3) by (simp add: String_def trim_no_space)
  show ?thesis unfolding t using parseInt_digits(1)[OF p(1,2)] p(4) False by simp
next
  case True
  let ?d = "digits (nat (- n))"
  from digits_props[of "nat (- n)"] have p: "?d \<noteq> []" "list_all is_digit ?d"
    "\<not> list_ex is_space ?d" "digits_val ?d = nat (- n)" by simp_all
  have ns: "\<not> list_ex is_space (CHR ''-'' # ?d)" using p(3) by (simp add: is_space_def)
  have t: "trim (String n) = CHR ''-'' # ?d"
    using True trim_no_space[OF ns] by (simp add: String_def)
  show ?thesis unfolding t using parseInt_digits(2)[OF p(1,2)] p(4) True by simp
qed


lemma readCooldown_written:
  assumes "cooldown_file w = Some (String t)"
  shows "fst (readCooldown w) = t"
  using assms by (simp add: readCooldown_def Let_def parseInt_String)

lemma batch_finish_cooldown:
  "cooldown_file (batch_finish r w) = Some (String (clock (batch_finish r w)))"
  by (simp add: batch_finish_def writeCooldown_def writeSubmissions_def emit_def)

lemma main_with_arms_cooldown:
  assumes "fst (main_with body w) = Idled \<or> fst (main_with body w) = Processed"
  shows "cooldown_file (snd (main_with body w))
           = Some (String (clock (snd (main_with body w))))"
proof -
  from assms main_with_outcome[of body w] have c: "\<not> cooldownActive w"
    by (auto split: if_splits)
  show ?thesis
  proof (cases "queued w = []")
    case True
    from idle_result(3,4)[OF c True, of body] show ?thesis by simp
  next
    case False
    from assms main_with_outcome[of body w] c False
    have "fst (forEach body (take MAX_PER_RUN (queued w)) (batch_start w)) = None"
      by (auto split: if_splits)
    with main_with_batch[OF c False, of body] show ?thesis
      by (simp add: batch_finish_cooldown)
  qed
qed

lemma skipped_after:
  assumes "fst (main_with body w) = Idled \<or> fst (main_with body w) = Processed"
    and "cooldown_file w2 = cooldown_file (snd (main_with body w))"
    and "clock w2 - clock (snd (main_with body w)) < COOLDOWN_MS"
  shows "cooldownActive w2"
proof -
  from main_with_arms_cooldown[OF assms(1)] assms(2)
  have "cooldown_file w2 = Some (String (clock (snd (main_with body w))))" by simp
  from readCooldown_written[OF this] assms(3) show ?thesis by (simp add: cooldownActive_def)
qed

text \<open>
  C4. A run that starts while the cooldown is active (\<open>now - last < COOLDOWN_MS\<close>, with
  \<open>last\<close> read from the cooldown file) has the outcome Skip and ends in the state it
  started in, but for its trace: it has checked that the cooldown file exists, read it if
  it does, and logged "Cooldown active". No page, queue file, cooldown file or log file
  is read otherwise or written. And the cooldown is active in every state whose cooldown
  file is the one left by a run with outcome Idle or Process and whose clock is less than
  \<open>COOLDOWN_MS\<close> after the end of that run: what \<open>String\<close> wrote, \<open>parseInt\<close> reads
  back. This holds for both listings of \<open>main\<close>.
\<close>

theorem C4_skip:
  "(cooldownActive w \<longrightarrow>
      main_590 pf w =
        (Skipped, w\<lparr>trace := trace w @ ExistsSync COOLDOWN_FILE #
           (case cooldown_file w of None \<Rightarrow> [] | Some t \<Rightarrow> [ReadFile COOLDOWN_FILE])
           @ [Console CooldownActive]\<rparr>) \<and>
      main_117 pf w =
        (Skipped, w\<lparr>trace := trace w @ ExistsSync COOLDOWN_FILE #
           (case cooldown_file w of None \<Rightarrow> [] | Some t \<Rightarrow> [ReadFile COOLDOWN_FILE])
           @ [Console CooldownActive]\<rparr>)) \<and>
   ((fst (main_590 pf w) = Idled \<or> fst (main_590 pf w) = Processed) \<and>
    cooldown_file w2 = cooldown_file (snd (main_590 pf w)) \<and>
    clock w2 - clock (snd (main_590 pf w)) < COOLDOWN_MS \<longrightarrow> cooldownActive w2) \<and>
   ((fst (main_117 pf w) = Idled \<or> fst (main_117 pf w) = Processed) \<and>
    cooldown_file w2 = cooldown_file (snd (main_117 pf w)) \<and>
    clock w2 - clock (snd (main_117 pf w)) < COOLDOWN_MS \<longrightarrow> cooldownActive w2)"
proof (intro conjI impI)
  assume a: "cooldownActive w"
  show "main_590 pf w =
        (Skipped, w\<lparr>trace := trace w @ ExistsSync COOLDOWN_FILE #
           (case cooldown_file w of None \<Rightarrow> [] | Some t \<Rightarrow> [ReadFile COOLDOWN_FILE])
           @ [Console CooldownActive]\<rparr>)"
    using main_with_skip[OF a] by (simp add: main_590_def)
  show "main_117 pf w =
        (Skipped, w\<lparr>trace := trace w @ ExistsSync COOLDOWN_FILE #
           (case cooldown_file w of None \<Rightarrow> [] | Some t \<Rightarrow> [ReadFile COOLDOWN_FILE])
           @ [Console CooldownActive]\<rparr>)"
    using main_with_skip[OF a] by (simp add: main_117_def)
next
  assume "(fst (main_590 pf w) = Idled \<or> fst (main_590 pf w) = Processed) \<and>
    cooldown_file w2 = cooldown_file (snd (main_590 pf w)) \<and>
    clock w2 - clock (snd (main_590 pf w)) < COOLDOWN_MS"
  then show "cooldownActive w2"
    using skipped_after[of "body_621 pf" w w2] by (simp add: main_590_def)
next
  assume "(fst (main_117 pf w) = Idled \<or> fst (main_117 pf w) = Processed) \<and>
    cooldown_file w2 = cooldown_file (snd (main_117 pf w)) \<and>
    clock w2 - clock (snd (main_117 pf w)) < COOLDOWN_MS"
  then show "cooldownActive w2"
    using skipped_after[of "body_147 pf" w w2] by (simp add: main_117_def)
qed


lemma w_empty_idle:
  "fst (main_590 pf0 w_empty) = Idled" "clock (snd (main_590 pf0 w_empty)) = 320000"
  "fst (main_117 pf0 w_empty) = Idled" "clock (snd (main_117 pf0 w_empty)) = 320000"
proof -
  have q: "queued w_empty = []" by (simp add: queued_def w_empty_def)
  have c: "clock w_empty = 200000" by (simp add: w_empty_def w0_def)
  from idle_result(1,3)[OF w_empty_not_active q, of "body_621 pf0"] c
  show "fst (main_590 pf0 w_empty) = Idled" "clock (snd (main_590 pf0 w_empty)) = 320000"
    by (simp_all add: main_590_def IDLE_WAIT_MS_def)
  from idle_result(1,3)[OF w_empty_not_active q, of "body_147 pf0"] c
  show "fst (main_117 pf0 w_empty) = Idled" "clock (snd (main_117 pf0 w_empty)) = 320000"
    by (simp_all add: main_117_def IDLE_WAIT_MS_def)
qed

theorem C4_skip_witness:
  "main_590 pf0 w_cool =
     (Skipped, w_cool\<lparr>trace := [ExistsSync COOLDOWN_FILE, ReadFile COOLDOWN_FILE,
                                Console CooldownActive]\<rparr>) \<and>
   main_117 pf0 w_cool =
     (Skipped, w_cool\<lparr>trace := [ExistsSync COOLDOWN_FILE, ReadFile COOLDOWN_FILE,
                                Console CooldownActive]\<rparr>) \<and>
   cooldownActive ((snd (main_590 pf0 w_empty))\<lparr>clock := 400000\<rparr>) \<and>
   cooldownActive ((snd (main_117 pf0 w_empty))\<lparr>clock := 400000\<rparr>)"
proof -
  have t: "trace w_cool = []" "cooldown_file w_cool = Some ''200000''"
    by (simp_all add: w_cool_def w_q_def w0_def)
  have a: "main_590 pf0 w_cool =
     (Skipped, w_cool\<lparr>trace := [ExistsSync COOLDOWN_FILE, ReadFile COOLDOWN_FILE,
                                Console CooldownActive]\<rparr>) \<and>
   main_117 pf0 w_cool =
     (Skipped, w_cool\<lparr>trace := [ExistsSync COOLDOWN_FILE, ReadFile COOLDOWN_FILE,
                                Console CooldownActive]\<rparr>)"
    using C4_skip[THEN conjunct1, THEN mp, OF w_cool_active, of pf0] by (simp add: t)
  have h1: "(fst (main_590 pf0 w_empty) = Idled \<or> fst (main_590 pf0 w_empty) = Processed) \<and>
    cooldown_file ((snd (main_590 pf0 w_empty))\<lparr>clock := 400000\<rparr>)
      = cooldown_file (snd (main_590 pf0 w_empty)) \<and>
    clock ((snd (main_590 pf0 w_empty))\<lparr>clock := 400000\<rparr>) - clock (snd (main_590 pf0 w_empty))
      < COOLDOWN_MS"
    by (simp add: w_empty_idle COOLDOWN_MS_def)
  have h2: "(fst (main_117 pf0 w_empty) = Idled \<or> fst (main_117 pf0 w_empty) = Processed) \<and>
    cooldown_file ((snd (main_117 pf0 w_empty))\<lparr>clock := 400000\<rparr>)
      = cooldown_file (snd (main_117 pf0 w_empty)) \<and>
    clock ((snd (main_117 pf0 w_empty))\<lparr>clock := 400000\<rparr>) - clock (snd (main_117 pf0 w_empty))
      < COOLDOWN_MS"
    by (simp add: w_empty_idle COOLDOWN_MS_def)
  note b = C4_skip[THEN conjunct2, THEN conjunct1, THEN mp, OF h1]
  note c = C4_skip[THEN conjunct2, THEN conjunct2, THEN mp, OF h2]
  from a b c show ?thesis by blast
qed

end
